(* ===== verification/Prelude.thy ===== *)
theory Prelude
  imports Main
begin

text \<open>
  Shared notions of the development: Python exceptions, the three ways a Python statement can
  end, the state-passing style in which every operation with side effects is written, and the
  rules by which the component theories reason about it.  A computation \<open>m\<close> of type
  \<open>('s, 'a) py\<close> takes the state and either returns a value (\<open>Ret\<close>), leaves by an exception
  (\<open>Exc\<close>, with the state as it is at the raise: Python does not roll assignments back), or does
  not come back at all (\<open>Diverge\<close>).
\<close>

section \<open>Exceptions and outcomes\<close>

datatype exn =
    ValueError string
  | KeyError
  | IndexError
  | TypeError
  | OverflowError
  | ZeroDivisionError
  | AttributeError
  | AssertionError
  | FileNotFoundError
  | RuntimeError string
  | UnicodeDecodeError
  | ClientError int string
  | TransactionRejectedError string
  | EvmTransactionError "int list"
  | StarknetTransactionError string
  | SetupError string
  | SystemExit int
  | OtherException string

text \<open>\<^verbatim>\<open>isinstance(e, ...)\<close> for the classes the scripts ask about.\<close>

definition is_rejected :: "exn \<Rightarrow> bool" where
  "is_rejected e = (case e of TransactionRejectedError _ \<Rightarrow> True | _ \<Rightarrow> False)"

definition is_client_error :: "exn \<Rightarrow> bool" where
  "is_client_error e = (case e of ClientError _ _ \<Rightarrow> True | _ \<Rightarrow> False)"

lemma is_rejected_simps [simp]:
  "is_rejected (TransactionRejectedError m)" "\<not> is_rejected (ClientError c m)"
  "\<not> is_rejected (ValueError m)" "\<not> is_rejected ZeroDivisionError"
  by (simp_all add: is_rejected_def)

lemma is_client_error_simps [simp]:
  "is_client_error (ClientError c m)" "\<not> is_client_error (TransactionRejectedError m)"
  "\<not> is_client_error (ValueError m)" "\<not> is_client_error KeyError"
  by (simp_all add: is_client_error_def)

datatype ('a, 's) outcome = Ret 'a 's | Exc exn 's | Diverge

type_synonym ('s, 'a) py = "'s \<Rightarrow> ('a, 's) outcome"

definition ret :: "'a \<Rightarrow> ('s, 'a) py" where
  "ret x s = Ret x s"

definition raise :: "exn \<Rightarrow> ('s, 'a) py" where
  "raise e s = Exc e s"

definition bnd :: "('s, 'a) py \<Rightarrow> ('a \<Rightarrow> ('s, 'b) py) \<Rightarrow> ('s, 'b) py" where
  "bnd m f s = (case m s of Ret x t \<Rightarrow> f x t | Exc e t \<Rightarrow> Exc e t | Diverge \<Rightarrow> Diverge)"

definition seq :: "('s, 'a) py \<Rightarrow> ('s, 'b) py \<Rightarrow> ('s, 'b) py" where
  "seq m k = bnd m (\<lambda>_. k)"

definition try_except :: "('s, 'a) py \<Rightarrow> (exn \<Rightarrow> ('s, 'a) py) \<Rightarrow> ('s, 'a) py" where
  "try_except m h s = (case m s of Exc e t \<Rightarrow> h e t | r \<Rightarrow> r)"

definition gets :: "('s \<Rightarrow> 'a) \<Rightarrow> ('s, 'a) py" where
  "gets f s = Ret (f s) s"

definition modify :: "('s \<Rightarrow> 's) \<Rightarrow> ('s, unit) py" where
  "modify f s = Ret () (f s)"

definition lift_sum :: "exn + 'a \<Rightarrow> ('s, 'a) py" where
  "lift_sum r s = (case r of Inl e \<Rightarrow> Exc e s | Inr x \<Rightarrow> Ret x s)"

definition py_when :: "bool \<Rightarrow> ('s, unit) py \<Rightarrow> ('s, unit) py" where
  "py_when b m = (if b then m else ret ())"

definition py_assert :: "bool \<Rightarrow> ('s, unit) py" where
  "py_assert b = (if b then ret () else raise AssertionError)"

text \<open>A \<open>for\<close> statement and a list comprehension: left to right, the first exception ends them.\<close>

fun for_each :: "'a list \<Rightarrow> ('a \<Rightarrow> ('s, unit) py) \<Rightarrow> ('s, unit) py" where
  "for_each [] b = ret ()"
| "for_each (x # xs) b = seq (b x) (for_each xs b)"

fun comprehend :: "('a \<Rightarrow> ('s, 'b) py) \<Rightarrow> 'a list \<Rightarrow> ('s, 'b list) py" where
  "comprehend f [] = ret []"
| "comprehend f (x # xs) = bnd (f x) (\<lambda>y. bnd (comprehend f xs) (\<lambda>ys. ret (y # ys)))"

text \<open>The same for operations without state, on the sum type alone.\<close>

definition bind_sum :: "'e + 'a \<Rightarrow> ('a \<Rightarrow> 'e + 'b) \<Rightarrow> 'e + 'b" where
  "bind_sum m f = (case m of Inl e \<Rightarrow> Inl e | Inr x \<Rightarrow> f x)"

fun map_sum_list :: "('a \<Rightarrow> 'e + 'b) \<Rightarrow> 'a list \<Rightarrow> 'e + 'b list" where
  "map_sum_list f [] = Inr []"
| "map_sum_list f (x # xs) =
     bind_sum (f x) (\<lambda>y. bind_sum (map_sum_list f xs) (\<lambda>ys. Inr (y # ys)))"

lemma bind_sum_cong [fundef_cong]:
  "m = n \<Longrightarrow> (\<And>x. n = Inr x \<Longrightarrow> f x = g x) \<Longrightarrow> bind_sum m f = bind_sum n g"
  by (cases n) (simp_all add: bind_sum_def)

lemma map_sum_list_cong [fundef_cong]:
  "xs = ys \<Longrightarrow> (\<And>x. x \<in> set ys \<Longrightarrow> f x = g x) \<Longrightarrow> map_sum_list f xs = map_sum_list g ys"
  by (induction ys arbitrary: xs) (auto intro: bind_sum_cong)

section \<open>Symbolic execution\<close>

named_theorems py_run \<open>unfold the state-passing combinators at a state\<close>

lemmas [py_run] = ret_def raise_def bnd_def seq_def try_except_def gets_def modify_def
  lift_sum_def py_when_def

lemma bnd_assoc: "bnd (bnd m f) g = bnd m (\<lambda>x. bnd (f x) g)"
  by (rule ext) (simp add: bnd_def split: outcome.split)

lemma bnd_ret [simp]: "bnd (ret x) f = f x"
  by (rule ext) (simp add: bnd_def ret_def)

lemma bnd_raise [simp]: "bnd (raise e) f = raise e"
  by (rule ext) (simp add: bnd_def raise_def)

lemma ret_bnd [simp]: "bnd m ret = m"
  by (rule ext) (simp add: bnd_def ret_def split: outcome.split)

lemma bnd_Ret: "m s = Ret x t \<Longrightarrow> bnd m f s = f x t"
  by (simp add: bnd_def)

lemma bnd_Exc: "m s = Exc e t \<Longrightarrow> bnd m f s = Exc e t"
  by (simp add: bnd_def)

lemma bnd_RetE:
  assumes "bnd m f s = Ret y u"
  obtains x t where "m s = Ret x t" and "f x t = Ret y u"
  using assms by (auto simp: bnd_def split: outcome.splits)

lemma seq_RetE:
  assumes "seq m k s = Ret y u"
  obtains x t where "m s = Ret x t" and "k t = Ret y u"
  using assms unfolding seq_def by (rule bnd_RetE)

lemma bind_sum_simps [simp]:
  "bind_sum (Inl e) f = Inl e" "bind_sum (Inr x) f = f x"
  by (simp_all add: bind_sum_def)

lemma bind_sum_InrE:
  assumes "bind_sum m f = Inr y"
  obtains x where "m = Inr x" and "f x = Inr y"
  using assms by (cases m) auto

lemma map_sum_list_Inr: "map_sum_list (\<lambda>x. Inr (f x)) xs = Inr (map f xs)"
  by (induction xs) auto

lemma map_sum_list_set:
  "map_sum_list g xs = Inr ys \<Longrightarrow> y \<in> set ys \<Longrightarrow> \<exists>x \<in> set xs. g x = Inr y"
  by (induction xs arbitrary: ys) (auto elim!: bind_sum_InrE)

lemma map_sum_list_length: "map_sum_list f xs = Inr ys \<Longrightarrow> length ys = length xs"
  by (induction xs arbitrary: ys) (auto elim!: bind_sum_InrE)

lemma for_each_append: "for_each (xs @ ys) b = seq (for_each xs b) (for_each ys b)"
  by (induction xs) (simp_all add: seq_def bnd_assoc)

section \<open>Invariants of computations\<close>

text \<open>
  \<open>keeps I m\<close>: whatever way \<open>m\<close> comes back, the state it leaves satisfies \<open>I\<close> if the state it
  found did.  \<open>rel_py R m\<close> relates the state found to the state left, for a preorder \<open>R\<close>.
\<close>

definition rel_py :: "('s \<Rightarrow> 's \<Rightarrow> bool) \<Rightarrow> ('s, 'a) py \<Rightarrow> bool" where
  "rel_py R m \<longleftrightarrow> (\<forall>s. case m s of Ret x t \<Rightarrow> R s t | Exc e t \<Rightarrow> R s t | Diverge \<Rightarrow> True)"

abbreviation keeps :: "('s \<Rightarrow> bool) \<Rightarrow> ('s, 'a) py \<Rightarrow> bool" where
  "keeps I \<equiv> rel_py (\<lambda>s t. I s \<longrightarrow> I t)"

named_theorems frame \<open>how computations relate the state found to the state left\<close>

locale step_relation =
  fixes R :: "'s \<Rightarrow> 's \<Rightarrow> bool"
  assumes R_refl: "R s s"
    and R_trans: "R s t \<Longrightarrow> R t u \<Longrightarrow> R s u"
begin

lemma pure: "rel_py R (ret x)" "rel_py R (raise e)" "rel_py R (gets f)" "rel_py R (lift_sum r)"
  by (auto simp: rel_py_def ret_def raise_def gets_def lift_sum_def R_refl split: sum.split)

lemma bnd_rule: "rel_py R m \<Longrightarrow> (\<And>x. rel_py R (f x)) \<Longrightarrow> rel_py R (bnd m f)"
  unfolding rel_py_def bnd_def
  by (fastforce split: outcome.splits intro: R_trans)

lemma seq_rule: "rel_py R m \<Longrightarrow> rel_py R k \<Longrightarrow> rel_py R (seq m k)"
  unfolding seq_def by (rule bnd_rule)

lemma try_rule: "rel_py R m \<Longrightarrow> (\<And>e. rel_py R (h e)) \<Longrightarrow> rel_py R (try_except m h)"
  unfolding rel_py_def try_except_def
  by (fastforce split: outcome.splits intro: R_trans)

lemma if_rule: "rel_py R m \<Longrightarrow> rel_py R k \<Longrightarrow> rel_py R (if b then m else k)"
  by simp

lemma when_rule: "rel_py R m \<Longrightarrow> rel_py R (py_when b m)"
  by (simp add: py_when_def pure)

lemma for_each_rule: "(\<And>x. x \<in> set xs \<Longrightarrow> rel_py R (b x)) \<Longrightarrow> rel_py R (for_each xs b)"
  by (induction xs) (auto intro: pure seq_rule)

lemma comprehend_rule: "(\<And>x. x \<in> set xs \<Longrightarrow> rel_py R (f x)) \<Longrightarrow> rel_py R (comprehend f xs)"
  by (induction xs) (auto intro!: pure bnd_rule)

lemmas rules = pure bnd_rule seq_rule try_rule if_rule when_rule for_each_rule comprehend_rule

end

interpretation invariant_step: step_relation "\<lambda>s t. I s \<longrightarrow> I t" for I :: "'s \<Rightarrow> bool"
  by unfold_locales auto

lemma rel_pyD_Ret: "rel_py R m \<Longrightarrow> m s = Ret x t \<Longrightarrow> R s t"
  unfolding rel_py_def by (drule spec [of _ s]) simp

lemma rel_pyD_Exc: "rel_py R m \<Longrightarrow> m s = Exc e t \<Longrightarrow> R s t"
  unfolding rel_py_def by (drule spec [of _ s]) simp

lemma rel_pyI:
  "(\<And>s x t. m s = Ret x t \<Longrightarrow> R s t) \<Longrightarrow> (\<And>s e t. m s = Exc e t \<Longrightarrow> R s t) \<Longrightarrow> rel_py R m"
  unfolding rel_py_def by (simp split: outcome.split)

lemma rel_py_mono:
  assumes "rel_py R m" and "\<And>s t. R s t \<Longrightarrow> Q s t"
  shows "rel_py Q m"
  by (rule rel_pyI) (blast intro: assms(2) rel_pyD_Ret [OF assms(1)] rel_pyD_Exc [OF assms(1)])+

lemma keepsD:
  assumes "keeps I m" and "I s"
  shows "case m s of Ret x t \<Rightarrow> I t | Exc e t \<Rightarrow> I t | Diverge \<Rightarrow> True"
  using assms rel_pyD_Ret [OF assms(1), of s] rel_pyD_Exc [OF assms(1), of s]
  by (simp split: outcome.split)

section \<open>Preconditions, results and what an exception leaves\<close>

definition triple :: "('s \<Rightarrow> bool) \<Rightarrow> ('s, 'a) py \<Rightarrow> ('a \<Rightarrow> 's \<Rightarrow> bool) \<Rightarrow> ('s \<Rightarrow> bool) \<Rightarrow> bool" where
  "triple P m Q X \<longleftrightarrow> (\<forall>s. P s \<longrightarrow> (case m s of Ret x t \<Rightarrow> Q x t | Exc e t \<Rightarrow> X t | Diverge \<Rightarrow> True))"

lemma triple_bnd:
  "triple P m Q X \<Longrightarrow> (\<And>x. triple (Q x) (f x) R X) \<Longrightarrow> triple P (bnd m f) R X"
  unfolding triple_def bnd_def by (fastforce split: outcome.splits)

lemma triple_keeps: "triple I m (\<lambda>_. I) I \<longleftrightarrow> keeps I m"
  unfolding triple_def rel_py_def by (auto split: outcome.splits)

lemma triple_ret: "triple (Q x) (ret x) Q X"
  by (simp add: triple_def ret_def)

lemma triple_weaken: "triple P m Q X \<Longrightarrow> (\<And>s. P' s \<Longrightarrow> P s) \<Longrightarrow> (\<And>x s. Q x s \<Longrightarrow> Q' x s) \<Longrightarrow> triple P' m Q' X"
  unfolding triple_def by (fastforce split: outcome.splits)

section \<open>Bounded computations\<close>

text \<open>\<open>costs c k m\<close>: \<open>m\<close> always comes back, and \<open>c\<close> has grown by at most \<open>k\<close> when it does.\<close>

definition costs :: "('s \<Rightarrow> nat) \<Rightarrow> nat \<Rightarrow> ('s, 'a) py \<Rightarrow> bool" where
  "costs c k m \<longleftrightarrow> (\<forall>s. case m s of Ret x t \<Rightarrow> c t \<le> c s + k | Exc e t \<Rightarrow> c t \<le> c s + k | Diverge \<Rightarrow> False)"

lemma costs_mono: "costs c j m \<Longrightarrow> j \<le> k \<Longrightarrow> costs c k m"
  unfolding costs_def by (auto split: outcome.split_asm outcome.split) force+

lemma costs_free:
  "costs c k (ret x)" "costs c k (raise e)" "costs c k (gets f)" "costs c k (lift_sum r)"
  by (auto simp: costs_def py_run split: sum.split)

lemma costs_bnd:
  assumes "costs c j m" and "\<And>x. costs c k (f x)"
  shows "costs c (j + k) (bnd m f)"
  unfolding costs_def
proof
  fix s
  show "case bnd m f s of Ret x t \<Rightarrow> c t \<le> c s + (j + k) | Exc e t \<Rightarrow> c t \<le> c s + (j + k)
    | Diverge \<Rightarrow> False"
  proof (cases "m s")
    case (Ret x t)
    with assms(1) have "c t \<le> c s + j" unfolding costs_def by (auto dest: spec [of _ s])
    moreover have "case f x t of Ret x u \<Rightarrow> c u \<le> c t + k | Exc e u \<Rightarrow> c u \<le> c t + k | Diverge \<Rightarrow> False"
      using assms(2) [of x] unfolding costs_def by blast
    ultimately show ?thesis using Ret by (auto simp: bnd_def split: outcome.splits)
  next
    case (Exc e t)
    with assms(1) have "c t \<le> c s + j" unfolding costs_def by (auto dest: spec [of _ s])
    with Exc show ?thesis by (simp add: bnd_def)
  next
    case Diverge
    with assms(1) show ?thesis unfolding costs_def by (auto dest: spec [of _ s])
  qed
qed

lemma costs_seq: "costs c j m \<Longrightarrow> costs c k n \<Longrightarrow> costs c (j + k) (seq m n)"
  unfolding seq_def by (rule costs_bnd)

lemma costs_for_each: "(\<And>x. x \<in> set xs \<Longrightarrow> costs c k (b x)) \<Longrightarrow> costs c (length xs * k) (for_each xs b)"
  by (induction xs) (auto intro: costs_free costs_seq)

section \<open>Computations that come back\<close>

definition comes_back :: "('s, 'a) py \<Rightarrow> bool" where
  "comes_back m \<longleftrightarrow> (\<forall>s. m s \<noteq> Diverge)"

named_theorems comes_back_rules \<open>composition of computations that come back\<close>

lemma comes_back_pure [comes_back_rules]:
  "comes_back (ret x)" "comes_back (raise e)" "comes_back (gets f)" "comes_back (modify g)" "comes_back (lift_sum r)"
  by (auto simp: comes_back_def py_run split: sum.split)

lemma comes_back_bnd [comes_back_rules]: "comes_back m \<Longrightarrow> (\<And>x. comes_back (f x)) \<Longrightarrow> comes_back (bnd m f)"
  unfolding comes_back_def bnd_def by (auto split: outcome.splits)

lemma comes_back_seq [comes_back_rules]: "comes_back m \<Longrightarrow> comes_back k \<Longrightarrow> comes_back (seq m k)"
  unfolding seq_def by (rule comes_back_bnd)

lemma comes_back_try [comes_back_rules]: "comes_back m \<Longrightarrow> (\<And>e. comes_back (h e)) \<Longrightarrow> comes_back (try_except m h)"
  unfolding comes_back_def try_except_def by (auto split: outcome.splits)

lemma comes_back_when [comes_back_rules]: "comes_back m \<Longrightarrow> comes_back (py_when b m)"
  by (simp add: py_when_def comes_back_rules)

lemma comes_back_for_each [comes_back_rules]: "(\<And>x. x \<in> set xs \<Longrightarrow> comes_back (b x)) \<Longrightarrow> comes_back (for_each xs b)"
  by (induction xs) (auto intro: comes_back_rules)

lemma comes_back_comprehend [comes_back_rules]: "(\<And>x. x \<in> set xs \<Longrightarrow> comes_back (f x)) \<Longrightarrow> comes_back (comprehend f xs)"
  by (induction xs) (auto intro!: comes_back_rules)

section \<open>Codecs\<close>

text \<open>
  The scripts print values into files, calldata and hexadecimal text and read them back.  A codec
  is such a pair: reading what was printed gives the value back.
\<close>

locale codec =
  fixes enc :: "'a \<Rightarrow> 'b"
    and dec :: "'b \<Rightarrow> exn + 'a"
    and valid :: "'a \<Rightarrow> bool"
  assumes dec_enc: "valid x \<Longrightarrow> dec (enc x) = Inr x"
begin

lemma enc_inject: "valid x \<Longrightarrow> valid y \<Longrightarrow> enc x = enc y \<Longrightarrow> x = y"
  using dec_enc by (metis sum.inject(2))

lemma list_roundtrip: "\<forall>x \<in> set xs. valid x \<Longrightarrow> map_sum_list dec (map enc xs) = Inr xs"
  by (induction xs) (simp_all add: dec_enc)

lemma values_roundtrip:
  "\<forall>(k, v) \<in> set kvs. valid v \<Longrightarrow>
     map_sum_list (\<lambda>(k, t). bind_sum (dec t) (\<lambda>v. Inr (k, v))) (map (\<lambda>(k, v). (k, enc v)) kvs) = Inr kvs"
  by (induction kvs) (auto simp: dec_enc)

end

end
