(* ===== verification/PyNumber.thy ===== *)
theory PyNumber
  imports Complex_Main Prelude
begin

text \<open>
  Python's numbers as the scripts use them: unbounded integers, and binary64 floats with their
  exact rational value.  Arithmetic on floats is exact arithmetic followed by rounding to 53
  significant bits, ties to even; the exponent range is not bounded (the amounts and intervals of
  the scripts stay far from overflow and from subnormals).  This is what
  \<^verbatim>\<open>int(amount * 1e18)\<close>, \<^verbatim>\<open>balance / 1e18\<close>, \<^verbatim>\<open>max_wait // check_interval\<close> and
  \<^verbatim>\<open>math.ceil\<close> compute.
\<close>

section \<open>Rounding to binary64\<close>

definition pow2 :: "int \<Rightarrow> rat" where
  "pow2 k = (if 0 \<le> k then 2 ^ nat k else 1 / 2 ^ nat (- k))"

fun bit_length :: "nat \<Rightarrow> nat" where
  "bit_length n = (if n = 0 then 0 else Suc (bit_length (n div 2)))"

declare bit_length.simps [simp del]

definition flog2 :: "rat \<Rightarrow> int" where
  "flog2 x =
     (let (p, q) = quotient_of x;
          k = int (bit_length (nat p)) - int (bit_length (nat q))
      in if pow2 k \<le> x then k else k - 1)"

definition round_half_even :: "rat \<Rightarrow> int" where
  "round_half_even r =
     (let f = \<lfloor>r\<rfloor>; d = r - of_int f
      in if d < 1 / 2 then f else if 1 / 2 < d then f + 1 else if even f then f else f + 1)"

definition rnd :: "rat \<Rightarrow> rat" where
  "rnd x =
     (if x = 0 then 0
      else let e = flog2 \<bar>x\<bar> - 52 in of_int (round_half_even (x / pow2 e)) * pow2 e)"

lemma pow2_pos [simp]: "0 < pow2 k"
  by (simp add: pow2_def)

lemma pow2_nz [simp]: "pow2 k \<noteq> 0"
  using pow2_pos [of k] by linarith

lemma pow2_nat [simp]: "pow2 (int n) = 2 ^ n"
  by (simp add: pow2_def)

lemma pow2_diff_nat: "pow2 (int a - int b) = 2 ^ a / 2 ^ b"
proof (cases "b \<le> a")
  case True
  then show ?thesis
    by (simp add: pow2_def power_diff flip: of_nat_diff)
next
  case False
  then have "nat (int b - int a) = b - a" and "\<not> 0 \<le> int a - int b" by auto
  with False show ?thesis
    by (simp add: pow2_def power_diff)
qed

lemma pow2_add: "pow2 (a + b) = pow2 a * pow2 b"
proof -
  obtain p q where a: "a = int p - int q"
    by (metis diff_0_right int_diff_cases)
  obtain r s where b: "b = int r - int s"
    by (metis diff_0_right int_diff_cases)
  have "a + b = int (p + r) - int (q + s)" using a b by simp
  then have "pow2 (a + b) = 2 ^ (p + r) / 2 ^ (q + s)" by (simp only: pow2_diff_nat)
  then show ?thesis using a b by (simp add: pow2_diff_nat power_add)
qed

lemma pow2_mono: "a \<le> b \<Longrightarrow> pow2 a \<le> pow2 b"
proof -
  assume "a \<le> b"
  then have "pow2 b = pow2 a * 2 ^ nat (b - a)"
    using pow2_add [of a "b - a"] by (simp add: pow2_def)
  moreover have "pow2 a * 1 \<le> pow2 a * 2 ^ nat (b - a)"
    by (rule mult_left_mono) (simp_all add: less_imp_le)
  ultimately show ?thesis by simp
qed

lemma pow2_less_iff: "pow2 a < pow2 b \<Longrightarrow> a < b"
  using pow2_mono [of b a] by (meson not_le)

lemma bit_length_lower: "0 < n \<Longrightarrow> 2 ^ (bit_length n - 1) \<le> n"
proof (induction n rule: bit_length.induct)
  case (1 n)
  show ?case
  proof (cases "n div 2 = 0")
    case True
    with "1.prems" show ?thesis by (simp add: bit_length.simps [of n] bit_length.simps [of 0])
  next
    case False
    with "1.IH" "1.prems" have "2 ^ (bit_length (n div 2) - 1) \<le> n div 2" by simp
    moreover have "0 < bit_length (n div 2)"
      using False by (subst bit_length.simps) simp
    ultimately have "2 ^ bit_length (n div 2) \<le> 2 * (n div 2)"
      by (cases "bit_length (n div 2)") auto
    with "1.prems" show ?thesis by (simp add: bit_length.simps [of n])
  qed
qed

lemma bit_length_upper: "n < 2 ^ bit_length n"
proof (induction n rule: bit_length.induct)
  case (1 n)
  show ?case
  proof (cases "n = 0")
    case True
    then show ?thesis by simp
  next
    case False
    with "1.IH" have "n div 2 < 2 ^ bit_length (n div 2)" by simp
    then have "n < 2 * 2 ^ bit_length (n div 2)" by linarith
    with False show ?thesis by (simp add: bit_length.simps [of n])
  qed
qed

lemma flog2_lower:
  assumes "0 < x"
  shows "pow2 (flog2 x) \<le> x"
proof -
  obtain p q where pq: "quotient_of x = (p, q)" by force
  then have q: "0 < q" by (rule quotient_of_denom_pos)
  have x: "x = of_int p / of_int q" using pq by (rule quotient_of_div)
  with assms q have p: "0 < p" by (simp add: zero_less_divide_iff)
  let ?P = "bit_length (nat p)" and ?Q = "bit_length (nat q)"
  have "(2::nat) ^ (?P - 1) \<le> nat p" using p by (intro bit_length_lower) simp
  then have "of_nat (2 ^ (?P - 1)) \<le> (of_nat (nat p) :: rat)" by (simp only: of_nat_le_iff)
  then have lo: "2 ^ (?P - 1) \<le> (of_int p :: rat)" using p by simp
  have "nat q < 2 ^ ?Q" by (rule bit_length_upper)
  then have "of_nat (nat q) < (of_nat (2 ^ ?Q) :: rat)" by (simp only: of_nat_less_iff)
  then have hi: "(of_int q :: rat) \<le> 2 ^ ?Q" using q by simp
  have "0 < ?P" using p by (subst bit_length.simps) simp
  then have "pow2 (int ?P - int ?Q - 1) = 2 ^ (?P - 1) / 2 ^ ?Q"
    using pow2_diff_nat [of "?P - 1" ?Q] by (simp add: of_nat_diff algebra_simps)
  also have "\<dots> \<le> of_int p / of_int q"
    using lo hi p q by (intro frac_le) simp_all
  finally have step: "pow2 (int ?P - int ?Q - 1) \<le> x" by (simp only: x)
  have "flog2 x = (if pow2 (int ?P - int ?Q) \<le> x then int ?P - int ?Q else int ?P - int ?Q - 1)"
    by (simp add: flog2_def pq)
  with step show ?thesis by (simp split: if_splits)
qed

lemma flog2_upper:
  assumes "0 < x"
  shows "x < pow2 (flog2 x + 1)"
proof -
  obtain p q where pq: "quotient_of x = (p, q)" by force
  then have q: "0 < q" by (rule quotient_of_denom_pos)
  have x: "x = of_int p / of_int q" using pq by (rule quotient_of_div)
  with assms q have p: "0 < p" by (simp add: zero_less_divide_iff)
  let ?P = "bit_length (nat p)" and ?Q = "bit_length (nat q)"
  have "nat p < 2 ^ ?P" by (rule bit_length_upper)
  then have "of_nat (nat p) < (of_nat (2 ^ ?P) :: rat)" by (simp only: of_nat_less_iff)
  then have hi: "(of_int p :: rat) < 2 ^ ?P" using p by simp
  have "(2::nat) ^ (?Q - 1) \<le> nat q" using q by (intro bit_length_lower) simp
  then have "of_nat (2 ^ (?Q - 1)) \<le> (of_nat (nat q) :: rat)" by (simp only: of_nat_le_iff)
  then have lo: "2 ^ (?Q - 1) \<le> (of_int q :: rat)" using q by simp
  have "0 < ?Q" using q by (subst bit_length.simps) simp
  have "of_int p / of_int q < 2 ^ ?P / (2 ^ (?Q - 1) :: rat)"
    using lo hi p q by (intro frac_less) simp_all
  also have "\<dots> = pow2 (int ?P - int ?Q + 1)"
    using pow2_diff_nat [of ?P "?Q - 1"] \<open>0 < ?Q\<close> by (simp add: of_nat_diff algebra_simps)
  finally have step: "x < pow2 (int ?P - int ?Q + 1)" by (simp only: x)
  have "flog2 x = (if pow2 (int ?P - int ?Q) \<le> x then int ?P - int ?Q else int ?P - int ?Q - 1)"
    by (simp add: flog2_def pq)
  with step show ?thesis by (simp split: if_splits)
qed

lemma flog2_eq: "pow2 k \<le> x \<Longrightarrow> x < pow2 (k + 1) \<Longrightarrow> flog2 x = k"
proof -
  assume "pow2 k \<le> x" and "x < pow2 (k + 1)"
  moreover from this have "0 < x" using pow2_pos [of k] by linarith
  ultimately have "pow2 (flog2 x) < pow2 (k + 1)" and "pow2 k < pow2 (flog2 x + 1)"
    using flog2_lower [of x] flog2_upper [of x] by linarith+
  then show ?thesis by (auto dest!: pow2_less_iff)
qed

lemma round_half_even_int [simp]: "round_half_even (of_int n) = n"
  by (simp add: round_half_even_def)

lemma round_half_even_eq: "\<bar>r - of_int n\<bar> < 1 / 2 \<Longrightarrow> round_half_even r = n"
proof -
  assume "\<bar>r - of_int n\<bar> < 1 / 2"
  then have near: "r - of_int n < 1 / 2" "of_int n - r < 1 / 2" by linarith+
  show ?thesis
  proof (cases "of_int n \<le> r")
    case True
    with near have "\<lfloor>r\<rfloor> = n" by (simp add: floor_eq_iff)
    with near show ?thesis by (simp add: round_half_even_def Let_def)
  next
    case False
    with near have "\<lfloor>r\<rfloor> = n - 1" by (simp add: floor_eq_iff)
    with near False show ?thesis by (simp add: round_half_even_def Let_def)
  qed
qed

text \<open>The rounding of a value, given its exponent and its 53 bits.\<close>

lemma rnd_eq:
  assumes "pow2 k \<le> x" and "x < pow2 (k + 1)" and "\<bar>x / pow2 (k - 52) - of_int n\<bar> < 1 / 2"
  shows "rnd x = of_int n * pow2 (k - 52)"
proof -
  have "0 < x" using assms(1) pow2_pos [of k] by linarith
  then show ?thesis
    by (simp add: rnd_def Let_def flog2_eq [OF assms(1,2)] round_half_even_eq [OF assms(3)])
qed

text \<open>A value with at most 53 significant bits is its own rounding.\<close>

lemma rnd_exact:
  assumes "\<bar>m\<bar> < 2 ^ 53"
  shows "rnd (of_int m * pow2 k) = of_int m * pow2 k"
proof (cases "m = 0")
  case True
  then show ?thesis by (simp add: rnd_def)
next
  case False
  let ?x = "of_int m * pow2 k :: rat"
  let ?e = "flog2 \<bar>?x\<bar> - 52"
  have abs: "\<bar>?x\<bar> = of_int \<bar>m\<bar> * pow2 k" by (simp add: abs_mult less_imp_le)
  have "(of_int \<bar>m\<bar> :: rat) < of_int (2 ^ 53)" using assms by (simp only: of_int_less_iff)
  then have "\<bar>?x\<bar> < pow2 53 * pow2 k"
    unfolding abs by (intro mult_strict_right_mono) (simp_all add: pow2_def)
  moreover have "pow2 (flog2 \<bar>?x\<bar>) \<le> \<bar>?x\<bar>" by (rule flog2_lower) (simp add: False)
  ultimately have "pow2 (flog2 \<bar>?x\<bar>) < pow2 (53 + k)" by (simp add: pow2_add)
  then have "?e \<le> k" by (auto dest: pow2_less_iff)
  then have "pow2 k = pow2 ?e * 2 ^ nat (k - ?e)"
    using pow2_add [of ?e "k - ?e"] by (simp add: pow2_def)
  then have "?x = (of_int m * 2 ^ nat (k - ?e)) * pow2 ?e"
    by (metis mult.assoc mult.commute)
  then have "?x / pow2 ?e = of_int m * 2 ^ nat (k - ?e)"
    by (metis nonzero_mult_div_cancel_right pow2_nz)
  then have "?x / pow2 ?e = of_int (m * 2 ^ nat (k - ?e))" by simp
  then have "of_int (round_half_even (?x / pow2 ?e)) * pow2 ?e = (?x / pow2 ?e) * pow2 ?e"
    by (simp only: round_half_even_int)
  then show ?thesis using False by (simp add: rnd_def Let_def)
qed

corollary rnd_int: "\<bar>m\<bar> < 2 ^ 53 \<Longrightarrow> rnd (of_int m) = of_int m"
  using rnd_exact [of m 0] by (simp add: pow2_def)

lemma rnd_0 [simp]: "rnd 0 = 0"
  by (simp add: rnd_def)

section \<open>Numbers\<close>

datatype pynum = PInt int | PFloat rat

fun pval :: "pynum \<Rightarrow> rat" where
  "pval (PInt n) = of_int n"
| "pval (PFloat r) = r"

text \<open>Comparison is exact, also between an integer and a float.\<close>

instantiation pynum :: preorder
begin

definition less_eq_pynum :: "pynum \<Rightarrow> pynum \<Rightarrow> bool" where
  "less_eq_pynum a b \<longleftrightarrow> pval a \<le> pval b"

definition less_pynum :: "pynum \<Rightarrow> pynum \<Rightarrow> bool" where
  "less_pynum a b \<longleftrightarrow> pval a < pval b"

instance
  by intro_classes (auto simp: less_eq_pynum_def less_pynum_def)

end

text \<open>Conversion of an operand of a mixed operation: \<^verbatim>\<open>float(n)\<close> rounds a large integer.\<close>

fun to_float :: "pynum \<Rightarrow> rat" where
  "to_float (PInt n) = rnd (of_int n)"
| "to_float (PFloat r) = r"

fun num_add :: "pynum \<Rightarrow> pynum \<Rightarrow> pynum" where
  "num_add (PInt a) (PInt b) = PInt (a + b)"
| "num_add a b = PFloat (rnd (to_float a + to_float b))"

fun num_sub :: "pynum \<Rightarrow> pynum \<Rightarrow> pynum" where
  "num_sub (PInt a) (PInt b) = PInt (a - b)"
| "num_sub a b = PFloat (rnd (to_float a - to_float b))"

fun num_mul :: "pynum \<Rightarrow> pynum \<Rightarrow> pynum" where
  "num_mul (PInt a) (PInt b) = PInt (a * b)"
| "num_mul a b = PFloat (rnd (to_float a * to_float b))"

text \<open>\<^verbatim>\<open>/\<close> on two integers is the correctly rounded quotient of the exact values.\<close>

fun num_truediv :: "pynum \<Rightarrow> pynum \<Rightarrow> exn + pynum" where
  "num_truediv (PInt a) (PInt b) =
     (if b = 0 then Inl ZeroDivisionError else Inr (PFloat (rnd (of_int a / of_int b))))"
| "num_truediv a b =
     (if to_float b = 0 then Inl ZeroDivisionError
      else Inr (PFloat (rnd (to_float a / to_float b))))"

fun num_floordiv :: "pynum \<Rightarrow> pynum \<Rightarrow> exn + pynum" where
  "num_floordiv (PInt a) (PInt b) =
     (if b = 0 then Inl ZeroDivisionError else Inr (PInt (a div b)))"
| "num_floordiv a b =
     (if to_float b = 0 then Inl ZeroDivisionError
      else Inr (PFloat (rnd (of_int \<lfloor>to_float a / to_float b\<rfloor>))))"

text \<open>\<^verbatim>\<open>int(x)\<close> truncates towards zero.\<close>

fun int_of_num :: "pynum \<Rightarrow> int" where
  "int_of_num (PInt n) = n"
| "int_of_num (PFloat r) = (if 0 \<le> r then \<lfloor>r\<rfloor> else - \<lfloor>- r\<rfloor>)"

fun math_ceil :: "pynum \<Rightarrow> int" where
  "math_ceil (PInt n) = n"
| "math_ceil (PFloat r) = \<lceil>r\<rceil>"

text \<open>\<^verbatim>\<open>range(n)\<close> takes an integer: a float argument is a \<open>TypeError\<close>.\<close>

fun py_range :: "pynum \<Rightarrow> exn + nat" where
  "py_range (PInt n) = Inr (nat n)"
| "py_range (PFloat r) = Inl TypeError"

section \<open>Amounts in ether\<close>

text \<open>\<^verbatim>\<open>1e18\<close> and the conversion \<^verbatim>\<open>int(amount * 1e18)\<close> used for every amount.\<close>

definition e18 :: pynum where
  "e18 = PFloat (10 ^ 18)"

definition wei_of_eth :: "pynum \<Rightarrow> int" where
  "wei_of_eth amount = int_of_num (num_mul amount e18)"

lemma pow10_18: "(10::rat) ^ 18 = of_int (5 ^ 18) * pow2 18"
  by (simp add: pow2_def)

lemma rnd_e18: "rnd (10 ^ 18) = 10 ^ 18"
  unfolding pow10_18 by (rule rnd_exact) simp

lemma int_of_num_PFloat_of_int [simp]: "int_of_num (PFloat (of_int z)) = z"
proof (cases "0 \<le> z")
  case False
  have "\<lfloor>- (of_int z :: rat)\<rfloor> = - z" using floor_of_int [of "- z"] by simp
  with False show ?thesis by simp
qed simp

text \<open>
  Whole amounts up to 2000 ether convert without rounding error: \<open>n * 5^18\<close> still fits in 53
  bits.
\<close>

lemma wei_of_eth_int:
  assumes "\<bar>n\<bar> \<le> 2000"
  shows "wei_of_eth (PInt n) = n * 10 ^ 18"
proof -
  have "\<bar>n\<bar> < 2 ^ 53" using assms by simp
  then have "to_float (PInt n) = of_int n" by (simp add: rnd_int)
  moreover have split18: "of_int (n * 5 ^ 18) * pow2 18 = (of_int n * 10 ^ 18 :: rat)"
    by (simp add: pow2_def)
  moreover have "rnd (of_int (n * 5 ^ 18) * pow2 18) = of_int (n * 5 ^ 18) * pow2 18"
    by (rule rnd_exact) (use assms in \<open>simp add: abs_mult\<close>)
  then have "rnd (of_int n * 10 ^ 18) = of_int (n * 10 ^ 18)"
    unfolding split18 by simp
  moreover have "wei_of_eth (PInt n) = int_of_num (PFloat (rnd (to_float (PInt n) * 10 ^ 18)))"
    by (simp add: wei_of_eth_def e18_def del: int_of_num.simps)
  ultimately show ?thesis by (simp only: int_of_num_PFloat_of_int)
qed

end
