(* ===== verification/PyBytes.thy ===== *)
theory PyBytes
  imports Prelude "HOL-Library.Word"
begin

text \<open>
  Python's conversions between integers, bytes objects and hexadecimal text, as far as the scripts
  use them: \<^verbatim>\<open>int.to_bytes\<close>, \<^verbatim>\<open>int.from_bytes\<close>, \<^verbatim>\<open>bytes(list)\<close>, \<^verbatim>\<open>bytes.hex\<close>,
  \<^verbatim>\<open>bytes.fromhex\<close>, \<^verbatim>\<open>hex\<close>, \<^verbatim>\<open>int(s, 16)\<close>, the format \<^verbatim>\<open>{n:0Nx}\<close> and the splitting of a text
  without blanks by \<^verbatim>\<open>textwrap.wrap\<close>.  A bytes object is a list of 8-bit words, a list of
  felts or of plain integers is an \<open>int list\<close>.
\<close>

type_synonym byte = "8 word"

section \<open>Positional notation\<close>

definition of_digits :: "int \<Rightarrow> int list \<Rightarrow> int" where
  "of_digits b ds = foldl (\<lambda>a d. a * b + d) 0 ds"

fun digits :: "int \<Rightarrow> nat \<Rightarrow> int \<Rightarrow> int list" where
  "digits b 0 n = []"
| "digits b (Suc k) n = digits b k (n div b) @ [n mod b]"

text \<open>The least number of digits, at least one.\<close>

fun ndigits :: "nat \<Rightarrow> nat \<Rightarrow> nat" where
  "ndigits b n = (if n < b \<or> b < 2 then 1 else Suc (ndigits b (n div b)))"

declare ndigits.simps [simp del]

definition in_base :: "int \<Rightarrow> int list \<Rightarrow> bool" where
  "in_base b ds \<longleftrightarrow> (\<forall>d \<in> set ds. 0 \<le> d \<and> d < b)"

lemma in_base_simps [simp]:
  "in_base b []" "in_base b (d # ds) \<longleftrightarrow> 0 \<le> d \<and> d < b \<and> in_base b ds"
  "in_base b (ds @ es) \<longleftrightarrow> in_base b ds \<and> in_base b es"
  by (auto simp: in_base_def)

lemma of_digits_Nil [simp]: "of_digits b [] = 0"
  by (simp add: of_digits_def)

lemma of_digits_snoc [simp]: "of_digits b (ds @ [d]) = of_digits b ds * b + d"
  by (simp add: of_digits_def)

lemma of_digits_append: "of_digits b (ds @ es) = of_digits b ds * b ^ length es + of_digits b es"
proof (induction es rule: rev_induct)
  case (snoc e es)
  have "of_digits b (ds @ es @ [e]) = of_digits b (ds @ es) * b + e"
    using of_digits_snoc [of b "ds @ es" e] by simp
  with snoc show ?case by (simp add: algebra_simps)
qed simp

lemma of_digits_Cons: "of_digits b (d # ds) = d * b ^ length ds + of_digits b ds"
  using of_digits_append [of b "[d]" ds] by (simp add: of_digits_def)

lemma length_digits [simp]: "length (digits b k n) = k"
  by (induction b k n rule: digits.induct) auto

lemma digits_in_base: "0 < b \<Longrightarrow> in_base b (digits b k n)"
  by (induction b k n rule: digits.induct) auto

lemma of_digits_digits:
  "0 < b \<Longrightarrow> 0 \<le> n \<Longrightarrow> n < b ^ k \<Longrightarrow> of_digits b (digits b k n) = n"
proof (induction b k n rule: digits.induct)
  case (2 b k n)
  have "n div b < b ^ k"
  proof (rule ccontr)
    assume "\<not> n div b < b ^ k"
    then have "b ^ k * b \<le> n div b * b" using "2.prems" by (intro mult_right_mono) simp_all
    also have "\<dots> \<le> n" using "2.prems" by (simp add: minus_mod_eq_div_mult [symmetric])
    finally show False using "2.prems" by (simp add: mult.commute)
  qed
  with 2 have "of_digits b (digits b k (n div b)) = n div b"
    by (simp add: pos_imp_zdiv_nonneg_iff)
  then show ?case by simp
qed simp

lemma of_digits_bounds:
  "0 < b \<Longrightarrow> in_base b ds \<Longrightarrow> 0 \<le> of_digits b ds \<and> of_digits b ds < b ^ length ds"
proof (induction ds rule: rev_induct)
  case (snoc d ds)
  then have "of_digits b ds + 1 \<le> b ^ length ds" by simp
  then have "(of_digits b ds + 1) * b \<le> b ^ length ds * b"
    using snoc.prems by (intro mult_right_mono) simp_all
  with snoc show ?case by (auto simp: algebra_simps)
qed simp

lemma digits_of_digits:
  "0 < b \<Longrightarrow> in_base b ds \<Longrightarrow> digits b (length ds) (of_digits b ds) = ds"
proof (induction ds rule: rev_induct)
  case (snoc d ds)
  then show ?case by simp
qed simp

lemma of_digits_zeros [simp]: "of_digits b (replicate k 0 @ ds) = of_digits b ds"
  by (induction k) (simp_all add: of_digits_Cons)

lemma ndigits_upper: "1 < b \<Longrightarrow> n < b ^ ndigits b n"
proof (induction b n rule: ndigits.induct)
  case (1 b n)
  show ?case
  proof (cases "n < b")
    case True
    then show ?thesis by (simp add: ndigits.simps [of b n])
  next
    case False
    with 1 have "n div b < b ^ ndigits b (n div b)" by simp
    then have "n < b ^ ndigits b (n div b) * b"
      using 1(2) by (simp add: div_less_iff_less_mult)
    with False 1(2) show ?thesis by (simp add: ndigits.simps [of b n] mult.commute)
  qed
qed

lemma ndigits_pos: "0 < ndigits b n"
  by (subst ndigits.simps) simp

lemma ndigits_le: "1 < b \<Longrightarrow> 0 < k \<Longrightarrow> n < b ^ k \<Longrightarrow> ndigits b n \<le> k"
proof (induction b n arbitrary: k rule: ndigits.induct)
  case (1 b n)
  show ?case
  proof (cases "n < b")
    case True
    with 1 show ?thesis by (simp add: ndigits.simps [of b n])
  next
    case False
    then obtain j where k: "k = Suc j" and j: "0 < j"
      using "1.prems" by (cases k; cases "k - 1") auto
    have "n div b < b ^ j"
      using "1.prems" k by (simp add: div_less_iff_less_mult mult.commute)
    with 1 False j have "ndigits b (n div b) \<le> j" by simp
    with False "1.prems" k show ?thesis by (simp add: ndigits.simps [of b n])
  qed
qed

section \<open>Bytes\<close>

definition byte_val :: "byte \<Rightarrow> int" where
  "byte_val x = uint x"

lemma byte_val_range: "0 \<le> byte_val x" "byte_val x < 256"
  using uint_bounded [of x] by (simp_all add: byte_val_def)

lemma byte_vals_in_base: "in_base 256 (map byte_val bs)"
  by (auto simp: in_base_def byte_val_range)

lemma word_of_byte_val [simp]: "word_of_int (byte_val x) = x"
  by (simp add: byte_val_def)

lemma byte_val_word: "0 \<le> n \<Longrightarrow> n < 256 \<Longrightarrow> byte_val (word_of_int n) = n"
  by (simp add: byte_val_def uint_word_of_int)

text \<open>\<^verbatim>\<open>int.from_bytes(bs, "big")\<close> and \<^verbatim>\<open>n.to_bytes(k, "big")\<close>.\<close>

definition from_bytes_big :: "byte list \<Rightarrow> int" where
  "from_bytes_big bs = of_digits 256 (map byte_val bs)"

definition be_bytes :: "nat \<Rightarrow> int \<Rightarrow> byte list" where
  "be_bytes k n = map word_of_int (digits 256 k n)"

definition to_bytes_big :: "nat \<Rightarrow> int \<Rightarrow> exn + byte list" where
  "to_bytes_big k n = (if 0 \<le> n \<and> n < 256 ^ k then Inr (be_bytes k n) else Inl OverflowError)"

definition to_bytes_little :: "nat \<Rightarrow> int \<Rightarrow> exn + byte list" where
  "to_bytes_little k n = (case to_bytes_big k n of Inl e \<Rightarrow> Inl e | Inr bs \<Rightarrow> Inr (rev bs))"

text \<open>\<^verbatim>\<open>bytes(xs)\<close> of a list of integers.\<close>

definition bytes_of_ints :: "int list \<Rightarrow> exn + byte list" where
  "bytes_of_ints xs =
     (if \<forall>x \<in> set xs. 0 \<le> x \<and> x < 256 then Inr (map word_of_int xs)
      else Inl (ValueError ''bytes must be in range(0, 256)''))"

lemma length_be_bytes [simp]: "length (be_bytes k n) = k"
  by (simp add: be_bytes_def)

lemma byte_vals_be_bytes: "map byte_val (be_bytes k n) = digits 256 k n"
proof -
  have "in_base 256 (digits 256 k n)" by (rule digits_in_base) simp
  then show ?thesis
    by (auto simp: be_bytes_def in_base_def byte_val_word intro!: map_idI)
qed

lemma from_bytes_be_bytes: "0 \<le> n \<Longrightarrow> n < 256 ^ k \<Longrightarrow> from_bytes_big (be_bytes k n) = n"
  by (simp add: from_bytes_big_def byte_vals_be_bytes of_digits_digits)

lemma be_bytes_from_bytes: "be_bytes (length bs) (from_bytes_big bs) = bs"
proof -
  have "digits 256 (length (map byte_val bs)) (of_digits 256 (map byte_val bs)) = map byte_val bs"
    by (rule digits_of_digits) (simp_all add: byte_vals_in_base)
  then show ?thesis by (simp add: be_bytes_def from_bytes_big_def comp_def)
qed

lemma from_bytes_bounds: "0 \<le> from_bytes_big bs" "from_bytes_big bs < 256 ^ length bs"
  using of_digits_bounds [of 256 "map byte_val bs"]
  by (simp_all add: from_bytes_big_def byte_vals_in_base)

lemma from_bytes_append:
  "from_bytes_big (bs @ cs) = from_bytes_big bs * 256 ^ length cs + from_bytes_big cs"
  by (simp add: from_bytes_big_def of_digits_append)

lemma bytes_of_byte_vals [simp]: "bytes_of_ints (map byte_val bs) = Inr bs"
  by (simp add: bytes_of_ints_def byte_val_range comp_def)

lemma bytes_of_ints_vals: "bytes_of_ints xs = Inr bs \<Longrightarrow> map byte_val bs = xs"
  by (auto simp: bytes_of_ints_def byte_val_word intro!: map_idI split: if_splits)

end
