(* ===== verification/PyHex.thy ===== *)
theory PyHex
  imports PyBytes
begin

text \<open>
  Hexadecimal text: digits, \<^verbatim>\<open>hex(n)\<close>, \<^verbatim>\<open>f"{n:0wx}"\<close>, \<^verbatim>\<open>int(s, 16)\<close>,
  \<^verbatim>\<open>bs.hex()\<close>, \<^verbatim>\<open>bytes.fromhex(s)\<close> and the fixed-width pieces of \<^verbatim>\<open>textwrap.wrap\<close>, each
  with the law that ties the printing to the parsing.
\<close>

section \<open>Digits\<close>

definition hex_chars :: string where
  "hex_chars = ''0123456789abcdef''"

definition hexdigit :: "int \<Rightarrow> char" where
  "hexdigit d = hex_chars ! nat d"

definition hexval :: "char \<Rightarrow> int option" where
  "hexval = map_of (zip hex_chars (map int [0..<16]) @ zip ''ABCDEF'' (map int [10..<16]))"

definition is_space :: "char \<Rightarrow> bool" where
  "is_space c \<longleftrightarrow> c \<in> {CHR '' '', CHR 0x09, CHR 0x0A, CHR 0x0B, CHR 0x0C, CHR 0x0D}"

lemma hexdigit_table:
  "list_all (\<lambda>d. hexval (hexdigit d) = Some d \<and> \<not> is_space (hexdigit d) \<and>
     hexdigit d \<noteq> CHR ''_'' \<and> hexdigit d \<notin> {CHR ''x'', CHR ''X'', CHR ''-'', CHR ''+''})
     [0,1,2,3,4,5,6,7,8,9,10,11,12,13,14,15]"
  by code_simp

lemma hexdigit_cases:
  assumes "0 \<le> d" and "d < 16"
  shows "hexval (hexdigit d) = Some d \<and> \<not> is_space (hexdigit d) \<and> hexdigit d \<noteq> CHR ''_'' \<and>
    hexdigit d \<notin> {CHR ''x'', CHR ''X'', CHR ''-'', CHR ''+''}"
proof -
  have "d \<in> {0..15}" using assms by simp
  also have "{0..15::int} = set [0,1,2,3,4,5,6,7,8,9,10,11,12,13,14,15]"
    unfolding set_upto [symmetric] by (simp add: upto.simps)
  finally show ?thesis using hexdigit_table unfolding list_all_iff by (rule bspec [rotated])
qed

lemmas hexval_hexdigit = hexdigit_cases [THEN conjunct1]

section \<open>Printing\<close>

definition hex_digits :: "nat \<Rightarrow> int \<Rightarrow> string" where
  "hex_digits k n = map hexdigit (digits 16 k n)"

definition py_hex :: "int \<Rightarrow> string" where
  "py_hex n =
     (if n < 0 then ''-'' else '''') @ ''0x'' @ hex_digits (ndigits 16 (nat \<bar>n\<bar>)) \<bar>n\<bar>"

definition fmt_hex :: "nat \<Rightarrow> int \<Rightarrow> string" where
  "fmt_hex w n =
     (let sign = (if n < 0 then ''-'' else ''''); ds = hex_digits (ndigits 16 (nat \<bar>n\<bar>)) \<bar>n\<bar>
      in sign @ replicate (w - length sign - length ds) (CHR ''0'') @ ds)"

definition bytes_hex :: "byte list \<Rightarrow> string" where
  "bytes_hex bs = concat (map (\<lambda>b. hex_digits 2 (byte_val b)) bs)"

section \<open>Parsing\<close>

text \<open>
  \<open>hex_tail a us s\<close> reads digits with single underscores between them; \<open>us\<close> says that an
  underscore, or the start of the digits, was just seen.
\<close>

fun hex_tail :: "int \<Rightarrow> bool \<Rightarrow> string \<Rightarrow> int option" where
  "hex_tail a us [] = (if us then None else Some a)"
| "hex_tail a us (c # cs) =
     (if c = CHR ''_'' then (if us then None else hex_tail a True cs)
      else (case hexval c of None \<Rightarrow> None | Some d \<Rightarrow> hex_tail (a * 16 + d) False cs))"

definition py_strip :: "string \<Rightarrow> string" where
  "py_strip s = rev (dropWhile is_space (rev (dropWhile is_space s)))"

definition split_sign :: "string \<Rightarrow> int \<times> string" where
  "split_sign s =
     (case s of [] \<Rightarrow> (1, [])
      | c # r \<Rightarrow> if c = CHR ''-'' then (-1, r) else if c = CHR ''+'' then (1, r) else (1, s))"

definition drop_prefix :: "string \<Rightarrow> string" where
  "drop_prefix s =
     (if 2 \<le> length s \<and> s ! 0 = CHR ''0'' \<and> s ! 1 \<in> {CHR ''x'', CHR ''X''}
      then (case drop 2 s of [] \<Rightarrow> [] | c # r \<Rightarrow> if c = CHR ''_'' then r else c # r)
      else s)"

definition int16 :: "string \<Rightarrow> exn + int" where
  "int16 s =
     (let (sg, u) = split_sign (py_strip s)
      in case hex_tail 0 True (drop_prefix u) of
           None \<Rightarrow> Inl (ValueError ''invalid literal for int() with base 16'')
         | Some n \<Rightarrow> Inr (sg * n))"

fun fromhex :: "string \<Rightarrow> exn + byte list" where
  "fromhex [] = Inr []"
| "fromhex (c # cs) =
     (if is_space c then fromhex cs
      else case cs of
        [] \<Rightarrow> Inl (ValueError ''non-hexadecimal number found in fromhex() arg'')
      | d # ds \<Rightarrow>
          (case (hexval c, hexval d) of
             (Some h, Some l) \<Rightarrow> bind_sum (fromhex ds) (\<lambda>bs. Inr (word_of_int (h * 16 + l) # bs))
           | _ \<Rightarrow> Inl (ValueError ''non-hexadecimal number found in fromhex() arg'')))"

section \<open>Laws\<close>

lemma length_hex_digits [simp]: "length (hex_digits k n) = k"
  by (simp add: hex_digits_def)

lemma length_bytes_hex [simp]: "length (bytes_hex bs) = 2 * length bs"
  by (induction bs) (simp_all add: bytes_hex_def)

lemma bytes_hex_simps [simp]:
  "bytes_hex [] = []" "bytes_hex (b # bs) = hex_digits 2 (byte_val b) @ bytes_hex bs"
  by (simp_all add: bytes_hex_def)

lemma hex_digits_all:
  "\<forall>c \<in> set (hex_digits k n). hexval c \<noteq> None \<and> \<not> is_space c \<and> c \<noteq> CHR ''_'' \<and>
     c \<notin> {CHR ''x'', CHR ''X'', CHR ''-'', CHR ''+''}"
proof -
  have "in_base 16 (digits 16 k n)" by (rule digits_in_base) simp
  then show ?thesis
    using hexdigit_cases by (fastforce simp: hex_digits_def in_base_def)
qed

lemma hex_tail_digits:
  "in_base 16 ds \<Longrightarrow> ds \<noteq> [] \<Longrightarrow>
     hex_tail a us (map hexdigit ds) = Some (a * 16 ^ length ds + of_digits 16 ds)"
proof (induction ds arbitrary: a us)
  case (Cons d ds)
  then have d: "hexval (hexdigit d) = Some d" "hexdigit d \<noteq> CHR ''_''"
    using hexdigit_cases [of d] by auto
  show ?case
  proof (cases ds)
    case Nil
    with d show ?thesis by (simp add: of_digits_Cons)
  next
    case (Cons e es)
    with Cons.IH Cons.prems
    have "hex_tail (a * 16 + d) False (map hexdigit ds) =
        Some ((a * 16 + d) * 16 ^ length ds + of_digits 16 ds)" by simp
    with d show ?thesis by (simp add: of_digits_Cons algebra_simps)
  qed
qed simp

lemma hex_tail_hex_digits:
  assumes "0 \<le> n" and "n < 16 ^ k" and "0 < k"
  shows "hex_tail 0 us (hex_digits k n) = Some n"
proof -
  have "digits 16 k n \<noteq> []" using assms(3) length_digits [of 16 k n] by force
  then show ?thesis
    using assms by (simp add: hex_digits_def hex_tail_digits digits_in_base of_digits_digits)
qed

lemma py_strip_id: "\<forall>c \<in> set s. \<not> is_space c \<Longrightarrow> py_strip s = s"
proof -
  have *: "\<forall>c \<in> set t. \<not> is_space c \<Longrightarrow> dropWhile is_space t = t" for t
    by (cases t) auto
  assume "\<forall>c \<in> set s. \<not> is_space c"
  then show ?thesis by (simp add: py_strip_def *)
qed

lemma split_sign_digits:
  assumes "\<forall>c \<in> set s. c \<notin> {CHR ''-'', CHR ''+''}"
  shows "split_sign s = (1, s)"
  using assms by (cases s) (auto simp: split_sign_def)

lemma int16_prefixed:
  assumes "0 \<le> n" and "n < 16 ^ k" and "0 < k"
  shows "int16 (''0x'' @ hex_digits k n) = Inr n"
    and "int16 (''-0x'' @ hex_digits k n) = Inr (- n)"
proof -
  let ?h = "hex_digits k n"
  have h: "?h \<noteq> []" using assms(3) length_hex_digits [of k n] by force
  have nospace: "\<forall>c \<in> set ?h. \<not> is_space c" using hex_digits_all by blast
  obtain c r where cr: "?h = c # r" using h by (cases ?h) auto
  have "c \<noteq> CHR ''_''" using hex_digits_all [of k n] cr by auto
  then have p: "drop_prefix (''0x'' @ ?h) = ?h" by (simp add: drop_prefix_def cr)
  have "py_strip (''0x'' @ ?h) = ''0x'' @ ?h"
    by (rule py_strip_id) (use nospace in \<open>auto simp: is_space_def\<close>)
  then show "int16 (''0x'' @ ?h) = Inr n"
    using p hex_tail_hex_digits [OF assms] by (simp add: int16_def split_sign_def)
  have "py_strip (''-0x'' @ ?h) = ''-0x'' @ ?h"
    by (rule py_strip_id) (use nospace in \<open>auto simp: is_space_def\<close>)
  then show "int16 (''-0x'' @ ?h) = Inr (- n)"
    using p hex_tail_hex_digits [OF assms] by (simp add: int16_def split_sign_def)
qed

lemma int16_plain:
  assumes "0 \<le> n" and "n < 16 ^ k" and "0 < k"
  shows "int16 (hex_digits k n) = Inr n"
proof -
  let ?h = "hex_digits k n"
  note all = hex_digits_all [of k n]
  have "drop_prefix ?h = ?h"
  proof -
    have "2 \<le> length ?h \<Longrightarrow> ?h ! 1 \<in> set ?h" by (rule nth_mem) simp
    then have "2 \<le> length ?h \<Longrightarrow> ?h ! 1 \<notin> {CHR ''x'', CHR ''X''}" using all by blast
    then show ?thesis unfolding drop_prefix_def by argo
  qed
  moreover have "py_strip ?h = ?h" using all by (intro py_strip_id) blast
  moreover have "split_sign ?h = (1, ?h)" using all by (intro split_sign_digits) blast
  ultimately show ?thesis using hex_tail_hex_digits [OF assms] by (simp add: int16_def)
qed

text \<open>\<^verbatim>\<open>int(hex(n), 16) == n\<close>, whatever the sign.\<close>

lemma int16_py_hex: "int16 (py_hex n) = Inr n"
proof -
  have "nat \<bar>n\<bar> < 16 ^ ndigits 16 (nat \<bar>n\<bar>)" by (rule ndigits_upper) simp
  then have "int (nat \<bar>n\<bar>) < int (16 ^ ndigits 16 (nat \<bar>n\<bar>))" by (simp only: of_nat_less_iff)
  then have b: "\<bar>n\<bar> < 16 ^ ndigits 16 (nat \<bar>n\<bar>)" by simp
  note R = int16_prefixed [OF abs_ge_zero b ndigits_pos]
  show ?thesis
  proof (cases "n < 0")
    case True
    with R(2) show ?thesis by (simp add: py_hex_def)
  next
    case False
    with R(1) show ?thesis by (simp add: py_hex_def)
  qed
qed

lemma digits_pad: "0 \<le> n \<Longrightarrow> n < 16 ^ k \<Longrightarrow> digits 16 (j + k) n = replicate j 0 @ digits 16 k n"
proof -
  assume n: "0 \<le> n" "n < 16 ^ k"
  let ?ds = "replicate j 0 @ digits 16 k n"
  have "in_base 16 ?ds" by (auto simp: in_base_def dest: digits_in_base [of 16 k n, unfolded in_base_def, rule_format, rotated])
  then have "digits 16 (length ?ds) (of_digits 16 ?ds) = ?ds" by (intro digits_of_digits) simp_all
  then show ?thesis using n by (simp add: of_digits_digits)
qed

lemma fmt_hex_fits:
  assumes "0 \<le> n" and "n < 16 ^ w" and "0 < w"
  shows "fmt_hex w n = hex_digits w n"
proof -
  let ?k = "ndigits 16 (nat n)"
  have "int (nat n) < int (16 ^ w)" using assms by simp
  then have "nat n < 16 ^ w" by (simp only: of_nat_less_iff)
  then have k: "?k \<le> w" using assms(3) by (intro ndigits_le) simp_all
  have "nat n < 16 ^ ?k" by (rule ndigits_upper) simp
  then have "int (nat n) < int (16 ^ ?k)" by (simp only: of_nat_less_iff)
  then have n: "n < 16 ^ ?k" using assms(1) by simp
  have zero: "hexdigit 0 = CHR ''0''" by (simp add: hexdigit_def hex_chars_def)
  show ?thesis
    using digits_pad [OF assms(1) n, of "w - ?k"] k assms(1)
    by (simp add: fmt_hex_def hex_digits_def zero)
qed

lemma fromhex_two:
  assumes "0 \<le> n" and "n < 256"
  shows "fromhex (hex_digits 2 n @ s) = bind_sum (fromhex s) (\<lambda>bs. Inr (word_of_int n # bs))"
proof -
  have "0 \<le> n div 16" "n div 16 < 16" using assms by auto
  note h = hexdigit_cases [OF this]
  have "0 \<le> n mod 16" "n mod 16 < 16" by auto
  note l = hexdigit_cases [OF this]
  have n: "hex_digits 2 n = [hexdigit (n div 16), hexdigit (n mod 16)]"
    using \<open>n div 16 < 16\<close> \<open>0 \<le> n div 16\<close> by (simp add: hex_digits_def numeral_2_eq_2)
  show ?thesis using h l by (simp add: n)
qed

lemma fromhex_bytes_hex_append:
  "fromhex (bytes_hex bs @ s) = bind_sum (fromhex s) (\<lambda>cs. Inr (bs @ cs))"
proof (induction bs)
  case Nil
  then show ?case by (cases "fromhex s") simp_all
next
  case (Cons b bs)
  then show ?case
    by (cases "fromhex s") (simp_all add: fromhex_two byte_val_range)
qed

lemma fromhex_bytes_hex [simp]: "fromhex (bytes_hex bs) = Inr bs"
  using fromhex_bytes_hex_append [of bs "[]"] by simp

lemma hex_digits_add:
  "hex_digits (j + k) (a * 16 ^ k + b) = hex_digits j a @ hex_digits k b"
  if "0 \<le> b" and "b < 16 ^ k"
  using that
proof (induction k arbitrary: b)
  case 0
  then have "b = 0" by simp
  then show ?case by (simp add: hex_digits_def)
next
  case (Suc k)
  have "b div 16 < 16 ^ k" using Suc.prems by simp
  moreover have "0 \<le> b div 16" using Suc.prems by simp
  ultimately have "hex_digits (j + k) (a * 16 ^ k + b div 16) = hex_digits j a @ hex_digits k (b div 16)"
    by (intro Suc.IH)
  moreover have e: "a * 16 ^ Suc k + b = b + (a * 16 ^ k) * 16" by simp
  have "(a * 16 ^ Suc k + b) div 16 = a * 16 ^ k + b div 16"
    and "(a * 16 ^ Suc k + b) mod 16 = b mod 16"
    unfolding e by (simp_all only: div_mult_self1 mod_mult_self1)
  ultimately show ?case by (simp add: hex_digits_def)
qed

text \<open>The hexadecimal text of a bytes object is the text of the number it spells.\<close>

lemma bytes_hex_number: "bytes_hex bs = hex_digits (2 * length bs) (from_bytes_big bs)"
proof (induction bs)
  case Nil
  then show ?case by (simp add: from_bytes_big_def hex_digits_def)
next
  case (Cons b bs)
  have e: "(256::int) ^ length bs = 16 ^ (2 * length bs)" by (simp add: power_mult)
  have f: "from_bytes_big (b # bs) = byte_val b * 16 ^ (2 * length bs) + from_bytes_big bs"
    using from_bytes_append [of "[b]" bs] by (simp add: e from_bytes_big_def of_digits_def)
  have "hex_digits (2 + 2 * length bs) (byte_val b * 16 ^ (2 * length bs) + from_bytes_big bs) =
      hex_digits 2 (byte_val b) @ hex_digits (2 * length bs) (from_bytes_big bs)"
    by (rule hex_digits_add) (use from_bytes_bounds [of bs] in \<open>simp_all add: e\<close>)
  then show ?case by (simp add: f Cons.IH)
qed

lemma int16_bytes_hex: "bs \<noteq> [] \<Longrightarrow> int16 (bytes_hex bs) = Inr (from_bytes_big bs)"
  using from_bytes_bounds [of bs]
  by (simp add: bytes_hex_number int16_plain power_mult)

section \<open>Fixed-width pieces\<close>

text \<open>\<^verbatim>\<open>textwrap.wrap(s, k)\<close> of a text without blanks or hyphens.\<close>

fun chunks :: "nat \<Rightarrow> 'a list \<Rightarrow> 'a list list" where
  "chunks k xs = (if xs = [] \<or> k = 0 then [] else take k xs # chunks k (drop k xs))"

declare chunks.simps [simp del]

lemma chunks_Nil [simp]: "chunks k [] = []"
  by (simp add: chunks.simps)

lemma concat_chunks: "0 < k \<Longrightarrow> concat (chunks k xs) = xs"
proof (induction k xs rule: chunks.induct)
  case (1 k xs)
  then show ?case by (cases "xs = []") (simp_all add: chunks.simps [of k xs])
qed

lemma chunks_length: "c \<in> set (chunks k xs) \<Longrightarrow> 0 < length c \<and> length c \<le> k"
proof (induction k xs rule: chunks.induct)
  case (1 k xs)
  show ?case
  proof (cases "xs = [] \<or> k = 0")
    case True
    with "1.prems" show ?thesis by (simp add: chunks.simps [of k xs])
  next
    case False
    with 1 show ?thesis by (auto simp: chunks.simps [of k xs])
  qed
qed

lemma chunks_append: "length xs = k \<Longrightarrow> 0 < k \<Longrightarrow> chunks k (xs @ ys) = xs # chunks k ys"
  by (subst chunks.simps) auto

lemma chunks_bytes_hex: "0 < k \<Longrightarrow> chunks (2 * k) (bytes_hex bs) = map bytes_hex (chunks k bs)"
proof (induction k bs rule: chunks.induct)
  case (1 k bs)
  have app: "bytes_hex (xs @ ys) = bytes_hex xs @ bytes_hex ys" for xs ys
    by (simp add: bytes_hex_def)
  show ?case
  proof (cases "bs = []")
    case False
    have split: "bytes_hex bs = bytes_hex (take k bs) @ bytes_hex (drop k bs)"
      using app [of "take k bs" "drop k bs"] by simp
    have "bytes_hex bs \<noteq> []"
      using False length_bytes_hex [of bs] by force
    moreover have "take (2 * k) (bytes_hex bs) = bytes_hex (take k bs)"
      and "drop (2 * k) (bytes_hex bs) = bytes_hex (drop k bs)"
      by (simp_all add: split) (cases "length bs \<le> k"; simp)+
    ultimately show ?thesis
      using False 1 by (simp add: chunks.simps [of k bs] chunks.simps [of "2 * k" "bytes_hex bs"])
  qed simp
qed

interpretation hex_text: codec py_hex int16 "\<lambda>_. True"
  by unfold_locales (rule int16_py_hex)

interpretation hex_bytes: codec bytes_hex fromhex "\<lambda>_. True"
  by unfold_locales (rule fromhex_bytes_hex)

end
