(* ===== verification/Uint256.thy ===== *)
theory Uint256
  imports PyHex
begin

text \<open>
  \<^verbatim>\<open>kakarot_scripts/utils/uint256.py\<close>: the pair of 128-bit halves by which Cairo passes a
  256-bit integer.  Python integers are unbounded, so the functions are total on every integer;
  \<^verbatim>\<open>get_storage_var_address\<close> belongs to the starkware package and is a parameter.
\<close>

unbundle bit_operations_syntax

definition int_to_uint256 :: "int \<Rightarrow> int \<times> int" where
  "int_to_uint256 value =
     (let low = value AND (push_bit 128 1 - 1); high = drop_bit 128 value in (low, high))"

definition uint256_to_int :: "int \<Rightarrow> int \<Rightarrow> int" where
  "uint256_to_int low high = low + high * 2 ^ 128"

definition hex_string_to_uint256 :: "string \<Rightarrow> exn + int \<times> int" where
  "hex_string_to_uint256 h =
     (if length h mod 2 \<noteq> 0 then Inl (ValueError ''Provided string has an odd length'')
      else let h = (if take 2 h = ''0x'' then drop 2 h else h)
           in bind_sum (int16 h) (\<lambda>value. Inr (int_to_uint256 value)))"

definition get_uint256_storage_var_keys ::
    "(string \<Rightarrow> int list \<Rightarrow> int) \<Rightarrow> string \<Rightarrow> int list \<Rightarrow> int \<times> int" where
  "get_uint256_storage_var_keys get_storage_var_address var_name args =
     (let low_key = get_storage_var_address var_name args in (low_key, low_key + 1))"

lemma int_to_uint256_mod: "int_to_uint256 v = (v mod 2 ^ 128, v div 2 ^ 128)"
proof -
  have "v AND (push_bit 128 1 - 1) = take_bit 128 v"
    by (simp add: take_bit_eq_mask mask_eq_exp_minus_1 push_bit_of_1)
  then show ?thesis
    by (simp add: int_to_uint256_def take_bit_eq_mod drop_bit_eq_div)
qed

lemma uint256_halves:
  assumes "int_to_uint256 v = (low, high)"
  shows "0 \<le> low" and "low < 2 ^ 128" and "uint256_to_int low high = v"
    and "0 \<le> v \<Longrightarrow> 0 \<le> high" and "v < 2 ^ 256 \<Longrightarrow> high < 2 ^ 128"
  using assms by (auto simp: int_to_uint256_mod uint256_to_int_def)

interpretation uint256: codec int_to_uint256 "\<lambda>(l, h). Inr (uint256_to_int l h)" "\<lambda>_. True"
  by unfold_locales (simp add: int_to_uint256_mod uint256_to_int_def)

lemma int_to_uint256_inverse:
  "0 \<le> low \<Longrightarrow> low < 2 ^ 128 \<Longrightarrow> int_to_uint256 (uint256_to_int low high) = (low, high)"
  by (simp add: int_to_uint256_mod uint256_to_int_def)

end
