(* ===== verification/Helpers.thy ===== *)
theory Helpers
  imports Uint256
begin

text \<open>
  \<^verbatim>\<open>tests/utils/helpers.py\<close>: the encodings the client shares with the Cairo programs.  The
  packed calldata is read back by \<^verbatim>\<open>Helpers.load_packed_bytes\<close> of
  \<^verbatim>\<open>cairo_zero/utils/utils.cairo\<close>, modelled here as well, so that the packing is checked
  against its reader.  \<^verbatim>\<open>keccak\<close>, \<^verbatim>\<open>rlp.encode\<close>, \<^verbatim>\<open>to_checksum_address\<close> and
  \<^verbatim>\<open>get_storage_var_address\<close> come from packages and are parameters.  Texts given to
  \<^verbatim>\<open>textwrap.wrap\<close> hold no blanks and no hyphens.
\<close>

section \<open>Scalars\<close>

definition py_bit_length :: "int \<Rightarrow> nat" where
  "py_bit_length n = (if n = 0 then 0 else ndigits 2 (nat \<bar>n\<bar>))"

definition int_to_bytes :: "int \<Rightarrow> exn + byte list" where
  "int_to_bytes num =
     to_bytes_big (let k = (py_bit_length num + 7) div 8 in if k = 0 then 1 else k) num"

text \<open>\<^verbatim>\<open>int(v)\<close> in base ten, for a text without blanks around it.\<close>

fun dec_tail :: "int \<Rightarrow> bool \<Rightarrow> string \<Rightarrow> int option" where
  "dec_tail a us [] = (if us then None else Some a)"
| "dec_tail a us (c # cs) =
     (if c = CHR ''_'' then (if us then None else dec_tail a True cs)
      else (case hexval c of
              Some d \<Rightarrow> if d < 10 then dec_tail (a * 10 + d) False cs else None
            | None \<Rightarrow> None))"

definition int10 :: "string \<Rightarrow> exn + int" where
  "int10 s =
     (let (sg, u) = split_sign (py_strip s)
      in case dec_tail 0 True u of
           None \<Rightarrow> Inl (ValueError ''invalid literal for int() with base 10'')
         | Some n \<Rightarrow> Inr (sg * n))"

datatype int_or_str = AnInt int | AStr string

fun to_int :: "int_or_str \<Rightarrow> exn + int" where
  "to_int (AStr v) = (if take 2 v = ''0x'' then int16 v else int10 v)"
| "to_int (AnInt v) = Inr v"

datatype byteslike = BStr string | BBytes "byte list" | BInts "int list"

text \<open>\<^verbatim>\<open>v.encode()\<close> of an ASCII text is its characters as bytes.\<close>

definition encode_ascii :: "string \<Rightarrow> byte list" where
  "encode_ascii s = map (\<lambda>c. word_of_int (int (of_char c))) s"

fun to_bytes :: "byteslike \<Rightarrow> exn + byte list" where
  "to_bytes (BBytes v) = Inr v"
| "to_bytes (BStr v) = (if take 2 v = ''0x'' then fromhex (drop 2 v) else Inr (encode_ascii v))"
| "to_bytes (BInts v) = bytes_of_ints v"

definition felt_to_signed_int :: "int \<Rightarrow> int \<Rightarrow> int" where
  "felt_to_signed_int DEFAULT_PRIME value =
     (if DEFAULT_PRIME div 2 \<le> value then value - DEFAULT_PRIME else value)"

definition expand_to_18_decimals :: "int \<Rightarrow> int" where
  "expand_to_18_decimals n = n * 10 ^ 18"

definition encode_price :: "int \<Rightarrow> int \<Rightarrow> exn + int list" where
  "encode_price reserve_0 reserve_1 =
     (if reserve_0 = 0 \<or> reserve_1 = 0 then Inl ZeroDivisionError
      else Inr [reserve_1 * 2 ^ 112 div reserve_0, reserve_0 * 2 ^ 112 div reserve_1])"

definition pack_64_bits_little :: "int list \<Rightarrow> int" where
  "pack_64_bits_little input = sum_list (map (\<lambda>(i, x). x * 256 ^ i) (enumerate 0 input))"

section \<open>Byte sequences\<close>

definition hex_string_to_bytes_array :: "string \<Rightarrow> exn + int list" where
  "hex_string_to_bytes_array h =
     (if length h mod 2 \<noteq> 0 then Inl (ValueError ''Provided string has an odd length'')
      else let h = (if take 2 h = ''0x'' then drop 2 h else h)
           in map_sum_list int16 (chunks 2 h))"

definition pack_calldata :: "byte list \<Rightarrow> exn + int list" where
  "pack_calldata data =
     bind_sum (map_sum_list int16 (chunks (2 * 31) (bytes_hex data)))
       (\<lambda>words. Inr (int (length data) # words))"

text \<open>Assignment to a slice, \<^verbatim>\<open>xs[i:j] = ys\<close>.\<close>

definition slice_index :: "nat \<Rightarrow> int \<Rightarrow> nat" where
  "slice_index n i = (if i < 0 then nat (max 0 (int n + i)) else min n (nat i))"

definition slice_assign :: "'a list \<Rightarrow> int \<Rightarrow> int \<Rightarrow> 'a list \<Rightarrow> 'a list" where
  "slice_assign xs i j ys =
     (let a = slice_index (length xs) i; b = max a (slice_index (length xs) j)
      in take a xs @ ys @ drop b xs)"

text \<open>
  \<^verbatim>\<open>extract_memory_from_execute\<close>: the dictionary accesses come as triples of word index,
  previous value and final value.
\<close>

fun memory_fill :: "int list \<Rightarrow> int list \<Rightarrow> exn + int list" where
  "memory_fill mem (k # prev # v # rest) =
     bind_sum (fromhex (fmt_hex 32 v))
       (\<lambda>bs. memory_fill (slice_assign mem (k * 16) (k * 16 + 16) (map byte_val bs)) rest)"
| "memory_fill mem [] = Inr mem"
| "memory_fill mem _ = Inl IndexError"

definition extract_memory_from_execute :: "int \<Rightarrow> int list \<Rightarrow> exn + int list" where
  "extract_memory_from_execute memory_words_len memory_accesses =
     memory_fill (replicate (nat (memory_words_len * 32)) 0) memory_accesses"

section \<open>Nested lists and access lists\<close>

text \<open>An item is a list, another iterable, or something that cannot be iterated.\<close>

datatype 'a item = PyList "'a item list" | PyIter "'a list" | PyScalar 'a

fun flatten :: "'a item \<Rightarrow> exn + 'a list" where
  "flatten (PyList items) = bind_sum (map_sum_list flatten items) (\<lambda>rs. Inr (concat rs))"
| "flatten (PyIter xs) = Inr xs"
| "flatten (PyScalar x) = Inl TypeError"

record access =
  acc_address :: string
  acc_storageKeys :: "string list"

definition flatten_access_item :: "access \<Rightarrow> exn + int list" where
  "flatten_access_item item =
     bind_sum (int16 (acc_address item)) (\<lambda>a.
     bind_sum (map_sum_list (\<lambda>key. bind_sum (int16 key) (\<lambda>k. let (l, h) = int_to_uint256 k in Inr [l, h]))
                 (acc_storageKeys item)) (\<lambda>ks.
     Inr (a # int (length (acc_storageKeys item)) # concat ks)))"

definition flatten_tx_access_list :: "access list \<Rightarrow> exn + int list" where
  "flatten_tx_access_list access_list =
     bind_sum (map_sum_list flatten_access_item access_list) (\<lambda>rs. Inr (concat rs))"

definition storage_keys_of :: "(string \<Rightarrow> int list \<Rightarrow> int) \<Rightarrow> string list \<Rightarrow> exn + int list" where
  "storage_keys_of get_storage_var_address ks =
     map_sum_list (\<lambda>key. bind_sum (int16 key) (\<lambda>k. let (l, h) = int_to_uint256 k
                     in Inr (get_storage_var_address ''Account_storage'' [l, h]))) ks"

fun merge_access_list ::
    "(string \<Rightarrow> int list \<Rightarrow> int) \<Rightarrow> (string \<Rightarrow> int set) \<Rightarrow> access list \<Rightarrow> exn + (string \<Rightarrow> int set)" where
  "merge_access_list gsva merged [] = Inr merged"
| "merge_access_list gsva merged (a # as) =
     bind_sum (storage_keys_of gsva (acc_storageKeys a)) (\<lambda>ks.
       merge_access_list gsva
         (merged(acc_address a := merged (acc_address a) \<union> set ks)) as)"

section \<open>The reader of the packed calldata\<close>

text \<open>
  \<^verbatim>\<open>load_packed_bytes\<close> of \<^verbatim>\<open>cairo_zero/utils/utils.cairo\<close>.  The output segment is a
  list that is written at \<open>(index - 1) * 31 + count - 1\<close>, downwards from the end of each word;
  the quotient by 256 in the field is the integer quotient, because the subtracted byte is the
  remainder and a felt is represented by its least non-negative value.  Reading past the input
  segment and a word that is too large for its bytes are errors; \<open>body\<close> and \<open>read\<close> of the
  Cairo code are one function here, which consumes one byte per call.
\<close>

primrec load_body :: "int list \<Rightarrow> nat \<Rightarrow> nat \<Rightarrow> nat \<Rightarrow> nat \<Rightarrow> int \<Rightarrow> nat \<Rightarrow> byte list \<Rightarrow> exn + byte list" where
  "load_body input chunk_counts remainder 0 index value count out =
     Inl (OtherException ''load_packed_bytes: no byte left to read'')"
| "load_body input chunk_counts remainder (Suc remaining_bytes) index value count out =
     (if count = 0 then Inl (OtherException ''load_packed_bytes: empty chunk'')
      else
        let offset = (index - 1) * 31 + count - 1;
            out = out[offset := word_of_int (value mod 256)];
            value = value div 256;
            count = count - 1
        in if remaining_bytes = 0
           then (if value = 0 then Inr out else Inl (OtherException ''Value is not empty''))
           else if count \<noteq> 0
           then load_body input chunk_counts remainder remaining_bytes index value count out
           else if value \<noteq> 0 then Inl (OtherException ''Value is not empty'')
           else if index < length input
           then load_body input chunk_counts remainder remaining_bytes (index + 1) (input ! index)
                  (if chunk_counts - index \<noteq> 0 then 31 else remainder) out
           else Inl (OtherException ''unknown memory cell''))"

definition load_packed_bytes :: "int list \<Rightarrow> nat \<Rightarrow> exn + byte list" where
  "load_packed_bytes input bytes_len =
     (if bytes_len = 0 then Inr []
      else let chunk_counts = bytes_len div 31; remainder = bytes_len mod 31
           in if 0 < length input
              then load_body input chunk_counts remainder bytes_len 1 (input ! 0)
                     (if chunk_counts \<noteq> 0 then 31 else remainder) (replicate bytes_len 0)
              else Inl (OtherException ''unknown memory cell''))"

section \<open>Lemmas\<close>

lemma from_bytes_snoc: "from_bytes_big (bs @ [b]) = from_bytes_big bs * 256 + byte_val b"
  using from_bytes_append [of bs "[b]"] by (simp add: from_bytes_big_def of_digits_def)

lemma from_bytes_Nil [simp]: "from_bytes_big [] = 0"
  by (simp add: from_bytes_big_def)

lemma from_bytes_snoc_div_mod:
  "from_bytes_big (bs @ [b]) div 256 = from_bytes_big bs"
  "word_of_int (from_bytes_big (bs @ [b]) mod 256) = b"
  using byte_val_range [of b] by (simp_all add: from_bytes_snoc)

lemma list_update_between:
  "length xs = n \<Longrightarrow> (xs @ y # ys)[n := z] = xs @ z # ys"
  by (simp add: list_update_append)

text \<open>One packed word is unpacked to exactly its bytes, at their place.\<close>

lemma load_body_chunk:
  assumes "length zs = length c" and "c \<noteq> []" and "length written = (index - 1) * 31"
  shows "load_body input cc rm (length c + r) index (from_bytes_big c) (length c)
           (written @ zs @ rest) =
    (if r = 0 then Inr (written @ c @ rest)
     else if index < length input
     then load_body input cc rm r (index + 1) (input ! index) (if cc - index \<noteq> 0 then 31 else rm)
            (written @ c @ rest)
     else Inl (OtherException ''unknown memory cell''))"
  using assms
proof (induction c arbitrary: zs rest r rule: rev_induct)
  case (snoc b bs)
  obtain ys y where zs: "zs = ys @ [y]" and ys: "length ys = length bs"
    using snoc.prems(1) by (cases zs rule: rev_cases) auto
  have upd: "(written @ zs @ rest)[(index - 1) * 31 + length (bs @ [b]) - 1 := b] =
      written @ ys @ b # rest"
    using list_update_between [of "written @ ys" "(index - 1) * 31 + length bs" y rest b]
      snoc.prems(3) ys by (simp add: zs)
  have "load_body input cc rm (length (bs @ [b]) + r) index (from_bytes_big (bs @ [b]))
          (length (bs @ [b])) (written @ zs @ rest) =
    (if length bs + r = 0
     then (if from_bytes_big bs = 0 then Inr (written @ ys @ b # rest)
           else Inl (OtherException ''Value is not empty''))
     else if length bs \<noteq> 0
     then load_body input cc rm (length bs + r) index (from_bytes_big bs) (length bs)
            (written @ ys @ b # rest)
     else if from_bytes_big bs \<noteq> 0 then Inl (OtherException ''Value is not empty'')
     else if index < length input
     then load_body input cc rm (length bs + r) (index + 1) (input ! index)
            (if cc - index \<noteq> 0 then 31 else rm) (written @ ys @ b # rest)
     else Inl (OtherException ''unknown memory cell''))"
    using upd from_bytes_snoc_div_mod [of "[]" b]
    by (cases "bs = []") (simp_all add: from_bytes_snoc_div_mod Let_def)
  also have "\<dots> = (if r = 0 then Inr (written @ (bs @ [b]) @ rest)
     else if index < length input
     then load_body input cc rm r (index + 1) (input ! index) (if cc - index \<noteq> 0 then 31 else rm)
            (written @ (bs @ [b]) @ rest)
     else Inl (OtherException ''unknown memory cell''))"
  proof (cases "bs = []")
    case True
    with ys show ?thesis by simp
  next
    case False
    with snoc.IH [where zs = ys and rest = "b # rest" and r = r] ys snoc.prems(3) show ?thesis by simp
  qed
  finally show ?case .
qed simp

lemma pack_calldata_words:
  "pack_calldata data = Inr (int (length data) # map from_bytes_big (chunks 31 data))"
proof -
  have "map_sum_list int16 (map bytes_hex cs) = Inr (map from_bytes_big cs)"
    if "\<forall>c \<in> set cs. c \<noteq> []" for cs
    using that by (induction cs) (simp_all add: int16_bytes_hex)
  moreover have "\<forall>c \<in> set (chunks 31 data). c \<noteq> []"
    using chunks_length by fastforce
  ultimately show ?thesis
    using chunks_bytes_hex [of 31 data] by (simp add: pack_calldata_def)
qed

text \<open>
  The loop over the words: \<open>written\<close> holds the bytes of the words already consumed, \<open>todo\<close>
  those of the current word and of the words after it.
\<close>

lemma word_count:
  assumes "n = i * 31 + length todo" and "todo \<noteq> []"
  shows "(if n div 31 - i \<noteq> 0 then 31 else n mod 31) = length (take 31 todo)"
proof (cases "31 \<le> length todo")
  case True
  then have "i * 31 + 31 \<le> n" using assms(1) by simp
  then have "i < n div 31" by (simp add: less_eq_div_iff_mult_less_eq Suc_le_eq [symmetric])
  with True show ?thesis by simp
next
  case False
  then have "n div 31 = i" "n mod 31 = length todo" using assms(1) by simp_all
  with False show ?thesis by simp
qed

lemma load_body_words:
  assumes "todo \<noteq> []"
    and "length written = (index - 1) * 31" and "0 < index"
    and "drop index input = map from_bytes_big (chunks 31 (drop 31 todo))"
    and "cc = (length written + length todo) div 31"
    and "rm = (length written + length todo) mod 31"
    and "length zs = length todo"
  shows "load_body input cc rm (length todo) index (from_bytes_big (take 31 todo))
           (length (take 31 todo)) (written @ zs) = Inr (written @ todo)"
  using assms
proof (induction "length todo" arbitrary: todo written index zs rule: less_induct)
  case less
  let ?c = "take 31 todo" and ?r = "length todo - 31"
  have len: "length ?c + ?r = length todo" by simp
  have zs: "zs = take (length ?c) zs @ drop (length ?c) zs" by simp
  have lz: "length (take (length ?c) zs) = length ?c" using less.prems(7) by simp
  have step: "load_body input cc rm (length ?c + ?r) index (from_bytes_big ?c) (length ?c)
      (written @ take (length ?c) zs @ drop (length ?c) zs) =
    (if ?r = 0 then Inr (written @ ?c @ drop (length ?c) zs)
     else if index < length input
     then load_body input cc rm ?r (index + 1) (input ! index) (if cc - index \<noteq> 0 then 31 else rm)
            (written @ ?c @ drop (length ?c) zs)
     else Inl (OtherException ''unknown memory cell''))"
    using lz less.prems(1,2) by (intro load_body_chunk) simp_all
  show ?case
  proof (cases "?r = 0")
    case True
    then have "?c = todo" and "drop (length ?c) zs = []" using less.prems(7) by simp_all
    with step zs True show ?thesis by (simp add: len)
  next
    case False
    let ?todo = "drop 31 todo" and ?written = "written @ ?c"
    have c31: "length ?c = 31" and ne: "?todo \<noteq> []" using False by auto
    obtain w ws where ws: "map from_bytes_big (chunks 31 ?todo) = w # ws"
      using ne by (subst (asm) chunks.simps) auto
    have w: "w = from_bytes_big (take 31 ?todo)"
      and tail: "ws = map from_bytes_big (chunks 31 (drop 31 ?todo))"
      using ws ne by (simp_all add: chunks.simps [of 31 ?todo])
    have ix: "index < length input" "input ! index = w" "drop (index + 1) input = ws"
      using less.prems(4) ws
      by (metis drop_all list.distinct(1) not_le,
          metis hd_drop_conv_nth drop_all list.distinct(1) list.sel(1) not_le,
          metis drop_Suc tl_drop list.sel(3) Suc_eq_plus1)
    have lw: "length ?written = (index + 1 - 1) * 31"
      using less.prems(2,3) c31 by (cases index) auto
    have total: "length written + length todo = index * 31 + length ?todo"
      using lw c31 False by simp
    have count: "(if cc - index \<noteq> 0 then 31 else rm) = length (take 31 ?todo)"
      unfolding less.prems(5,6) by (rule word_count [OF total ne])
    have "load_body input cc rm (length ?todo) (index + 1) (from_bytes_big (take 31 ?todo))
        (length (take 31 ?todo)) (?written @ drop (length ?c) zs) = Inr (?written @ ?todo)"
      using less.prems(5-7) lw ne ix(3) tail c31 False total
      by (intro less.hyps) (simp_all add: add.commute)
    with step False ix(1,2) w count c31 zs show ?thesis by (simp add: len)
  qed
qed

lemma pack_load_words:
  "\<exists>words. pack_calldata data = Inr (int (length data) # words) \<and>
     load_packed_bytes words (length data) = Inr data"
proof (cases "data = []")
  case True
  then show ?thesis by (simp add: pack_calldata_words load_packed_bytes_def)
next
  case False
  let ?w = "map from_bytes_big (chunks 31 data)"
  have hd: "?w ! 0 = from_bytes_big (take 31 data)" "0 < length ?w"
    "drop 1 ?w = map from_bytes_big (chunks 31 (drop 31 data))"
    using False by (simp_all add: chunks.simps [of 31 data])
  have count: "(if length data div 31 \<noteq> 0 then 31 else length data mod 31) = length (take 31 data)"
    by (cases "length data < 31") (auto simp: div_eq_0_iff)
  have "load_body ?w (length data div 31) (length data mod 31) (length data) 1
      (from_bytes_big (take 31 data)) (length (take 31 data)) ([] @ replicate (length data) 0) =
    Inr ([] @ data)"
    using False hd(3) by (intro load_body_words) simp_all
  then have "load_packed_bytes ?w (length data) = Inr data"
    using False hd count by (simp add: load_packed_bytes_def Let_def)
  then show ?thesis by (simp add: pack_calldata_words)
qed

text \<open>C9. What the client packs is what the contract unpacks: for every byte string, the words
  that \<open>pack_calldata\<close> puts after the length are read back by \<open>load_packed_bytes\<close> to the same
  bytes, without any error on the way.\<close>

theorem pack_load_roundtrip:
  "\<exists>words. pack_calldata data = Inr (int (length data) # words) \<and>
     load_packed_bytes words (length data) = Inr data"
  by (rule pack_load_words)


lemma length_chunks: "0 < n \<Longrightarrow> length (chunks n xs) = (length xs + n - 1) div n"
proof (induction n xs rule: chunks.induct)
  case (1 n xs)
  show ?case
  proof (cases "xs = []")
    case True
    with 1(2) show ?thesis by (simp add: chunks.simps)
  next
    case False
    with 1 have "length (chunks n xs) = Suc ((length xs - n + n - 1) div n)" by (simp add: chunks.simps [of n xs])
    also have "\<dots> = (length xs + n - 1) div n"
    proof (cases "length xs \<le> n")
      case True
      have "1 \<le> length xs" using False by (cases xs) simp_all
      then have "length xs + n - 1 = (length xs - 1) + n" by linarith
      moreover have "(length xs - 1) div n = 0" using True \<open>1 \<le> length xs\<close> by (intro div_less) linarith
      ultimately show ?thesis using True 1(2) by (simp only: div_add_self2) simp
    next
      case False
      then show ?thesis using 1(2) by (simp add: le_div_geq)
    qed
    finally show ?thesis .
  qed
qed

text \<open>C40. Packed calldata is made of felts: after the length come one word for every 31 bytes begun, and
  every word is non-negative and below 2 to the 248, so within the field of Cairo.\<close>

theorem pack_calldata_felts:
  "\<exists>ws. pack_calldata data = Inr (int (length data) # ws) \<and> length ws = (length data + 30) div 31 \<and>
     list_all (\<lambda>w. 0 \<le> w \<and> w < 2 ^ 248) ws"
proof -
  have "0 \<le> from_bytes_big c \<and> from_bytes_big c < 2 ^ 248" if "c \<in> set (chunks 31 data)" for c
  proof -
    have "from_bytes_big c < 256 ^ length c" by (rule from_bytes_bounds)
    also have "\<dots> \<le> (256 :: int) ^ 31"
      by (rule power_increasing) (use chunks_length [OF that] in auto)
    finally show ?thesis using from_bytes_bounds(1) by simp
  qed
  then show ?thesis
    using length_chunks [of 31 data] by (simp add: pack_calldata_words list_all_iff)
qed

end
