(* ===== verification/World.thy ===== *)
theory World
  imports PyNumber Helpers
begin

text \<open>
  The world in which the client scripts run: the \<^verbatim>\<open>NETWORK\<close> dictionary, the accounts and
  calls of starknet_py, the requests a script sends out (\<open>event\<close>), the answers it gets (\<open>env\<close>)
  and the module globals it keeps (\<open>world\<close>).  Code outside the repository is a field of \<open>env\<close>: the
  pure functions of the packages, and one oracle per kind of request.  An oracle sees the whole
  history of requests, so that the network may answer the same question differently at any time; no
  law about the answers is built in.  Log messages are left out.
\<close>

section \<open>Configuration\<close>

datatype network_type = ProdNet | DevNet | StagingNet

record network =
  nw_name :: string
  nw_type :: network_type
  nw_chain_id :: int
  nw_check_interval :: pynum
  nw_max_wait :: pynum
  nw_class_hash :: "int option"
  nw_account_address :: "string option"
  nw_private_key :: "string option"
  nw_relayers :: "int option"
  nw_argent_multisig_api :: "string option"
  nw_explorer_url :: string

section \<open>Accounts, calls and transactions\<close>

text \<open>
  Account objects are compared by identity, hence \<open>ac_ref\<close>.  For an externally owned account of
  the EVM the key pair holds the EVM key, and \<open>ac_evm\<close> is the EVM address derived from it.
\<close>

record account =
  ac_ref :: nat
  ac_address :: int
  ac_private_key :: int
  ac_public_key :: int
  ac_evm :: "int option"

record call =
  c_to :: int
  c_selector :: int
  c_calldata :: "int list"

record invoke_tx =
  tx_sender :: int
  tx_calls :: "call list"
  tx_cairo_version :: int
  tx_nonce :: int
  tx_max_fee :: int
  tx_signature :: "int list"

text \<open>Arguments of contract functions before starknet_py serializes them with the ABI.\<close>

datatype arg = Felt int | Flag bool | Text string | Felts "int list" | Struct "(string \<times> int) list list"

text \<open>The multisig service of Argent: a transaction it knows of, and its answer to a request.\<close>

record ms_content =
  ms_id :: string
  ms_state :: string
  ms_hash :: string

record ms_response =
  ms_status :: "string option"
  ms_content :: "ms_content option"

section \<open>Requests\<close>

datatype event =
    PendingNonce int
  | Sleep pynum
  | CairoVersion int
  | AddInvoke invoke_tx
  | WaitForTx int int
  | MultisigPost int invoke_tx "string list"
  | MultisigGet int
  | ClassHashAt int
  | ClassByHash int
  | DeclareV2 int string int
  | DeclareV1 int string int
  | DeployAccount int int int "int list"
  | RawCall int int "int list"
  | AbiCall string int string "arg list"
  | Mint int int
  | GetBlock
  | GetReceipt int
  | Web3Nonce int
  | Web3Send "byte list"
  | Web3Call int "int option" int int int "byte list"
  | Web3Receipt int
  | FileWrite string

text \<open>What starknet_py returns for a transaction receipt, as far as the scripts look at it.\<close>

record sn_event =
  ev_from :: int
  ev_keys :: "int list"
  ev_data :: "int list"

record receipt =
  rc_events :: "sn_event list"
  rc_reverted :: bool
  rc_revert_reason :: string

section \<open>Environment\<close>

record env =
  network :: network
  \<comment> \<open>pure functions of the packages\<close>
  selector_of :: "string \<Rightarrow> int"
  starknet_keccak :: "byte list \<Rightarrow> int"
  storage_var_address :: "string \<Rightarrow> int list \<Rightarrow> int"
  stark_public_key :: "int \<Rightarrow> int"
  compute_address :: "int \<Rightarrow> int \<Rightarrow> int list \<Rightarrow> int \<Rightarrow> int"
  sign_invoke :: "int \<Rightarrow> int \<Rightarrow> call list \<Rightarrow> int \<Rightarrow> int \<Rightarrow> int \<Rightarrow> int \<Rightarrow> int list"
  serialize :: "string \<Rightarrow> string \<Rightarrow> arg list \<Rightarrow> exn + int list"
  udc_deployment :: "int \<Rightarrow> int \<Rightarrow> arg list \<Rightarrow> exn + call \<times> int"
  checksum :: "int \<Rightarrow> string"
  exn_text :: "exn \<Rightarrow> string"
  eth_token_address :: int
  udc_address :: int
  \<comment> \<open>the files of the build directories, as paths relative to them\<close>
  build_files :: "string list"
  ssj_files :: "string list list"
  cairo_files :: "string list list"
  abi_text :: "string list \<Rightarrow> exn + unit"
  \<comment> \<open>one oracle per kind of request\<close>
  o_pending_nonce :: "event list \<Rightarrow> int \<Rightarrow> exn + int"
  o_cairo_version :: "event list \<Rightarrow> int \<Rightarrow> exn + int"
  o_add_invoke :: "event list \<Rightarrow> invoke_tx \<Rightarrow> exn + int"
  o_wait_for_tx :: "event list \<Rightarrow> int \<Rightarrow> exn + unit"
  o_multisig_post :: "event list \<Rightarrow> int \<Rightarrow> exn + ms_response"
  o_multisig_get :: "event list \<Rightarrow> int \<Rightarrow> exn + ms_content list"
  o_class_hash_at :: "event list \<Rightarrow> int \<Rightarrow> exn + int"
  o_class_by_hash :: "event list \<Rightarrow> int \<Rightarrow> exn + unit"
  o_declare :: "event list \<Rightarrow> string \<Rightarrow> int \<Rightarrow> exn + int \<times> int"
  o_deploy_account :: "event list \<Rightarrow> int \<Rightarrow> exn + int \<times> int"
  o_raw_call :: "event list \<Rightarrow> int \<Rightarrow> int \<Rightarrow> int list \<Rightarrow> exn + int list"
  o_abi_call :: "event list \<Rightarrow> int \<Rightarrow> string \<Rightarrow> arg list \<Rightarrow> exn + arg list"
  o_mint :: "event list \<Rightarrow> int \<Rightarrow> int \<Rightarrow> exn + int"
  o_block_timestamp :: "event list \<Rightarrow> exn + int"
  o_receipt :: "event list \<Rightarrow> int \<Rightarrow> exn + receipt"

section \<open>State\<close>

text \<open>
  The globals of \<^verbatim>\<open>starknet.py\<close> (\<open>_nonces\<close>, \<open>_lazy_execute\<close>, \<open>_multisig_account\<close>, \<open>_logs\<close>,
  \<open>_selector_to_name\<close>), the caches of the decorated functions, the JSON files the scripts keep, and
  the history of requests.  A \<^verbatim>\<open>defaultdict\<close> is a total function; \<open>_logs\<close> is an association list
  in insertion order, because \<^verbatim>\<open>execute_calls\<close> runs through it in that order.
\<close>

datatype addr_arg = NoAddr | AddrInt int | AddrStr string

record world =
  trace :: "event list"
  nonces :: "int \<rightharpoonup> int"
  lazy_accounts :: "int \<Rightarrow> bool"
  multisig_accounts :: "int \<Rightarrow> bool"
  logs :: "(account \<times> call list) list"
  selector_to_name :: "int \<rightharpoonup> string"
  next_ref :: nat
  contract_cache :: "string \<times> int option \<times> nat option \<rightharpoonup> int"
  account_cache :: "addr_arg \<times> string option \<rightharpoonup> account"
  class_hashes_file :: "(string \<times> string) list option"
  declarations_file :: "(string \<times> string) list option"
  deployments_file :: "(string \<times> string) list option"
  relayer_pool :: "account list option"

definition emit :: "event \<Rightarrow> ('m world_scheme, unit) py" where
  "emit ev = modify (\<lambda>s. s\<lparr>trace := trace s @ [ev]\<rparr>)"

text \<open>A request and its answer: the oracle sees the history with the request in it.\<close>

definition ask :: "event \<Rightarrow> (event list \<Rightarrow> exn + 'a) \<Rightarrow> ('m world_scheme, 'a) py" where
  "ask ev oracle = seq (emit ev) (\<lambda>s. lift_sum (oracle (trace s)) s)"

text \<open>Reading \<^verbatim>\<open>d[k]\<close>.\<close>

definition lookup_key :: "('s \<Rightarrow> 'k \<rightharpoonup> 'v) \<Rightarrow> 'k \<Rightarrow> ('s, 'v) py" where
  "lookup_key d k s = (case d s k of None \<Rightarrow> Exc KeyError s | Some v \<Rightarrow> Ret v s)"

definition get_option :: "exn \<Rightarrow> 'a option \<Rightarrow> ('s, 'a) py" where
  "get_option e x = (case x of None \<Rightarrow> raise e | Some v \<Rightarrow> ret v)"

lemmas [py_run] = emit_def ask_def lookup_key_def get_option_def

lemma ask_cases:
  "ask ev oracle s =
     (let t = s\<lparr>trace := trace s @ [ev]\<rparr>
      in case oracle (trace t) of Inl e \<Rightarrow> Exc e t | Inr x \<Rightarrow> Ret x t)"
  by (simp add: py_run Let_def split: sum.split)

text \<open>When a computation returns.\<close>

lemma Ret_iff:
  "bnd m f s = Ret y u \<longleftrightarrow> (\<exists>x t. m s = Ret x t \<and> f x t = Ret y u)"
  "seq m k s = Ret y u \<longleftrightarrow> (\<exists>x t. m s = Ret x t \<and> k t = Ret y u)"
  "lift_sum r s = Ret z t \<longleftrightarrow> r = Inr z \<and> t = s"
  "get_option e v s = Ret z t \<longleftrightarrow> v = Some z \<and> t = s"
  "ret w s = Ret z t \<longleftrightarrow> z = w \<and> t = s" "raise e s = Ret z t \<longleftrightarrow> False"
  by (auto simp: py_run split: outcome.splits sum.splits option.splits)

lemma ask_Ret: "ask ev oracle s = Ret x t \<longleftrightarrow> t = s\<lparr>trace := trace s @ [ev]\<rparr> \<and> oracle (trace s @ [ev]) = Inr x"
  by (auto simp: ask_cases Let_def split: sum.splits)

context step_relation
begin

lemma lookups: "rel_py R (lookup_key d k)" "rel_py R (get_option e x)"
  by (auto simp: rel_py_def py_run R_refl split: option.split)

end

section \<open>The history only grows\<close>

definition extends :: "'m world_scheme \<Rightarrow> 'm world_scheme \<Rightarrow> bool" where
  "extends s t \<longleftrightarrow> (\<exists>evs. trace t = trace s @ evs)"

interpretation history: step_relation extends
  by unfold_locales (auto simp: extends_def)

lemma ask_extends [frame]: "rel_py extends (ask ev oracle)"
  by (auto simp: rel_py_def ask_cases extends_def Let_def split: sum.split)

lemma emit_extends [frame]: "rel_py extends (emit ev)"
  by (auto simp: rel_py_def py_run extends_def)

text \<open>The transactions submitted so far, in order.\<close>

fun sent_txs :: "event list \<Rightarrow> invoke_tx list" where
  "sent_txs [] = []"
| "sent_txs (AddInvoke tx # evs) = tx # sent_txs evs"
| "sent_txs (_ # evs) = sent_txs evs"

lemma sent_txs_append [simp]: "sent_txs (evs @ fvs) = sent_txs evs @ sent_txs fvs"
  by (induction evs rule: sent_txs.induct) auto

text \<open>
  A quiet computation asks questions and keeps nonces: it submits no transaction, and of the state
  only the history and the nonce dictionary change.
\<close>

definition quiet :: "'m world_scheme \<Rightarrow> 'm world_scheme \<Rightarrow> bool" where
  "quiet s t \<longleftrightarrow> (\<exists>evs ns. t = s\<lparr>trace := trace s @ evs, nonces := ns\<rparr> \<and> sent_txs evs = [])"

interpretation quiet: step_relation quiet
proof
  fix s :: "'m world_scheme"
  have "s = s\<lparr>trace := trace s @ [], nonces := nonces s\<rparr>" by simp
  then show "quiet s s" unfolding quiet_def by (metis sent_txs.simps(1))
next
  fix s t u :: "'m world_scheme"
  assume "quiet s t" and "quiet t u"
  then obtain e1 n1 e2 n2 where "t = s\<lparr>trace := trace s @ e1, nonces := n1\<rparr>" "sent_txs e1 = []"
    and "u = t\<lparr>trace := trace t @ e2, nonces := n2\<rparr>" "sent_txs e2 = []"
    unfolding quiet_def by blast
  then have "u = s\<lparr>trace := trace s @ (e1 @ e2), nonces := n2\<rparr> \<and> sent_txs (e1 @ e2) = []" by simp
  then show "quiet s u" unfolding quiet_def by blast
qed

lemma quiet_trace_update: "sent_txs evs = [] \<Longrightarrow> quiet s (s\<lparr>trace := trace s @ evs\<rparr>)"
  unfolding quiet_def by (rule exI [of _ evs], rule exI [of _ "nonces s"]) simp

lemma quiet_nonces_update: "quiet s (s\<lparr>nonces := ns\<rparr>)"
  unfolding quiet_def by (rule exI [of _ "[]"], rule exI [of _ ns]) simp

lemma ask_quiet: "sent_txs [ev] = [] \<Longrightarrow> rel_py quiet (ask ev oracle)"
  by (auto simp: rel_py_def ask_cases Let_def intro: quiet_trace_update split: sum.split)

lemma emit_quiet: "sent_txs [ev] = [] \<Longrightarrow> rel_py quiet (emit ev)"
  by (auto simp: rel_py_def py_run intro: quiet_trace_update)

lemma quiet_sent: "quiet s t \<Longrightarrow> sent_txs (trace t) = sent_txs (trace s)"
  by (auto simp: quiet_def)

lemma quiet_globals:
  assumes "quiet s t"
  shows "lazy_accounts t = lazy_accounts s" "multisig_accounts t = multisig_accounts s"
    "logs t = logs s" "selector_to_name t = selector_to_name s"
    "account_cache t = account_cache s" "deployments_file t = deployments_file s"
    "declarations_file t = declarations_file s" "class_hashes_file t = class_hashes_file s"
    "relayer_pool t = relayer_pool s" "next_ref t = next_ref s" "contract_cache t = contract_cache s"
  using assms by (auto simp: quiet_def)

end
