(* ===== verification/Nonces.thy ===== *)
theory Nonces
  imports World
begin

text \<open>
  The nonce counter.  \<^verbatim>\<open>get_nonce\<close> of \<^verbatim>\<open>utils/starknet.py\<close> and \<^verbatim>\<open>get_nonce\<close> of
  \<^verbatim>\<open>utils/kakarot.py\<close> run the same protocol over their own \<^verbatim>\<open>_nonces\<close> dictionary and their own
  way to ask the network: take the expected nonce from the dictionary (or from the network, the
  first time), poll the network until it agrees, at most ten times, trust the network if it never
  does, and hand out the nonce after bumping the dictionary.  The protocol is written once, over
  the dictionary and the query, and its contract is proved once in a locale.
\<close>

section \<open>The protocol\<close>

text \<open>\<^verbatim>\<open>while network_nonce != _nonces[address] and retries > 0\<close>\<close>

fun poll_nonce ::
    "('s \<Rightarrow> int \<rightharpoonup> int) \<Rightarrow> ('s, int) py \<Rightarrow> ('s, unit) py \<Rightarrow> int \<Rightarrow> int \<Rightarrow> nat \<Rightarrow> ('s, int \<times> nat) py" where
  "poll_nonce cached query pause key network_nonce 0 =
     bnd (lookup_key cached key) (\<lambda>_. ret (network_nonce, 0))"
| "poll_nonce cached query pause key network_nonce (Suc retries) =
     bnd (lookup_key cached key) (\<lambda>expected.
       if network_nonce \<noteq> expected
       then seq pause (bnd query (\<lambda>n. poll_nonce cached query pause key n retries))
       else ret (network_nonce, Suc retries))"

definition next_nonce ::
    "('s \<Rightarrow> int \<rightharpoonup> int) \<Rightarrow> (int \<Rightarrow> int \<Rightarrow> 's \<Rightarrow> 's) \<Rightarrow> ('s, int) py \<Rightarrow> ('s, unit) py \<Rightarrow> int \<Rightarrow> ('s, int) py" where
  "next_nonce cached store query pause key =
     seq (bnd (gets (\<lambda>s. cached s key)) (\<lambda>c.
            case c of None \<Rightarrow> bnd query (\<lambda>n. modify (store key n)) | Some _ \<Rightarrow> ret ()))
    (bnd query (\<lambda>network_nonce.
     bnd (poll_nonce cached query pause key network_nonce 10) (\<lambda>(network_nonce, retries).
     seq (py_when (retries = 0) (modify (store key network_nonce)))
    (bnd (lookup_key cached key) (\<lambda>nonce.
     seq (modify (store key (nonce + 1)))
    (ret nonce))))))"

section \<open>The contract\<close>

text \<open>
  \<open>answered s n\<close>: the last answer of the network in the history of \<open>s\<close> was \<open>n\<close>.  Asking and
  pausing leave the dictionary alone, writing the dictionary leaves the history alone.
\<close>

locale nonce_counter =
  fixes cached :: "'s \<Rightarrow> int \<rightharpoonup> int"
    and store :: "int \<Rightarrow> int \<Rightarrow> 's \<Rightarrow> 's"
    and query :: "('s, int) py"
    and pause :: "('s, unit) py"
    and answered :: "'s \<Rightarrow> int \<Rightarrow> bool"
  assumes cached_store: "cached (store k n s) = (cached s)(k \<mapsto> n)"
    and query_cached: "rel_py (\<lambda>s t. cached t = cached s) query"
    and pause_cached: "rel_py (\<lambda>s t. cached t = cached s) pause"
    and query_answered: "query s = Ret n t \<Longrightarrow> answered t n"
    and store_answered: "answered (store k n s) m = answered s m"
    and query_total: "query s \<noteq> Diverge"
    and pause_total: "pause s \<noteq> Diverge"
begin

lemma query_Ret: "query s = Ret n t \<Longrightarrow> cached t = cached s"
  using rel_pyD_Ret [OF query_cached] by blast

lemma query_Exc: "query s = Exc e t \<Longrightarrow> cached t = cached s"
  using rel_pyD_Exc [OF query_cached] by blast

lemma pause_Ret: "pause s = Ret u t \<Longrightarrow> cached t = cached s"
  using rel_pyD_Ret [OF pause_cached] by blast

lemma pause_Exc: "pause s = Exc e t \<Longrightarrow> cached t = cached s"
  using rel_pyD_Exc [OF pause_cached] by blast

text \<open>Polling stops with an answer of the network, and with the expected one if tries are left.\<close>

lemma poll_nonce_Ret:
  "poll_nonce cached query pause k n r s = Ret (m, r') t \<Longrightarrow> answered s n \<Longrightarrow>
     cached t = cached s \<and> answered t m \<and> (r' \<noteq> 0 \<longrightarrow> cached s k = Some m)"
proof (induction r arbitrary: n s)
  case 0
  then show ?case by (auto simp: py_run split: option.splits)
next
  case (Suc r)
  show ?case
  proof (cases "cached s k")
    case None
    with Suc.prems show ?thesis by (simp add: py_run)
  next
    case (Some c)
    show ?thesis
    proof (cases "n = c")
      case True
      with Suc.prems Some show ?thesis by (simp add: py_run)
    next
      case False
      with Suc.prems(1) Some obtain u v n' w where
        p: "pause s = Ret u v" and q: "query v = Ret n' w"
        and rec: "poll_nonce cached query pause k n' r w = Ret (m, r') t"
        by (auto simp: py_run split: outcome.splits)
      from Suc.IH [OF rec query_answered [OF q]] query_Ret [OF q] pause_Ret [OF p]
      show ?thesis by simp
    qed
  qed
qed

lemma poll_nonce_Exc:
  "poll_nonce cached query pause k n r s = Exc e t \<Longrightarrow> cached t = cached s"
proof (induction r arbitrary: n s)
  case 0
  then show ?case by (auto simp: py_run split: option.splits)
next
  case (Suc r)
  then show ?case
    by (auto simp: py_run split: option.splits outcome.splits if_splits)
      (metis query_Ret query_Exc pause_Ret pause_Exc)+
qed

text \<open>
  The contract: a nonce that is handed out is the network's last answer, and the dictionary is one
  ahead of it; nothing else in the dictionary changes.
\<close>

lemma next_nonce_Ret:
  assumes "next_nonce cached store query pause k s = Ret n t"
  shows "cached t = (cached s)(k \<mapsto> n + 1)" and "answered t n"
proof -
  obtain u s1 where s1: "(bnd (gets (\<lambda>s. cached s k)) (\<lambda>c.
        case c of None \<Rightarrow> bnd query (\<lambda>n. modify (store k n)) | Some _ \<Rightarrow> ret ())) s = Ret u s1"
    and run: "(bnd query (\<lambda>nn. bnd (poll_nonce cached query pause k nn 10) (\<lambda>(nn, r).
       seq (py_when (r = 0) (modify (store k nn))) (bnd (lookup_key cached k) (\<lambda>x.
       seq (modify (store k (x + 1))) (ret x)))))) s1 = Ret n t"
    using assms unfolding next_nonce_def by (rule seq_RetE)
  have c1: "\<exists>c. cached s1 = (cached s)(k \<mapsto> c)"
    using s1 by (auto simp: py_run cached_store split: option.splits outcome.splits
        dest!: query_Ret) (metis fun_upd_triv)
  obtain nn s2 m r s3 where q: "query s1 = Ret nn s2"
    and p: "poll_nonce cached query pause k nn 10 s2 = Ret (m, r) s3"
    and rest: "(seq (py_when (r = 0) (modify (store k m))) (bnd (lookup_key cached k) (\<lambda>x.
       seq (modify (store k (x + 1))) (ret x)))) s3 = Ret n t"
    using run by (auto elim!: bnd_RetE)
  note P = poll_nonce_Ret [OF p query_answered [OF q]]
  have c3: "\<exists>c. cached s3 = (cached s)(k \<mapsto> c)" and a3: "answered s3 m"
    and agree: "r \<noteq> 0 \<Longrightarrow> cached s3 k = Some m"
    using c1 P query_Ret [OF q] by auto
  have "n = m \<and> cached t = (cached s)(k \<mapsto> n + 1) \<and> answered t n"
  proof (cases "r = 0")
    case True
    with rest c3 a3 show ?thesis
      by (auto simp: py_run cached_store store_answered)
  next
    case False
    with rest c3 a3 agree show ?thesis
      by (auto simp: py_run cached_store store_answered)
  qed
  then show "cached t = (cached s)(k \<mapsto> n + 1)" and "answered t n" by blast+
qed

text \<open>A network that agrees with the dictionary is asked once.\<close>

lemma next_nonce_agree:
  assumes "cached s k = Some c" and "query s = Ret c t"
  shows "next_nonce cached store query pause k s = Ret c (store k (c + 1) t)"
proof -
  have t: "cached t k = Some c" using assms query_Ret by metis
  have "poll_nonce cached query pause k c 10 t = Ret (c, 10) t"
    using t by (simp add: eval_nat_numeral py_run)
  with t assms show ?thesis
    by (simp add: next_nonce_def py_run cached_store)
qed

text \<open>The protocol comes back: the polling is bounded.\<close>

lemma poll_nonce_total:
  shows "poll_nonce cached query pause k n r s \<noteq> Diverge"
proof (induction r arbitrary: n s)
  case 0
  then show ?case by (auto simp: py_run split: option.splits)
next
  case (Suc r)
  then show ?case by (auto simp: py_run query_total pause_total split: option.splits outcome.splits)
qed

lemma next_nonce_total: "next_nonce cached store query pause k s \<noteq> Diverge"
  by (auto simp: next_nonce_def py_run query_total poll_nonce_total
      split: option.splits outcome.splits prod.splits if_splits)

text \<open>If no nonce is handed out, none is used up: at most the first answer is remembered.\<close>

lemma settle_nonce_ok:
  "cached u k \<noteq> None \<Longrightarrow> (seq (py_when (r = 0) (modify (store k m))) (bnd (lookup_key cached k) (\<lambda>x.
     seq (modify (store k (x + 1))) (ret x)))) u \<noteq> Exc e v"
  by (auto simp: py_run cached_store split: if_splits option.splits)

lemma asked_nonce_Exc:
  assumes "(bnd query (\<lambda>nn. bnd (poll_nonce cached query pause k nn 10) (\<lambda>(m, r).
      seq (py_when (r = 0) (modify (store k m))) (bnd (lookup_key cached k) (\<lambda>x.
      seq (modify (store k (x + 1))) (ret x)))))) u = Exc e v"
    and "cached u k \<noteq> None"
  shows "cached v = cached u"
proof (cases "query u")
  case q: (Ret n w)
  note w = query_Ret [OF q]
  show ?thesis
  proof (cases "poll_nonce cached query pause k n 10 w")
    case r: (Ret mr x)
    obtain m r where "mr = (m, r)" by (cases mr)
    with poll_nonce_Ret [OF r [unfolded this] query_answered [OF q]] w assms(2)
    have "cached x k \<noteq> None" by simp
    moreover have "(seq (py_when (r = 0) (modify (store k m))) (bnd (lookup_key cached k) (\<lambda>x.
        seq (modify (store k (x + 1))) (ret x)))) x = Exc e v"
      using assms(1) q r \<open>mr = (m, r)\<close> by (simp add: bnd_def)
    ultimately show ?thesis using settle_nonce_ok by blast
  next
    case r: (Exc e' x)
    with assms(1) q have "v = x" by (simp add: bnd_def)
    with poll_nonce_Exc [OF r] w show ?thesis by simp
  next
    case Diverge
    with assms(1) q show ?thesis by (simp add: bnd_def)
  qed
next
  case (Exc e' w)
  with assms(1) query_Exc [OF Exc] show ?thesis by (simp add: bnd_def)
next
  case Diverge
  with assms(1) show ?thesis by (simp add: bnd_def)
qed

lemma next_nonce_Exc:
  assumes "next_nonce cached store query pause k s = Exc e t"
  shows "cached t = cached s \<or>
    (cached s k = None \<and> (\<exists>n u. query s = Ret n u \<and> cached t = (cached s)(k \<mapsto> n)))"
proof (cases "cached s k")
  case None
  show ?thesis
  proof (cases "query s")
    case (Ret n u)
    with None assms have "cached t = cached (store k n u)"
      by (intro asked_nonce_Exc [where k = k and e = e]) (simp_all add: next_nonce_def py_run cached_store)
    with None Ret query_Ret [OF Ret] show ?thesis by (auto simp: cached_store)
  next
    case (Exc e' u)
    with None assms query_Exc [OF Exc] show ?thesis by (simp add: next_nonce_def py_run)
  next
    case Diverge
    with None assms show ?thesis by (simp add: next_nonce_def py_run)
  qed
next
  case (Some c)
  with assms have "cached t = cached s"
    by (intro asked_nonce_Exc [where k = k and e = e]) (simp_all add: next_nonce_def py_run)
  then show ?thesis ..
qed

end

text \<open>
  How long the protocol waits.  \<open>pauses\<close> counts the pauses made so far; a nonce is handed out against
  the expectation of the dictionary only after ten of them.
\<close>

locale paced_counter = nonce_counter +
  fixes pauses :: "'s \<Rightarrow> nat"
  assumes pause_counts: "pause s = Ret u t \<Longrightarrow> pauses t = Suc (pauses s)"
    and query_pauses: "query s = Ret n t \<Longrightarrow> pauses t = pauses s"
    and store_pauses: "pauses (store k n s) = pauses s"
begin

lemma poll_nonce_pauses:
  "poll_nonce cached query pause k n r s = Ret (m, r') t \<Longrightarrow> pauses t + r' = pauses s + r"
proof (induction r arbitrary: n s)
  case 0
  then show ?case by (auto simp: py_run split: option.splits)
next
  case (Suc r)
  show ?case
  proof (cases "cached s k = Some n \<or> cached s k = None")
    case True
    with Suc.prems show ?thesis by (auto simp: py_run)
  next
    case False
    with Suc.prems obtain u v n' w where
      p: "pause s = Ret u v" and q: "query v = Ret n' w"
      and rec: "poll_nonce cached query pause k n' r w = Ret (m, r') t"
      by (auto simp: py_run split: outcome.splits)
    from Suc.IH [OF rec] query_pauses [OF q] pause_counts [OF p] show ?thesis by simp
  qed
qed

lemma next_nonce_expected:
  assumes "next_nonce cached store query pause k s = Ret n t" and "cached s k = Some c"
  shows "n = c \<or> pauses t = pauses s + 10"
proof -
  obtain nn s2 m r s3 where q: "query s = Ret nn s2"
    and p: "poll_nonce cached query pause k nn 10 s2 = Ret (m, r) s3"
    and rest: "(seq (py_when (r = 0) (modify (store k m))) (bnd (lookup_key cached k) (\<lambda>x.
       seq (modify (store k (x + 1))) (ret x)))) s3 = Ret n t"
    using assms unfolding next_nonce_def by (auto simp: py_run elim!: bnd_RetE split: outcome.splits)
  have c3: "cached s3 k = Some c"
    using poll_nonce_Ret [OF p query_answered [OF q]] query_Ret [OF q] assms(2) by simp
  have t: "pauses t = pauses s3"
    using rest by (auto simp: py_run store_pauses split: option.splits if_splits)
  show ?thesis
  proof (cases "r = 0")
    case True
    with poll_nonce_pauses [OF p] query_pauses [OF q] t show ?thesis by simp
  next
    case False
    with rest c3 show ?thesis by (auto simp: py_run)
  qed
qed

end

text \<open>What asking, pausing and writing the dictionary respect, the whole protocol respects.\<close>

context step_relation
begin

lemma poll_nonce_rel:
  "rel_py R query \<Longrightarrow> rel_py R pause \<Longrightarrow> rel_py R (poll_nonce cached query pause k n r)"
  by (induction r arbitrary: n) (auto intro!: rules lookups)

lemma next_nonce_rel:
  assumes "rel_py R query" and "rel_py R pause" and "\<And>k n. rel_py R (modify (store k n))"
  shows "rel_py R (next_nonce cached store query pause k)"
  unfolding next_nonce_def
  using assms
  by (auto intro!: rules lookups poll_nonce_rel split: option.split prod.split)

end

text \<open>The cost of the protocol, when a question and a pause cost one each.\<close>

lemma costs_lookup: "costs c k (lookup_key d a)" "costs c k (get_option e x)"
  by (auto simp: costs_def py_run split: option.split)

lemma poll_nonce_costs:
  assumes "costs c 1 query" and "costs c 1 pause"
  shows "costs c (2 * r) (poll_nonce cached query pause k n r)"
proof (induction r arbitrary: n)
  case 0
  show ?case by (auto simp: costs_def py_run split: option.split)
next
  case (Suc r)
  have "costs c (1 + (1 + 2 * r)) (seq pause (bnd query (\<lambda>n. poll_nonce cached query pause k n r)))"
    by (intro costs_seq costs_bnd assms Suc)
  then have "costs c (2 * Suc r) (if n \<noteq> e
      then seq pause (bnd query (\<lambda>n. poll_nonce cached query pause k n r)) else ret (n, Suc r))" for e
    by (auto intro: costs_free)
  then have "costs c (0 + 2 * Suc r) (poll_nonce cached query pause k n (Suc r))"
    unfolding poll_nonce.simps by (intro costs_bnd costs_lookup)
  then show ?case by simp
qed

lemma next_nonce_costs:
  assumes "costs c 1 query" and "costs c 1 pause" and store: "\<And>k n. costs c 0 (modify (store k n))"
  shows "costs c 22 (next_nonce cached store query pause k)"
proof -
  have first: "costs c 1 (bnd (gets (\<lambda>s. cached s k)) (\<lambda>x.
      case x of None \<Rightarrow> bnd query (\<lambda>n. modify (store k n)) | Some _ \<Rightarrow> ret ()))"
  proof -
    have "costs c (1 + 0) (bnd query (\<lambda>n. modify (store k n)))" by (intro costs_bnd assms)
    then have "costs c 1 (case x of None \<Rightarrow> bnd query (\<lambda>n. modify (store k n)) | Some _ \<Rightarrow> ret ())"
      for x :: "int option"
      by (cases x) (auto intro: costs_free)
    then have "costs c (0 + 1) (bnd (gets (\<lambda>s. cached s k)) (\<lambda>x.
      case x of None \<Rightarrow> bnd query (\<lambda>n. modify (store k n)) | Some _ \<Rightarrow> ret ()))"
      by (intro costs_bnd costs_free)
    then show ?thesis by simp
  qed
  have last: "costs c 0 (case p of (m, r) \<Rightarrow> seq (py_when (r = 0) (modify (store k m)))
      (bnd (lookup_key cached k) (\<lambda>x. seq (modify (store k (x + 1))) (ret x))))" for p :: "int \<times> nat"
  proof -
    have "costs c (0 + (0 + (0 + 0))) (seq (py_when b (modify (store k m)))
      (bnd (lookup_key cached k) (\<lambda>x. seq (modify (store k (x + 1))) (ret x))))" for b m
      by (intro costs_seq costs_bnd costs_lookup) (auto simp: py_when_def intro: store costs_free)
    then show ?thesis by (cases p) simp
  qed
  have "costs c (1 + (1 + (2 * 10 + 0))) (next_nonce cached store query pause k)"
    unfolding next_nonce_def
    by (intro costs_seq costs_bnd first last assms(1) poll_nonce_costs assms(2))
  then show ?thesis by simp
qed

end
