(* ===== verification/Devnet.thy ===== *)
theory Devnet
  imports World
begin

text \<open>
  A concrete environment: a development network that answers every request from the history of
  requests.  The pending nonce of an account is the number of its transactions in the history, so
  this network is never late.  Every law about the network that a property assumes holds here,
  and the concrete runs of the development use it.
\<close>

definition dev_network :: network where
  "dev_network = \<lparr>nw_name = ''katana'', nw_type = DevNet, nw_chain_id = 1263227476,
     nw_check_interval = PInt 1, nw_max_wait = PInt 30, nw_class_hash = None,
     nw_account_address = None, nw_private_key = None, nw_relayers = None,
     nw_argent_multisig_api = Some ''http://localhost:3000'', nw_explorer_url = []\<rparr>"

definition dev_env :: env where
  "dev_env = \<lparr>network = dev_network,
     selector_of = (\<lambda>name. foldl (\<lambda>acc c. 256 * acc + of_char c) 0 name),
     starknet_keccak = (\<lambda>bs. from_bytes_big (take 31 bs)),
     storage_var_address = (\<lambda>name ks. foldl (\<lambda>acc k. 3 * acc + k) 1 ks),
     stark_public_key = (\<lambda>sk. sk + 1),
     compute_address = (\<lambda>salt ch cd deployer. 1000 * ch + salt + deployer),
     sign_invoke = (\<lambda>key a cs v fee chain n. [key, n]),
     serialize = (\<lambda>contract f args. Inr []),
     udc_deployment = (\<lambda>ch salt args. Inr (\<lparr>c_to = 65, c_selector = 1, c_calldata = [ch]\<rparr>, ch + 7)),
     checksum = (\<lambda>n. py_hex n),
     exn_text = (\<lambda>e. case e of ClientError c m \<Rightarrow> m | _ \<Rightarrow> []),
     eth_token_address = 73, udc_address = 65,
     build_files = [''ERC20.json''], ssj_files = [], cairo_files = [], abi_text = (\<lambda>p. Inr ()),
     o_pending_nonce = (\<lambda>h a. Inr (int (length (filter (\<lambda>tx. tx_sender tx = a) (sent_txs h))))),
     o_cairo_version = (\<lambda>h a. Inr 1),
     o_add_invoke = (\<lambda>h tx. Inr (100 + int (length (sent_txs h)))),
     o_wait_for_tx = (\<lambda>h x. Inr ()),
     o_multisig_post = (\<lambda>h a. Inr \<lparr>ms_status = None,
        ms_content = Some \<lparr>ms_id = ''1'', ms_state = ''PENDING'', ms_hash = ''0x1''\<rparr>\<rparr>),
     o_multisig_get = (\<lambda>h a. Inr [\<lparr>ms_id = ''1'', ms_state = ''TX_ACCEPTED_L2'', ms_hash = ''0x2''\<rparr>]),
     o_class_hash_at = (\<lambda>h a. Inl (ClientError 20 ''Contract not found'')),
     o_class_by_hash = (\<lambda>h ch. Inl (ClientError 28 ''Class hash not found'')),
     o_declare = (\<lambda>h name ch. Inr (ch, 77)),
     o_deploy_account = (\<lambda>h a. Inr (78, a)),
     o_raw_call = (\<lambda>h a f args. Inr [6]),
     o_abi_call = (\<lambda>h a f args. Inr [Felt 0]),
     o_mint = (\<lambda>h a w. Inr 79),
     o_block_timestamp = (\<lambda>h. Inr (int (length h))),
     o_receipt = (\<lambda>h x. Inr \<lparr>rc_events = [], rc_reverted = False, rc_revert_reason = []\<rparr>)\<rparr>"

definition dev_world :: world where
  "dev_world = \<lparr>trace = [], nonces = Map.empty, lazy_accounts = (\<lambda>_. False),
     multisig_accounts = (\<lambda>_. False), logs = [], selector_to_name = Map.empty, next_ref = 0,
     contract_cache = Map.empty, account_cache = Map.empty, class_hashes_file = None,
     declarations_file = None, deployments_file = None, relayer_pool = None\<rparr>"

definition dev_account :: "nat \<Rightarrow> account" where
  "dev_account r = \<lparr>ac_ref = r, ac_address = int r, ac_private_key = 5, ac_public_key = 6, ac_evm = None\<rparr>"

definition dev_call :: "int \<Rightarrow> call" where
  "dev_call n = \<lparr>c_to = 73, c_selector = 2, c_calldata = [n]\<rparr>"

lemma dev_account_sel [simp]:
  "ac_ref (dev_account r) = r" "ac_address (dev_account r) = int r"
  "ac_private_key (dev_account r) = 5" "ac_evm (dev_account r) = None"
  by (simp_all add: dev_account_def)

lemma dev_world_sel [simp]:
  "trace dev_world = []" "nonces dev_world = Map.empty" "logs dev_world = []"
  "lazy_accounts dev_world = (\<lambda>_. False)" "multisig_accounts dev_world = (\<lambda>_. False)"
  "selector_to_name dev_world = Map.empty" "relayer_pool dev_world = None"
  "account_cache dev_world = Map.empty" "contract_cache dev_world = Map.empty"
  "next_ref dev_world = 0" "deployments_file dev_world = None"
  "declarations_file dev_world = None" "class_hashes_file dev_world = None"
  by (simp_all add: dev_world_def)

lemma dev_env_sel [simp]:
  "network dev_env = dev_network"
  "o_pending_nonce dev_env = (\<lambda>h a. Inr (int (length (filter (\<lambda>tx. tx_sender tx = a) (sent_txs h)))))"
  "o_cairo_version dev_env = (\<lambda>h a. Inr 1)"
  "o_add_invoke dev_env = (\<lambda>h tx. Inr (100 + int (length (sent_txs h))))"
  "o_wait_for_tx dev_env = (\<lambda>h x. Inr ())"
  "o_mint dev_env = (\<lambda>h a w. Inr 79)" "o_raw_call dev_env = (\<lambda>h a f args. Inr [6])"
  "o_abi_call dev_env = (\<lambda>h a f args. Inr [Felt 0])"
  "build_files dev_env = [''ERC20.json'']" "ssj_files dev_env = []" "cairo_files dev_env = []"
  "abi_text dev_env = (\<lambda>p. Inr ())"
  "o_class_hash_at dev_env = (\<lambda>h a. Inl (ClientError 20 ''Contract not found''))"
  "o_class_by_hash dev_env = (\<lambda>h ch. Inl (ClientError 28 ''Class hash not found''))"
  "o_declare dev_env = (\<lambda>h name ch. Inr (ch, 77))" "o_deploy_account dev_env = (\<lambda>h a. Inr (78, a))"
  "serialize dev_env = (\<lambda>contract f args. Inr [])" "eth_token_address dev_env = 73"
  "stark_public_key dev_env = (\<lambda>sk. sk + 1)"
  "compute_address dev_env = (\<lambda>salt ch cd deployer. 1000 * ch + salt + deployer)"
  by (simp_all add: dev_env_def)

lemma dev_network_sel [simp]:
  "nw_type dev_network = DevNet" "nw_max_wait dev_network = PInt 30"
  "nw_check_interval dev_network = PInt 1" "nw_relayers dev_network = None"
  by (simp_all add: dev_network_def)

lemma dev_wait: "\<exists>q. num_truediv (PInt 30) (PInt 1) = Inr q"
  by simp

end
