(* ===== verification/Execute.thy ===== *)
theory Execute
  imports Nonces Devnet
begin

text \<open>
  The execution layer of \<^verbatim>\<open>kakarot_scripts/utils/starknet.py\<close>: the nonce of an account,
  \<^verbatim>\<open>execute_v1\<close> with its plain and its multisig path, the lazy mode that collects calls and
  \<^verbatim>\<open>execute_calls\<close> that sends them, and \<^verbatim>\<open>wait_for_transaction\<close>.  Calldata are integers
  already, the serialized form of a transaction keeps its list of calls, and the scripts run one
  coroutine at a time.
\<close>

section \<open>Module globals\<close>

definition max_fee_default :: "env \<Rightarrow> int" where
  "max_fee_default E =
     (if nw_type (network E) = ProdNet then 5 * 10 ^ 15 else 5 * 10 ^ 16)"

definition store_nonce :: "int \<Rightarrow> int \<Rightarrow> 'm world_scheme \<Rightarrow> 'm world_scheme" where
  "store_nonce k n s = s\<lparr>nonces := (nonces s)(k \<mapsto> n)\<rparr>"

definition register_lazy_account :: "int \<Rightarrow> ('m world_scheme, unit) py" where
  "register_lazy_account a = modify (\<lambda>s. s\<lparr>lazy_accounts := (lazy_accounts s)(a := True)\<rparr>)"

definition remove_lazy_account :: "int \<Rightarrow> ('m world_scheme, unit) py" where
  "remove_lazy_account a = modify (\<lambda>s. s\<lparr>lazy_accounts := (lazy_accounts s)(a := False)\<rparr>)"

definition register_multisig_account :: "int \<Rightarrow> ('m world_scheme, unit) py" where
  "register_multisig_account a =
     modify (\<lambda>s. s\<lparr>multisig_accounts := (multisig_accounts s)(a := True)\<rparr>)"

text \<open>The wrapped \<^verbatim>\<open>get_selector_from_name\<close> remembers the name of every selector it computes.\<close>

definition get_selector_from_name :: "env \<Rightarrow> string \<Rightarrow> ('m world_scheme, int) py" where
  "get_selector_from_name E name =
     (let selector = selector_of E name
      in seq (modify (\<lambda>s. s\<lparr>selector_to_name := (selector_to_name s)(selector \<mapsto> name)\<rparr>))
           (ret selector))"

section \<open>Nonces\<close>

definition ask_nonce :: "env \<Rightarrow> int \<Rightarrow> ('m world_scheme, int) py" where
  "ask_nonce E a = ask (PendingNonce a) (\<lambda>h. o_pending_nonce E h a)"

definition get_nonce :: "env \<Rightarrow> account \<Rightarrow> ('m world_scheme, int) py" where
  "get_nonce E account =
     next_nonce nonces store_nonce (ask_nonce E (ac_address account))
       (emit (Sleep (PFloat (rnd (1 / 10))))) (ac_address account)"

datatype status = StatusOk | StatusFailed

definition release_nonce :: "int \<Rightarrow> ('m world_scheme, unit) py" where
  "release_nonce a = bnd (lookup_key nonces a) (\<lambda>n. modify (store_nonce a (n - 1)))"

definition wait_for_transaction ::
    "env \<Rightarrow> int \<Rightarrow> account option \<Rightarrow> ('m world_scheme, status) py" where
  "wait_for_transaction E tx_hash account =
     try_except
       (bnd (lift_sum (num_truediv (nw_max_wait (network E)) (nw_check_interval (network E)))) (\<lambda>q.
        seq (ask (WaitForTx tx_hash (int_of_num q)) (\<lambda>h. o_wait_for_tx E h tx_hash))
            (ret StatusOk)))
       (\<lambda>e. seq
          (if is_rejected e
           then (case account of Some a \<Rightarrow> release_nonce (ac_address a) | None \<Rightarrow> ret ())
           else ret ())
          (ret StatusFailed))"

section \<open>Executing calls\<close>

datatype response = NoResponse | SentTx int | MultisigDict string string

definition ms_terminal :: "string \<Rightarrow> bool" where
  "ms_terminal st \<longleftrightarrow> st \<in> {''TX_ACCEPTED_L2'', ''REVERTED'', ''REJECTED''}"

text \<open>One round of the status loop: five seconds of sleep, then the list of requests.\<close>

definition ms_fetch :: "env \<Rightarrow> int \<Rightarrow> 'm world_scheme \<Rightarrow> (exn + ms_content list) \<times> 'm world_scheme" where
  "ms_fetch E a s =
     (let t = s\<lparr>trace := trace s @ [Sleep (PInt 5), MultisigGet a]\<rparr>
      in (o_multisig_get E (trace t) a, t))"

text \<open>
  \<^verbatim>\<open>while status not in {...}\<close>: nothing bounds the number of rounds, so the loop is a partial
  function; \<open>None\<close> is "never comes back".
\<close>

partial_function (option) multisig_poll ::
    "env \<Rightarrow> int \<Rightarrow> string \<Rightarrow> ms_content \<Rightarrow> 'm world_scheme \<Rightarrow>
       ((exn + ms_content) \<times> 'm world_scheme) option" where
  "multisig_poll E a transaction_id content s =
     (if ms_terminal (ms_state content) then Some (Inr content, s)
      else (case ms_fetch E a s of
              (Inl e, t) \<Rightarrow> Some (Inl e, t)
            | (Inr all, t) \<Rightarrow>
                (case filter (\<lambda>c. ms_id c = transaction_id) all of
                   [] \<Rightarrow> Some (Inl (OtherException ''Transaction not found''), t)
                 | c # _ \<Rightarrow> multisig_poll E a transaction_id c t)))"

definition multisig_wait :: "env \<Rightarrow> int \<Rightarrow> ms_content \<Rightarrow> ('m world_scheme, ms_content) py" where
  "multisig_wait E a content s =
     (case multisig_poll E a (ms_id content) content s of
        None \<Rightarrow> Diverge
      | Some (Inl e, t) \<Rightarrow> Exc e t
      | Some (Inr c, t) \<Rightarrow> Ret c t)"

definition multisig_post :: "env \<Rightarrow> int \<Rightarrow> invoke_tx \<Rightarrow> string list \<Rightarrow> ('m world_scheme, ms_response) py" where
  "multisig_post E a tx entrypoints =
     seq (get_option KeyError (nw_argent_multisig_api (network E)))
         (ask (MultisigPost a tx entrypoints) (\<lambda>h. o_multisig_post E h a))"

definition execute_multisig ::
    "env \<Rightarrow> account \<Rightarrow> call list \<Rightarrow> invoke_tx \<Rightarrow> ('m world_scheme, response) py" where
  "execute_multisig E account calls tx =
     (let a = ac_address account
      in bnd (comprehend (\<lambda>c. lookup_key selector_to_name (c_selector c)) calls) (\<lambda>entrypoints.
         bnd (multisig_post E a tx entrypoints) (\<lambda>response.
         bnd (if ms_status response = Some ''transactionForMultisigBeingSubmitted''
              then seq (emit (Sleep (PInt 5))) (multisig_post E a tx entrypoints)
              else ret response) (\<lambda>response.
         bnd (get_option (ValueError ''Multisig transaction rejected'') (ms_content response)) (\<lambda>content.
         bnd (multisig_wait E a content) (\<lambda>content.
         ret (MultisigDict (ms_hash content) (ms_state content))))))))"

text \<open>\<^verbatim>\<open>execute_v1\<close> below its decorator (\<^verbatim>\<open>execute_v1.__wrapped__\<close>).\<close>

definition execute_v1_wrapped :: "env \<Rightarrow> account \<Rightarrow> call list \<Rightarrow> ('m world_scheme, response) py" where
  "execute_v1_wrapped E account calls =
     (let a = ac_address account
      in bnd (ask (CairoVersion a) (\<lambda>h. o_cairo_version E h a)) (\<lambda>version.
         bnd (get_nonce E account) (\<lambda>nonce.
         let transaction = \<lparr>tx_sender = a, tx_calls = calls, tx_cairo_version = version,
               tx_nonce = nonce, tx_max_fee = max_fee_default E,
               tx_signature = sign_invoke E (ac_private_key account) a calls version
                 (max_fee_default E) (nw_chain_id (network E)) nonce\<rparr>
         in bnd (gets (\<lambda>s. multisig_accounts s a)) (\<lambda>multisig.
            if multisig then execute_multisig E account calls transaction
            else bnd (ask (AddInvoke transaction) (\<lambda>h. o_add_invoke E h transaction)) (\<lambda>tx_hash.
                 bnd (wait_for_transaction E tx_hash (Some account)) (\<lambda>_.
                 ret (SentTx tx_hash)))))))"

fun extend_log :: "account \<Rightarrow> call list \<Rightarrow> (account \<times> call list) list \<Rightarrow> (account \<times> call list) list" where
  "extend_log a cs [] = [(a, cs)]"
| "extend_log a cs ((b, ds) # r) = (if b = a then (b, ds @ cs) # r else (b, ds) # extend_log a cs r)"

text \<open>\<^verbatim>\<open>execute_v1\<close> with the decorator \<^verbatim>\<open>lazy_execute\<close>.\<close>

definition execute_v1 :: "env \<Rightarrow> account \<Rightarrow> call list \<Rightarrow> ('m world_scheme, response) py" where
  "execute_v1 E account calls =
     bnd (gets (\<lambda>s. lazy_accounts s (ac_address account))) (\<lambda>lazy.
       if lazy
       then seq (modify (\<lambda>s. s\<lparr>logs := extend_log account calls (logs s)\<rparr>)) (ret NoResponse)
       else execute_v1_wrapped E account calls)"

definition execute_calls :: "env \<Rightarrow> ('m world_scheme, unit) py" where
  "execute_calls E =
     bnd (gets logs) (\<lambda>ls.
       seq (for_each ls (\<lambda>(a, cs). seq (execute_v1_wrapped E a cs) (ret ())))
           (modify (\<lambda>s. s\<lparr>logs := []\<rparr>)))"

section \<open>The nonce contract\<close>

interpretation sn_nonce: nonce_counter nonces store_nonce "ask_nonce E a" "emit (Sleep d)"
    "\<lambda>s n. o_pending_nonce E (trace s) a = Inr n" for E a d
  by unfold_locales
    (auto simp: store_nonce_def ask_nonce_def rel_py_def py_run split: sum.splits)

lemma store_nonce_quiet: "rel_py quiet (modify (store_nonce k n))"
  by (auto simp: rel_py_def modify_def store_nonce_def intro: quiet_nonces_update)

lemma ask_nonce_quiet: "rel_py quiet (ask_nonce E a)"
  unfolding ask_nonce_def by (rule ask_quiet) simp

lemma get_nonce_quiet: "rel_py quiet (get_nonce E account)"
  unfolding get_nonce_def
  by (intro quiet.next_nonce_rel store_nonce_quiet ask_nonce_quiet emit_quiet) simp

text \<open>The nonce a transaction gets is the last pending nonce the network reported, and the
  dictionary is left one ahead of it for that account and unchanged for every other.\<close>

theorem get_nonce_spec:
  assumes "get_nonce E account s = Ret n t"
  shows "nonces t = (nonces s)(ac_address account \<mapsto> n + 1) \<and>
    o_pending_nonce E (trace t) (ac_address account) = Inr n"
  using assms sn_nonce.next_nonce_Ret unfolding get_nonce_def by blast

lemma get_nonce_spec_witness:
  "\<exists>t. get_nonce dev_env (dev_account 9) dev_world = Ret 0 t \<and> nonces t = [9 \<mapsto> 1]"
proof -
  have "\<exists>t. get_nonce dev_env (dev_account 9) dev_world = Ret 0 t"
    by (simp add: get_nonce_def next_nonce_def ask_nonce_def store_nonce_def py_run eval_nat_numeral)
  then obtain t where run: "get_nonce dev_env (dev_account 9) dev_world = Ret 0 t" by blast
  from get_nonce_spec [OF this] run show ?thesis by simp
qed

section \<open>Waiting and releasing\<close>

lemma release_nonce_quiet: "rel_py quiet (release_nonce a)"
  unfolding release_nonce_def by (intro quiet.rules quiet.lookups store_nonce_quiet)

lemma wait_for_transaction_quiet: "rel_py quiet (wait_for_transaction E h acc)"
  unfolding wait_for_transaction_def
  by (auto intro!: quiet.rules release_nonce_quiet ask_quiet split: option.split)

text \<open>A rejected transaction gives its nonce back; any other end keeps it used.\<close>

lemma wait_for_transaction_nonces:
  assumes "wait_for_transaction E h (Some acc) s = Ret st t"
    and "num_truediv (nw_max_wait (network E)) (nw_check_interval (network E)) = Inr q"
    and "nonces s (ac_address acc) = Some n"
  shows "nonces t = (nonces s)(ac_address acc \<mapsto>
    (case o_wait_for_tx E (trace t) h of
       Inl e \<Rightarrow> if is_rejected e then n - 1 else n | Inr _ \<Rightarrow> n))"
  using assms
  by (auto simp: wait_for_transaction_def release_nonce_def store_nonce_def py_run fun_upd_idem
      split: sum.splits if_splits)

section \<open>The multisig path\<close>

lemma multisig_poll_spec:
  assumes "multisig_poll E a tid content s = Some (r, t)"
  shows "(\<exists>evs. t = s\<lparr>trace := trace s @ evs\<rparr> \<and> sent_txs evs = []) \<and>
    (\<forall>c. r = Inr c \<longrightarrow> ms_terminal (ms_state c) \<and> (c = content \<or> ms_id c = tid))"
proof (rule multisig_poll.raw_induct [where P = "\<lambda>E a tid content s (r, t).
      (\<exists>evs. t = s\<lparr>trace := trace s @ evs\<rparr> \<and> sent_txs evs = []) \<and>
      (\<forall>c. r = Inr c \<longrightarrow> ms_terminal (ms_state c) \<and> (c = content \<or> ms_id c = tid))",
      OF _ assms, unfolded prod.case], goal_cases)
  case (1 poll E a tid content s rt)
  show ?case
  proof (cases "ms_terminal (ms_state content)")
    case True
    have "s = s\<lparr>trace := trace s @ []\<rparr>" by simp
    then show ?thesis using 1(2) True by (fastforce intro: exI [of _ "[]"])
  next
    case False
    let ?u = "s\<lparr>trace := trace s @ [Sleep (PInt 5), MultisigGet a]\<rparr>"
    show ?thesis
    proof (cases "o_multisig_get E (trace ?u) a")
      case (Inl e)
      with 1(2) False show ?thesis by (auto simp: ms_fetch_def Let_def)
    next
      case (Inr all)
      show ?thesis
      proof (cases "filter (\<lambda>c. ms_id c = tid) all")
        case Nil
        with 1(2) False Inr show ?thesis by (auto simp: ms_fetch_def Let_def)
      next
        case (Cons c cs)
        then have "c \<in> set (filter (\<lambda>c. ms_id c = tid) all)" by simp
        then have id: "ms_id c = tid" by simp
        from Cons 1(2) False Inr have "poll E a tid c ?u = Some rt"
          by (simp add: ms_fetch_def Let_def)
        with 1(1) [of E a tid c ?u rt] id show ?thesis by auto
      qed
    qed
  qed
qed

lemma trace_only_quiet: "sent_txs evs = [] \<Longrightarrow> quiet s (s\<lparr>trace := trace s @ evs\<rparr>)"
  by (rule quiet_trace_update)

lemma multisig_wait_quiet: "rel_py quiet (multisig_wait E a content)"
  unfolding rel_py_def multisig_wait_def
  by (auto split: option.splits sum.splits dest!: multisig_poll_spec intro: trace_only_quiet)

lemma multisig_wait_Ret:
  "multisig_wait E a content s = Ret c t \<Longrightarrow> ms_terminal (ms_state c) \<and> ms_id c = ms_id content"
  by (auto simp: multisig_wait_def split: option.splits sum.splits dest!: multisig_poll_spec)

lemma multisig_post_quiet: "rel_py quiet (multisig_post E a tx names)"
  unfolding multisig_post_def by (intro quiet.rules quiet.lookups ask_quiet) simp

lemma execute_multisig_quiet: "rel_py quiet (execute_multisig E account calls tx)"
  unfolding execute_multisig_def Let_def
  by (intro quiet.rules quiet.lookups multisig_post_quiet multisig_wait_quiet emit_quiet) simp

text \<open>C19. The multisig path never submits a transaction to the node itself, and when it returns,
  the reported state is one of the three final ones: pending requests are waited for, without a
  bound on the wait.\<close>

theorem multisig_returns_final:
  assumes "execute_multisig E account calls tx s = Ret r t"
  shows "sent_txs (trace t) = sent_txs (trace s) \<and> (\<exists>h st. r = MultisigDict h st \<and> ms_terminal st)"
proof
  show "sent_txs (trace t) = sent_txs (trace s)"
    using rel_pyD_Ret [OF execute_multisig_quiet assms] by (rule quiet_sent)
  show "\<exists>h st. r = MultisigDict h st \<and> ms_terminal st"
    using assms unfolding execute_multisig_def Let_def
    by (auto elim!: bnd_RetE dest!: multisig_wait_Ret simp: ret_def)
qed

lemma multisig_returns_final_witness:
  "\<exists>t. execute_multisig dev_env (dev_account 9) [] undefined dev_world =
      Ret (MultisigDict ''0x2'' ''TX_ACCEPTED_L2'') t \<and> sent_txs (trace t) = []"
proof -
  have "\<exists>t. execute_multisig dev_env (dev_account 9) [] undefined dev_world =
      Ret (MultisigDict ''0x2'' ''TX_ACCEPTED_L2'') t"
    by (simp add: execute_multisig_def multisig_post_def multisig_wait_def multisig_poll.simps
        ms_fetch_def ms_terminal_def dev_env_def dev_network_def py_run)
  then obtain t where run: "execute_multisig dev_env (dev_account 9) [] undefined dev_world =
      Ret (MultisigDict ''0x2'' ''TX_ACCEPTED_L2'') t" by blast
  from multisig_returns_final [OF this] run show ?thesis by simp
qed

section \<open>Plain execution\<close>

definition submitted :: "'m world_scheme \<Rightarrow> (int \<times> call list) list" where
  "submitted s = map (\<lambda>tx. (tx_sender tx, tx_calls tx)) (sent_txs (trace s))"

lemma quiet_submitted: "quiet s t \<Longrightarrow> submitted t = submitted s"
  by (simp add: submitted_def quiet_sent)

text \<open>\<open>one_tx p\<close>: at most one transaction is submitted, and it is \<open>p\<close>; the rest is quiet.\<close>

definition one_tx :: "int \<times> call list \<Rightarrow> 'm world_scheme \<Rightarrow> 'm world_scheme \<Rightarrow> bool" where
  "one_tx p s t \<longleftrightarrow> (\<exists>evs ns. t = s\<lparr>trace := trace s @ evs, nonces := ns\<rparr> \<and>
     (map (\<lambda>tx. (tx_sender tx, tx_calls tx)) (sent_txs evs) = [] \<or>
      map (\<lambda>tx. (tx_sender tx, tx_calls tx)) (sent_txs evs) = [p]))"

lemma quiet_one_tx: "quiet s t \<Longrightarrow> one_tx p s t"
  unfolding quiet_def one_tx_def by force

lemma one_tx_globals:
  assumes "one_tx p s t"
  shows "lazy_accounts t = lazy_accounts s" "multisig_accounts t = multisig_accounts s"
    "logs t = logs s" "submitted t = submitted s \<or> submitted t = submitted s @ [p]"
  using assms by (auto simp: one_tx_def submitted_def)

lemma submit_step:
  assumes "quiet s t" and "u = t\<lparr>trace := trace t @ [AddInvoke tx]\<rparr>" and "quiet u v"
  shows "one_tx (tx_sender tx, tx_calls tx) s v"
    and "submitted v = submitted s @ [(tx_sender tx, tx_calls tx)]"
    and "sent_txs (trace v) = sent_txs (trace s) @ [tx]"
proof -
  obtain e1 n1 e2 n2 where "t = s\<lparr>trace := trace s @ e1, nonces := n1\<rparr>" "sent_txs e1 = []"
    and "v = u\<lparr>trace := trace u @ e2, nonces := n2\<rparr>" "sent_txs e2 = []"
    using assms(1,3) unfolding quiet_def by blast
  then have v: "v = s\<lparr>trace := trace s @ (e1 @ AddInvoke tx # e2), nonces := n2\<rparr>"
    and sent: "sent_txs (e1 @ AddInvoke tx # e2) = [tx]"
    using assms(2) by simp_all
  show "one_tx (tx_sender tx, tx_calls tx) s v"
    unfolding one_tx_def using v sent by fastforce
  show "submitted v = submitted s @ [(tx_sender tx, tx_calls tx)]"
    and "sent_txs (trace v) = sent_txs (trace s) @ [tx]"
    using v sent by (simp_all add: submitted_def)
qed

lemma wait_for_transaction_total: "wait_for_transaction E h acc s \<noteq> Diverge"
  by (auto simp: wait_for_transaction_def release_nonce_def py_run
      split: sum.splits option.splits if_splits)

text \<open>Submitting a transaction after quiet steps, and waiting for it.\<close>

lemma submit_and_wait_cases:
  assumes "quiet s t" and p: "p = (tx_sender tx, tx_calls tx)"
  shows "case bnd (ask (AddInvoke tx) (\<lambda>h. o_add_invoke E h tx)) (\<lambda>tx_hash.
        bnd (wait_for_transaction E tx_hash acc) (\<lambda>_. ret (SentTx tx_hash))) t of
      Ret r u \<Rightarrow> one_tx p s u \<and> submitted u = submitted s @ [p] \<and> (\<exists>h. r = SentTx h)
    | Exc e u \<Rightarrow> one_tx p s u
    | Diverge \<Rightarrow> False"
proof (cases "o_add_invoke E (trace t @ [AddInvoke tx]) tx")
  case (Inl e)
  with submit_step(1) [OF assms(1) refl quiet.R_refl, of tx] p show ?thesis
    by (simp add: bnd_def ask_cases Let_def)
next
  case (Inr h)
  let ?u = "t\<lparr>trace := trace t @ [AddInvoke tx]\<rparr>"
  show ?thesis
  proof (cases "wait_for_transaction E h acc ?u")
    case (Ret st v)
    note q = rel_pyD_Ret [OF wait_for_transaction_quiet Ret]
    with submit_step [OF assms(1) refl q] Inr Ret p show ?thesis
      by (simp add: bnd_def ask_cases Let_def ret_def)
  next
    case (Exc e v)
    note q = rel_pyD_Exc [OF wait_for_transaction_quiet Exc]
    with submit_step [OF assms(1) refl q] Inr Exc p show ?thesis
      by (simp add: bnd_def ask_cases Let_def)
  qed (use wait_for_transaction_total in blast)
qed

lemma execute_v1_wrapped_cases:
  assumes "\<not> multisig_accounts s (ac_address account)"
  shows "case execute_v1_wrapped E account calls s of
      Ret r t \<Rightarrow> one_tx (ac_address account, calls) s t \<and>
        submitted t = submitted s @ [(ac_address account, calls)] \<and>
        (\<exists>h. r = SentTx h)
    | Exc e t \<Rightarrow> one_tx (ac_address account, calls) s t
    | Diverge \<Rightarrow> False"
proof -
  let ?a = "ac_address account"
  let ?v = "ask (CairoVersion ?a) (\<lambda>h. o_cairo_version E h ?a) s"
  have v: "rel_py quiet (ask (CairoVersion ?a) (\<lambda>h. o_cairo_version E h ?a))"
    by (rule ask_quiet) simp
  show ?thesis
  proof (cases ?v)
    case (Exc e t)
    then have "quiet s t" by (rule rel_pyD_Exc [OF v])
    with Exc show ?thesis by (simp add: execute_v1_wrapped_def Let_def bnd_def quiet_one_tx)
  next
    case Diverge
    then show ?thesis by (simp add: ask_cases Let_def split: sum.splits)
  next
    case V: (Ret version s1)
    then have q1: "quiet s s1" by (rule rel_pyD_Ret [OF v])
    show ?thesis
    proof (cases "get_nonce E account s1")
      case (Exc e t)
      then have "quiet s t" using q1 by (blast intro: quiet.R_trans dest: rel_pyD_Exc [OF get_nonce_quiet])
      with V Exc show ?thesis by (simp add: execute_v1_wrapped_def Let_def bnd_def quiet_one_tx)
    next
      case Diverge
      then show ?thesis by (simp add: get_nonce_def sn_nonce.next_nonce_total)
    next
      case N: (Ret nonce s2)
      then have q2: "quiet s s2" using q1 by (blast intro: quiet.R_trans dest: rel_pyD_Ret [OF get_nonce_quiet])
      then have m: "\<not> multisig_accounts s2 ?a" using assms by (simp add: quiet_globals)
      let ?tx = "\<lparr>tx_sender = ?a, tx_calls = calls, tx_cairo_version = version,
        tx_nonce = nonce, tx_max_fee = max_fee_default E,
        tx_signature = sign_invoke E (ac_private_key account) ?a calls version
          (max_fee_default E) (nw_chain_id (network E)) nonce\<rparr>"
      have "execute_v1_wrapped E account calls s = (bnd (ask (AddInvoke ?tx) (\<lambda>h. o_add_invoke E h ?tx)) (\<lambda>tx_hash.
          bnd (wait_for_transaction E tx_hash (Some account)) (\<lambda>_. ret (SentTx tx_hash)))) s2"
        using V N m by (simp add: execute_v1_wrapped_def Let_def bnd_Ret gets_def)
      with submit_and_wait_cases [OF q2, of "(?a, calls)" ?tx E "Some account"] show ?thesis by simp
    qed
  qed
qed

end
