(* ===== verification/Batch.thy ===== *)
theory Batch
  imports Execute
begin

text \<open>
  Lazy execution as a whole: what is collected by \<^verbatim>\<open>execute_v1\<close> for lazy accounts and what
  \<^verbatim>\<open>execute_calls\<close> makes of it.
\<close>

section \<open>The collected calls\<close>

text \<open>The calls of one account in a list of invocations, in order.\<close>

definition calls_of :: "account \<Rightarrow> (account \<times> call list) list \<Rightarrow> call list" where
  "calls_of a xs = concat (map snd (filter (\<lambda>p. fst p = a) xs))"

lemma calls_of_simps [simp]:
  "calls_of a [] = []"
  "calls_of a ((b, cs) # xs) = (if b = a then cs else []) @ calls_of a xs"
  "calls_of a (xs @ ys) = calls_of a xs @ calls_of a ys"
  by (simp_all add: calls_of_def)

lemma calls_of_absent: "a \<notin> fst ` set xs \<Longrightarrow> calls_of a xs = []"
  by (induction xs) auto

lemma calls_of_entry: "distinct (map fst l) \<Longrightarrow> (a, cs) \<in> set l \<Longrightarrow> calls_of a l = cs"
proof (induction l)
  case (Cons p l)
  obtain b ds where p: "p = (b, ds)" by (cases p)
  show ?case
  proof (cases "b = a")
    case True
    then have "a \<notin> fst ` set l" using Cons.prems(1) p by simp
    then show ?thesis using Cons.prems(2) True p by (force simp: calls_of_absent)
  next
    case False
    with Cons p show ?thesis by auto
  qed
qed simp

lemma extend_log_keys:
  "map fst (extend_log a cs l) = (if a \<in> fst ` set l then map fst l else map fst l @ [a])"
  by (induction a cs l rule: extend_log.induct) auto

lemma extend_log_calls:
  "distinct (map fst l) \<Longrightarrow>
     calls_of b (extend_log a cs l) = calls_of b l @ (if b = a then cs else [])"
  by (induction a cs l rule: extend_log.induct) (auto simp: calls_of_absent)

definition collect :: "(account \<times> call list) list \<Rightarrow> (account \<times> call list) list \<Rightarrow> (account \<times> call list) list" where
  "collect invs l = foldl (\<lambda>l (a, cs). extend_log a cs l) l invs"

lemma collect_simps [simp]:
  "collect [] l = l" "collect ((a, cs) # invs) l = collect invs (extend_log a cs l)"
  by (simp_all add: collect_def)

lemma collect_distinct: "distinct (map fst l) \<Longrightarrow> distinct (map fst (collect invs l))"
  by (induction invs arbitrary: l) (auto simp: extend_log_keys)

lemma collect_keys: "fst ` set (collect invs l) = fst ` set l \<union> fst ` set invs"
proof (induction invs arbitrary: l)
  case (Cons p invs)
  obtain a cs where p: "p = (a, cs)" by (cases p)
  have "fst ` set (extend_log a cs l) = set (map fst (extend_log a cs l))" by simp
  also have "\<dots> = fst ` set l \<union> {a}" by (auto simp: extend_log_keys)
  finally show ?case using Cons.IH p by auto
qed simp

lemma collect_calls:
  "distinct (map fst l) \<Longrightarrow> calls_of a (collect invs l) = calls_of a l @ calls_of a invs"
proof (induction invs arbitrary: l)
  case (Cons p invs)
  obtain b cs where p: "p = (b, cs)" by (cases p)
  have "distinct (map fst (extend_log b cs l))"
    using collect_distinct [OF Cons.prems, of "[(b, cs)]"] by simp
  with Cons.IH Cons.prems p show ?case by (auto simp: extend_log_calls)
qed simp

definition invoke_all :: "env \<Rightarrow> (account \<times> call list) list \<Rightarrow> ('m world_scheme, unit) py" where
  "invoke_all E invs = for_each invs (\<lambda>(a, cs). seq (execute_v1 E a cs) (ret ()))"

lemma invoke_all_lazy:
  assumes "\<forall>(a, cs) \<in> set invs. lazy_accounts s (ac_address a)"
  shows "invoke_all E invs s = Ret () (s\<lparr>logs := collect invs (logs s)\<rparr>)"
  using assms
proof (induction invs arbitrary: s)
  case Nil
  then show ?case by (simp add: invoke_all_def ret_def)
next
  case (Cons p invs)
  obtain a cs where p: "p = (a, cs)" by (cases p)
  have "seq (execute_v1 E a cs) (ret ()) s = Ret () (s\<lparr>logs := extend_log a cs (logs s)\<rparr>)"
    using Cons.prems p by (simp add: execute_v1_def py_run)
  with Cons.IH [of "s\<lparr>logs := extend_log a cs (logs s)\<rparr>"] Cons.prems p show ?case
    by (simp add: invoke_all_def seq_def bnd_def)
qed

section \<open>The flush\<close>

abbreviation key_of :: "account \<times> call list \<Rightarrow> int \<times> call list" where
  "key_of \<equiv> \<lambda>(a, cs). (ac_address a, cs)"

abbreviation flush :: "env \<Rightarrow> (account \<times> call list) list \<Rightarrow> ('m world_scheme, unit) py" where
  "flush E ls \<equiv> for_each ls (\<lambda>(a, cs). seq (execute_v1_wrapped E a cs) (ret ()))"

lemma submitted_prefix_Cons:
  assumes "\<exists>k \<le> length ls. zs = (ys @ [key_of p]) @ map key_of (take k ls)"
  shows "\<exists>k \<le> length (p # ls). zs = ys @ map key_of (take k (p # ls))"
proof -
  obtain k where "k \<le> length ls" "zs = (ys @ [key_of p]) @ map key_of (take k ls)"
    using assms by blast
  then show ?thesis by (intro exI [of _ "Suc k"]) simp
qed

lemma submitted_prefix_first:
  assumes "zs = ys \<or> zs = ys @ [key_of p]"
  shows "\<exists>k \<le> length (p # ls). zs = ys @ map key_of (take k (p # ls))"
  using assms
proof
  assume "zs = ys"
  then show ?thesis by (intro exI [of _ 0]) simp
next
  assume "zs = ys @ [key_of p]"
  then show ?thesis by (intro exI [of _ 1]) simp
qed

lemma flush_cases:
  assumes "\<forall>(a, cs) \<in> set ls. \<not> multisig_accounts s (ac_address a)"
  shows "case flush E ls s of
      Ret u t \<Rightarrow> submitted t = submitted s @ map key_of ls \<and> logs t = logs s \<and>
        multisig_accounts t = multisig_accounts s
    | Exc e t \<Rightarrow> (\<exists>k \<le> length ls. submitted t = submitted s @ map key_of (take k ls)) \<and>
        logs t = logs s \<and> multisig_accounts t = multisig_accounts s
    | Diverge \<Rightarrow> False"
  using assms
proof (induction ls arbitrary: s)
  case Nil
  then show ?case by (simp add: ret_def)
next
  case (Cons p ls)
  obtain a cs where p: "p = (a, cs)" by (cases p)
  have m: "\<not> multisig_accounts s (ac_address a)" using Cons.prems p by auto
  note X = execute_v1_wrapped_cases [where E = E, OF m, of cs]
  show ?case
  proof (cases "execute_v1_wrapped E a cs s")
    case (Ret r u)
    with X have one: "one_tx (ac_address a, cs) s u"
      and sub: "submitted u = submitted s @ [(ac_address a, cs)]" by simp_all
    note G = one_tx_globals [OF one]
    have "\<forall>(a, cs) \<in> set ls. \<not> multisig_accounts u (ac_address a)"
      using Cons.prems G(2) by auto
    note IH = Cons.IH [OF this]
    have run: "flush E (p # ls) s = flush E ls u"
      using Ret p by (simp add: seq_def bnd_def ret_def)
    show ?thesis
      unfolding run
    proof (cases "flush E ls u", goal_cases)
      case (1 v t)
      with IH G sub p show ?case by simp
    next
      case (2 e t)
      with IH sub p have "\<exists>k \<le> length (p # ls). submitted t = submitted s @ map key_of (take k (p # ls))"
        by (intro submitted_prefix_Cons) simp
      with 2 IH G show ?case by simp
    next
      case 3
      with IH show ?case by simp
    qed
  next
    case (Exc e t)
    with X have "one_tx (ac_address a, cs) s t" by simp
    note G = one_tx_globals [OF this]
    have "\<exists>k \<le> length (p # ls). submitted t = submitted s @ map key_of (take k (p # ls))"
      using G(4) p by (intro submitted_prefix_first) auto
    with Exc G p show ?thesis by (simp add: seq_def bnd_def)
  next
    case Diverge
    with X show ?thesis by simp
  qed
qed

lemma execute_calls_Ret:
  assumes "execute_calls E s = Ret u t"
    and "\<forall>(a, cs) \<in> set (logs s). \<not> multisig_accounts s (ac_address a)"
  shows "submitted t = submitted s @ map key_of (logs s)" and "logs t = []"
  using flush_cases [OF assms(2), of E] assms(1)
  by (auto simp: execute_calls_def py_run submitted_def split: outcome.splits)

lemma execute_calls_Exc:
  assumes "execute_calls E s = Exc e t"
    and "\<forall>(a, cs) \<in> set (logs s). \<not> multisig_accounts s (ac_address a)"
  shows "\<exists>k \<le> length (logs s). submitted t = submitted s @ map key_of (take k (logs s))"
    and "logs t = logs s" and "multisig_accounts t = multisig_accounts s"
  using flush_cases [OF assms(2), of E] assms(1)
  by (auto simp: execute_calls_def py_run split: outcome.splits)

text \<open>C7. Lazy execution loses, repeats and reorders nothing: after any sequence of invocations
  by lazy accounts and one \<open>execute_calls\<close>, every account that invoked something has submitted
  exactly one transaction, and it holds all its calls in the order they were made.\<close>

theorem lazy_then_flush:
  assumes "\<forall>(a, cs) \<in> set invs. lazy_accounts s (ac_address a) \<and> \<not> multisig_accounts s (ac_address a)"
    and "logs s = []"
    and "seq (invoke_all E invs) (execute_calls E) s = Ret () t"
  shows "\<exists>batch. submitted t = submitted s @ map (\<lambda>(a, cs). (ac_address a, cs)) batch \<and>
    distinct (map fst batch) \<and> fst ` set batch = fst ` set invs \<and>
    (\<forall>(a, cs) \<in> set batch. cs = calls_of a invs) \<and> logs t = []"
proof -
  let ?b = "collect invs []" and ?s = "s\<lparr>logs := collect invs []\<rparr>"
  have inv: "invoke_all E invs s = Ret () ?s"
    using invoke_all_lazy [of invs s E] assms(1,2) by fastforce
  then have run: "execute_calls E ?s = Ret () t"
    using assms(3) by (simp add: seq_def bnd_def)
  have "fst ` set ?b = fst ` set invs" by (simp add: collect_keys)
  moreover have "distinct (map fst ?b)" by (simp add: collect_distinct)
  moreover have "cs = calls_of a invs" if "(a, cs) \<in> set ?b" for a cs
    using calls_of_entry [OF \<open>distinct (map fst ?b)\<close> that] by (simp add: collect_calls)
  moreover have "\<forall>(a, cs) \<in> set (logs ?s). \<not> multisig_accounts ?s (ac_address a)"
    using assms(1) \<open>fst ` set ?b = fst ` set invs\<close> by (auto simp: image_iff) force
  ultimately show ?thesis
    using execute_calls_Ret [OF run] by (intro exI [of _ ?b]) (auto simp: submitted_def)
qed

lemma dev_lazy_run:
  "\<exists>t. seq (invoke_all dev_env [(dev_account 9, [c]), (dev_account 9, [d])]) (execute_calls dev_env)
     (dev_world\<lparr>lazy_accounts := (\<lambda>_. True)\<rparr>) = Ret () t"
  by (simp add: invoke_all_def execute_calls_def execute_v1_def execute_v1_wrapped_def get_nonce_def
      next_nonce_def ask_nonce_def store_nonce_def wait_for_transaction_def py_run Let_def
      eval_nat_numeral)

lemma lazy_then_flush_witness:
  "\<exists>t. seq (invoke_all dev_env [(dev_account 9, [dev_call 1]), (dev_account 9, [dev_call 2])]) (execute_calls dev_env)
     (dev_world\<lparr>lazy_accounts := (\<lambda>_. True)\<rparr>) = Ret () t \<and> submitted t = [(9, [dev_call 1, dev_call 2])]"
proof -
  let ?invs = "[(dev_account 9, [dev_call 1]), (dev_account 9, [dev_call 2])]"
  let ?s = "dev_world\<lparr>lazy_accounts := (\<lambda>_. True)\<rparr>"
  obtain t where run: "seq (invoke_all dev_env ?invs) (execute_calls dev_env) ?s = Ret () t"
    using dev_lazy_run by blast
  have "\<exists>batch. submitted t = submitted ?s @ map (\<lambda>(a, cs). (ac_address a, cs)) batch \<and>
    distinct (map fst batch) \<and> fst ` set batch = fst ` set ?invs \<and>
    (\<forall>(a, cs) \<in> set batch. cs = calls_of a ?invs) \<and> logs t = []"
    by (rule lazy_then_flush [OF _ _ run]) simp_all
  then obtain batch where b: "submitted t = map (\<lambda>(a, cs). (ac_address a, cs)) batch"
    "distinct (map fst batch)" "set (map fst batch) = {dev_account 9}"
    "\<forall>(a, cs) \<in> set batch. cs = calls_of a ?invs"
    by (auto simp: submitted_def)
  have "length batch = 1"
    using distinct_card [OF b(2)] b(3) by simp
  then obtain p where "batch = [p]" by (auto simp: length_Suc_conv)
  with b have "submitted t = [(9, [dev_call 1, dev_call 2])]" by (cases p) simp
  with run show ?thesis by blast
qed

section \<open>After a failure\<close>

text \<open>C27. \<open>execute_calls\<close> clears the log only at its end.  When a transaction in the middle raises,
  the accounts before it have been served and are still in the log, so calling \<open>execute_calls\<close>
  again submits their calls a second time.\<close>

theorem execute_calls_retry_resends:
  assumes "execute_calls E s = Exc e t" and "execute_calls E t = Ret u v"
    and "\<forall>(a, cs) \<in> set (logs s). \<not> multisig_accounts s (ac_address a)"
  shows "\<exists>k \<le> length (logs s). submitted v = submitted s @
    map (\<lambda>(a, cs). (ac_address a, cs)) (take k (logs s)) @ map (\<lambda>(a, cs). (ac_address a, cs)) (logs s)"
proof -
  note X = execute_calls_Exc [OF assms(1,3)]
  obtain k where "k \<le> length (logs s)" "submitted t = submitted s @ map key_of (take k (logs s))"
    using X(1) by blast
  moreover have "submitted v = submitted t @ map key_of (logs t)"
    by (rule execute_calls_Ret(1) [OF assms(2)]) (use assms(3) X(2,3) in simp)
  ultimately show ?thesis using X(2) by auto
qed

text \<open>A network that fails once, at the second transaction.\<close>

definition flaky_env :: env where
  "flaky_env = dev_env\<lparr>o_add_invoke := (\<lambda>h tx.
     if length (sent_txs h) = 2 then Inl (ClientError 55 ''busy'') else Inr 1)\<rparr>"

definition flaky_world :: world where
  "flaky_world = dev_world\<lparr>logs := [(dev_account 1, []), (dev_account 2, [])]\<rparr>"

lemma flaky_env_sel [simp]:
  "network flaky_env = dev_network" "o_pending_nonce flaky_env = o_pending_nonce dev_env"
  "o_cairo_version flaky_env = (\<lambda>h a. Inr 1)" "o_wait_for_tx flaky_env = (\<lambda>h x. Inr ())"
  "o_add_invoke flaky_env = (\<lambda>h tx. if length (sent_txs h) = 2 then Inl (ClientError 55 ''busy'') else Inr 1)"
  by (simp_all add: flaky_env_def)

lemma flaky_run:
  "\<exists>t v. execute_calls flaky_env flaky_world = Exc (ClientError 55 ''busy'') t \<and>
     execute_calls flaky_env t = Ret () v \<and> map fst (submitted v) = [1, 2, 1, 2]"
  by (simp add: flaky_world_def execute_calls_def execute_v1_wrapped_def get_nonce_def submitted_def
      next_nonce_def ask_nonce_def store_nonce_def wait_for_transaction_def py_run Let_def
      eval_nat_numeral)

lemma execute_calls_retry_resends_witness:
  "\<exists>t v k. execute_calls flaky_env flaky_world = Exc (ClientError 55 ''busy'') t \<and>
     execute_calls flaky_env t = Ret () v \<and> map fst (submitted v) = [1, 2, 1, 2] \<and>
     submitted v = submitted flaky_world @ map (\<lambda>(a, cs). (ac_address a, cs)) (take k (logs flaky_world)) @
       map (\<lambda>(a, cs). (ac_address a, cs)) (logs flaky_world)"
proof -
  obtain t v where run: "execute_calls flaky_env flaky_world = Exc (ClientError 55 ''busy'') t"
    "execute_calls flaky_env t = Ret () v" "map fst (submitted v) = [1, 2, 1, 2]"
    using flaky_run by (elim exE conjE)
  from execute_calls_retry_resends [OF run(1,2)] run show ?thesis
    by (auto simp: flaky_world_def)
qed

end
