(* ===== verification/PyText.thy ===== *)
theory PyText
  imports "HOL-Library.Sublist" Prelude
begin

text \<open>
  Python's \<^verbatim>\<open>in\<close> on strings, \<^verbatim>\<open>str.replace\<close>, \<^verbatim>\<open>str.split\<close> on one separator, ASCII case, and the
  file name patterns of \<^verbatim>\<open>Path.glob\<close> (of the pattern language, the star: the patterns of the
  scripts use nothing else).
\<close>

fun contains :: "string \<Rightarrow> string \<Rightarrow> bool" where
  "contains p [] = (p = [])"
| "contains p (c # s) = (prefix p (c # s) \<or> contains p s)"

lemma contains_sublist: "contains p s \<longleftrightarrow> sublist p s"
  by (induction s) (auto simp: sublist_Cons_right)

lemma contains_append: "contains p (a @ p @ b)"
  by (simp add: contains_sublist sublist_appendI)

text \<open>\<^verbatim>\<open>fnmatch\<close> with stars.\<close>

fun fn_match :: "string \<Rightarrow> string \<Rightarrow> bool" where
  "fn_match [] s = (s = [])"
| "fn_match (c # p) [] = (c = CHR ''*'' \<and> fn_match p [])"
| "fn_match (c # p) (d # s) =
     (if c = CHR ''*'' then fn_match p (d # s) \<or> fn_match (c # p) s else c = d \<and> fn_match p s)"

lemma fn_match_star: "fn_match (CHR ''*'' # p) s \<longleftrightarrow> (\<exists>a b. s = a @ b \<and> fn_match p b)"
proof (induction s)
  case (Cons d s)
  show ?case
  proof
    assume "fn_match (CHR ''*'' # p) (d # s)"
    then consider "fn_match p (d # s)" | "fn_match (CHR ''*'' # p) s" by auto
    then show "\<exists>a b. d # s = a @ b \<and> fn_match p b"
    proof cases
      case 1
      then have "d # s = [] @ (d # s) \<and> fn_match p (d # s)" by simp
      then show ?thesis by blast
    next
      case 2
      with Cons.IH obtain a b where "s = a @ b" "fn_match p b" by blast
      then have "d # s = (d # a) @ b \<and> fn_match p b" by simp
      then show ?thesis by blast
    qed
  next
    assume "\<exists>a b. d # s = a @ b \<and> fn_match p b"
    then obtain a b where ab: "d # s = a @ b" "fn_match p b" by blast
    show "fn_match (CHR ''*'' # p) (d # s)"
    proof (cases a)
      case Nil
      with ab have "fn_match p (d # s)" by simp
      then show ?thesis by simp
    next
      case (Cons x a')
      with ab Cons.IH show ?thesis by auto
    qed
  qed
qed simp

lemma fn_match_plain:
  "CHR ''*'' \<notin> set p \<Longrightarrow> fn_match (p @ q) s \<longleftrightarrow> (\<exists>t. s = p @ t \<and> fn_match q t)"
proof (induction p arbitrary: s)
  case (Cons c p)
  then show ?case by (cases s) auto
qed simp

lemma fn_match_literal: "CHR ''*'' \<notin> set p \<Longrightarrow> fn_match p s \<longleftrightarrow> s = p"
  using fn_match_plain [of p "[]" s] by auto

text \<open>What \<^verbatim>\<open>glob(f"*{name}*{ext}")\<close> finds.\<close>

lemma fn_match_around:
  assumes "CHR ''*'' \<notin> set name" and "CHR ''*'' \<notin> set ext"
  shows "fn_match (CHR ''*'' # name @ CHR ''*'' # ext) s \<longleftrightarrow> (\<exists>a b. s = a @ name @ b @ ext)"
  by (auto simp: fn_match_star fn_match_plain [OF assms(1)] fn_match_literal [OF assms(2)])

section \<open>Case and separators\<close>

definition is_upper :: "char \<Rightarrow> bool" where
  "is_upper c \<longleftrightarrow> 65 \<le> (of_char c :: nat) \<and> (of_char c :: nat) \<le> 90"

definition lower :: "char \<Rightarrow> char" where
  "lower c = (if is_upper c then char_of (of_char c + 32 :: nat) else c)"

definition is_lower :: "char \<Rightarrow> bool" where
  "is_lower c \<longleftrightarrow> 97 \<le> (of_char c :: nat) \<and> (of_char c :: nat) \<le> 122"

definition upper :: "char \<Rightarrow> char" where
  "upper c = (if is_lower c then char_of (of_char c - 32 :: nat) else c)"

lemma lower_not_upper [simp]: "\<not> is_upper (lower c)"
  by (auto simp: lower_def is_upper_def)

lemma lower_idem [simp]: "lower (lower c) = lower c"
  using lower_not_upper [of c] by (simp add: lower_def [of "lower c"])

text \<open>Decimal digits, and \<^verbatim>\<open>int(text)\<close> for a text of digits.\<close>

definition is_digit :: "char \<Rightarrow> bool" where
  "is_digit c \<longleftrightarrow> 48 \<le> (of_char c :: nat) \<and> (of_char c :: nat) \<le> 57"

definition dec_value :: "string \<Rightarrow> int" where
  "dec_value = foldl (\<lambda>n c. 10 * n + (of_char c - 48)) 0"

text \<open>\<^verbatim>\<open>s.split(sep)\<close> for a one-character separator and \<^verbatim>\<open>sep.join(parts)\<close>.\<close>

fun split_on :: "char \<Rightarrow> string \<Rightarrow> string list" where
  "split_on sep [] = [[]]"
| "split_on sep (c # s) =
     (if c = sep then [] # split_on sep s
      else (case split_on sep s of p # ps \<Rightarrow> (c # p) # ps | [] \<Rightarrow> [[c]]))"

fun join_with :: "char \<Rightarrow> string list \<Rightarrow> string" where
  "join_with sep [] = []"
| "join_with sep [p] = p"
| "join_with sep (p # q # ps) = p @ sep # join_with sep (q # ps)"

lemma split_on_nonempty [simp]: "split_on sep s \<noteq> []"
  by (induction s) (auto split: list.split)

lemma join_split: "join_with sep (split_on sep s) = s"
proof (induction s)
  case (Cons c s)
  obtain p ps where "split_on sep s = p # ps" by (meson split_on_nonempty neq_Nil_conv)
  with Cons show ?case by (cases ps) auto
qed simp

lemma split_plain: "sep \<notin> set p \<Longrightarrow> split_on sep p = [p]"
  by (induction p) auto

lemma split_cons: "sep \<notin> set p \<Longrightarrow> split_on sep (p @ sep # s) = p # split_on sep s"
  by (induction p) auto

lemma split_join: "ps \<noteq> [] \<Longrightarrow> \<forall>p \<in> set ps. sep \<notin> set p \<Longrightarrow> split_on sep (join_with sep ps) = ps"
  by (induction sep ps rule: join_with.induct) (auto simp: split_plain split_cons)

text \<open>\<^verbatim>\<open>s.replace(old, new)\<close> for one character and any replacement.\<close>

definition replace_char :: "char \<Rightarrow> string \<Rightarrow> string \<Rightarrow> string" where
  "replace_char old new s = concat (map (\<lambda>c. if c = old then new else [c]) s)"

end
