(* ===== verification/StarknetFiles.thy ===== *)
theory StarknetFiles
  imports PyText World Devnet
begin

text \<open>
  The files of \<^verbatim>\<open>kakarot_scripts/utils/starknet.py\<close>: the JSON objects for class hashes,
  declarations and deployments, the lookup of compilation artifacts, the search for the root of a
  Scarb package and the compiler invocations.  A JSON object is the list of its entries in
  order, a Python dictionary of the scripts likewise.
\<close>

section \<open>JSON objects of addresses\<close>

text \<open>\<^verbatim>\<open>{name: hex(value) ...}\<close> and \<^verbatim>\<open>{name: int(value, 16) ...}\<close>\<close>

definition hex_entries :: "(string \<times> int) list \<Rightarrow> (string \<times> string) list" where
  "hex_entries = map (\<lambda>(name, v). (name, py_hex v))"

definition int_entries :: "(string \<times> string) list \<Rightarrow> exn + (string \<times> int) list" where
  "int_entries = map_sum_list (\<lambda>(name, t). bind_sum (int16 t) (\<lambda>v. Inr (name, v)))"

definition dump_class_hashes :: "(string \<times> int) list \<Rightarrow> ('m world_scheme, unit) py" where
  "dump_class_hashes class_hashes =
     seq (emit (FileWrite ''build/class_hashes.json''))
         (modify (\<lambda>s. s\<lparr>class_hashes_file := Some (hex_entries class_hashes)\<rparr>))"

definition get_class_hashes :: "('m world_scheme, (string \<times> int) list) py" where
  "get_class_hashes =
     bnd (gets class_hashes_file) (\<lambda>f.
     bnd (get_option FileNotFoundError f) (\<lambda>entries.
     lift_sum (int_entries entries)))"

definition dump_declarations :: "(string \<times> int) list \<Rightarrow> ('m world_scheme, unit) py" where
  "dump_declarations declarations =
     seq (emit (FileWrite ''declarations.json''))
         (modify (\<lambda>s. s\<lparr>declarations_file := Some (hex_entries declarations)\<rparr>))"

definition get_declarations :: "('m world_scheme, (string \<times> int) list) py" where
  "get_declarations =
     bnd (gets declarations_file) (\<lambda>f.
     bnd (get_option FileNotFoundError f) (\<lambda>entries.
     lift_sum (int_entries entries)))"

definition dump_deployments :: "(string \<times> int) list \<Rightarrow> ('m world_scheme, unit) py" where
  "dump_deployments deployments =
     seq (emit (FileWrite ''deployments.json''))
         (modify (\<lambda>s. s\<lparr>deployments_file := Some (hex_entries deployments)\<rparr>))"

definition get_deployments :: "('m world_scheme, (string \<times> int) list) py" where
  "get_deployments =
     bnd (gets deployments_file) (\<lambda>f.
       case f of None \<Rightarrow> ret [] | Some entries \<Rightarrow> lift_sum (int_entries entries))"

lemma int_hex_entries: "int_entries (hex_entries ds) = Inr ds"
proof -
  have "\<forall>(k, v) \<in> set ds. True" by simp
  from hex_text.values_roundtrip [OF this] show ?thesis
    by (simp add: int_entries_def hex_entries_def)
qed

lemma files_rel [frame]:
  assumes "\<And>s. R s s"
  shows "rel_py R get_class_hashes" "rel_py R get_declarations" "rel_py R get_deployments"
  by (auto simp: rel_py_def get_class_hashes_def get_declarations_def get_deployments_def py_run assms
      split: option.split sum.split)

text \<open>Addresses survive the files: what is dumped is what is read back, entry by entry and in
  order, for class hashes, declarations and deployments, whatever integers they hold.\<close>

theorem dump_get_roundtrip:
  "(\<exists>t. seq (dump_class_hashes ds) get_class_hashes s = Ret ds t) \<and>
   (\<exists>t. seq (dump_declarations ds) get_declarations s = Ret ds t) \<and>
   (\<exists>t. seq (dump_deployments ds) get_deployments s = Ret ds t)"
  by (simp add: dump_class_hashes_def get_class_hashes_def dump_declarations_def get_declarations_def
      dump_deployments_def get_deployments_def int_hex_entries py_run)

section \<open>Artifacts\<close>

text \<open>Paths are lists of components, here below the directory that is searched.\<close>

record artifact =
  ar_sierra :: "string list option"
  ar_casm :: "string list"

definition zero_pattern :: "string \<Rightarrow> string" where
  "zero_pattern name = CHR ''*'' # name @ CHR ''*'' # ''.json''"

definition one_pattern :: "string \<Rightarrow> string" where
  "one_pattern name = CHR ''*'' # (CHR ''_'' # name @ ''.'') @ CHR ''*'' # ''.json''"

definition is_sierra_name :: "string \<Rightarrow> bool" where
  "is_sierra_name f \<longleftrightarrow> contains ''sierra.json'' f \<or> contains ''.contract_class.json'' f"

definition order_artifacts :: "string list list \<Rightarrow> exn + artifact" where
  "order_artifacts artifacts =
     (let ordered = (if is_sierra_name (last (hd artifacts)) then artifacts else rev artifacts)
      in case ordered of
           [sierra, casm] \<Rightarrow> Inr \<lparr>ar_sierra = Some sierra, ar_casm = casm\<rparr>
         | _ \<Rightarrow> Inl (ValueError ''unpack''))"

definition get_artifact :: "env \<Rightarrow> string \<Rightarrow> exn + artifact" where
  "get_artifact E name =
     (case filter (fn_match (zero_pattern name)) (build_files E) of
        a # _ \<Rightarrow> Inr \<lparr>ar_sierra = None, ar_casm = [''build'', a]\<rparr>
      | [] \<Rightarrow>
          (let ssj = filter (\<lambda>p. fn_match (one_pattern name) (last p)) (ssj_files E);
               cairo = filter (\<lambda>p. \<not> contains ''test'' (join_with (CHR ''/'') (''cairo'' # p)))
                 (filter (\<lambda>p. fn_match (one_pattern name) (last p)) (cairo_files E));
               artifacts = (if ssj \<noteq> [] then map (\<lambda>p. ''build'' # ''ssj'' # p) ssj
                            else map (\<lambda>p. ''cairo'' # p) cairo)
           in if artifacts \<noteq> [] then order_artifacts artifacts else Inl FileNotFoundError))"

definition get_abi :: "env \<Rightarrow> string \<Rightarrow> exn + string list" where
  "get_abi E name =
     bind_sum (get_artifact E name) (\<lambda>a.
       let path = (case ar_sierra a of Some p \<Rightarrow> p | None \<Rightarrow> ar_casm a)
       in bind_sum (abi_text E path) (\<lambda>_. Inr path))"

definition get_cairo_version :: "env \<Rightarrow> string \<Rightarrow> exn + bool" where
  "get_cairo_version E name =
     bind_sum (get_artifact E name) (\<lambda>a. Inr (ar_sierra a \<noteq> None))"

definition get_tx_url :: "env \<Rightarrow> int \<Rightarrow> string" where
  "get_tx_url E tx_hash = nw_explorer_url (network E) @ ''/tx/0x'' @ fmt_hex 64 tx_hash"

lemma zero_pattern_match:
  "CHR ''*'' \<notin> set name \<Longrightarrow> fn_match (zero_pattern name) f \<longleftrightarrow> (\<exists>a b. f = a @ name @ b @ ''.json'')"
  unfolding zero_pattern_def by (rule fn_match_around) auto

lemma one_pattern_match:
  assumes "CHR ''*'' \<notin> set name"
  shows "fn_match (one_pattern name) f \<longleftrightarrow> (\<exists>a b. f = a @ ''_'' @ name @ ''.'' @ b @ ''.json'')"
proof -
  have "fn_match (CHR ''*'' # (CHR ''_'' # name @ ''.'') @ CHR ''*'' # ''.json'') f \<longleftrightarrow>
      (\<exists>a b. f = a @ (CHR ''_'' # name @ ''.'') @ b @ ''.json'')"
    by (rule fn_match_around) (use assms in auto)
  then show ?thesis by (simp add: one_pattern_def)
qed

text \<open>The order in which the file system lists the two files of a Cairo 1 contract does not
  matter: the one named as a Sierra class is taken as the Sierra class, provided no Cairo 0
  artifact hides them.\<close>

theorem get_artifact_cairo1:
  assumes "\<forall>f \<in> set (build_files E). \<not> fn_match (zero_pattern name) f"
    and "filter (\<lambda>p. fn_match (one_pattern name) (last p)) (ssj_files E) \<in> {[p, q], [q, p]}"
    and "is_sierra_name (last p)" and "\<not> is_sierra_name (last q)" and "p \<noteq> []" and "q \<noteq> []"
  shows "get_artifact E name =
    Inr \<lparr>ar_sierra = Some (''build'' # ''ssj'' # p), ar_casm = ''build'' # ''ssj'' # q\<rparr> \<and>
    get_cairo_version E name = Inr True"
proof -
  have "filter (fn_match (zero_pattern name)) (build_files E) = []"
    using assms(1) by (simp add: filter_empty_conv)
  moreover have "filter (\<lambda>p. fn_match (one_pattern name) (last p)) (ssj_files E) = [p, q] \<or>
      filter (\<lambda>p. fn_match (one_pattern name) (last p)) (ssj_files E) = [q, p]"
    using assms(2) by simp
  ultimately show ?thesis
    using assms(3-) by (auto simp: get_artifact_def order_artifacts_def get_cairo_version_def Let_def)
qed

text \<open>A Cairo 0 artifact is looked up by a part of its file name: every name the build directory
  holds is found, and what is found has the name in it, but a contract whose name is part of
  another one's is answered with the other one's artifact when that is listed first.\<close>

theorem get_artifact_cairo0:
  assumes "CHR ''*'' \<notin> set name" and "name @ ''.json'' \<in> set (build_files E)"
  shows "\<exists>g a b. get_artifact E name = Inr \<lparr>ar_sierra = None, ar_casm = [''build'', g]\<rparr> \<and>
    g \<in> set (build_files E) \<and> g = a @ name @ b @ ''.json'' \<and>
    (build_files E = g # tl (build_files E) \<or> \<not> fn_match (zero_pattern name) (hd (build_files E)))"
proof -
  let ?m = "filter (fn_match (zero_pattern name)) (build_files E)"
  have "fn_match (zero_pattern name) (name @ ''.json'')"
    unfolding zero_pattern_match [OF assms(1)] by (metis append_Nil)
  with assms(2) have "name @ ''.json'' \<in> set ?m" by simp
  then obtain g gs where m: "?m = g # gs" by (cases ?m) auto
  then have g: "g \<in> set (build_files E)" "fn_match (zero_pattern name) g"
    using filter_eq_ConsD [OF m] by auto
  obtain x xs where x: "build_files E = x # xs" using assms(2) by (cases "build_files E") auto
  have "build_files E = g # tl (build_files E) \<or> \<not> fn_match (zero_pattern name) (hd (build_files E))"
    using m x by (auto split: if_splits)
  with g m show ?thesis
    by (auto simp: get_artifact_def zero_pattern_match [OF assms(1)])
qed

definition fixture_env :: env where
  "fixture_env = dev_env\<lparr>build_files :=
     [''uninitialized_account_fixture.json'', ''uninitialized_account.json'']\<rparr>"

lemma fixture_match:
  "filter (fn_match (zero_pattern ''uninitialized_account''))
     [''uninitialized_account_fixture.json'', ''uninitialized_account.json''] =
   [''uninitialized_account_fixture.json'', ''uninitialized_account.json'']"
  by code_simp

lemma get_artifact_cairo0_witness:
  "(\<exists>g a b. get_artifact fixture_env ''uninitialized_account'' =
      Inr \<lparr>ar_sierra = None, ar_casm = [''build'', g]\<rparr> \<and> g = a @ ''uninitialized_account'' @ b @ ''.json'') \<and>
   get_artifact fixture_env ''uninitialized_account'' =
      Inr \<lparr>ar_sierra = None, ar_casm = [''build'', ''uninitialized_account_fixture.json'']\<rparr>"
proof -
  have run: "get_artifact fixture_env ''uninitialized_account'' =
      Inr \<lparr>ar_sierra = None, ar_casm = [''build'', ''uninitialized_account_fixture.json'']\<rparr>"
    using fixture_match by (simp add: get_artifact_def fixture_env_def del: filter.simps)
  have star: "CHR ''*'' \<notin> set ''uninitialized_account''" by code_simp
  have "''uninitialized_account'' @ ''.json'' \<in> set (build_files fixture_env)"
    by (simp add: fixture_env_def)
  from get_artifact_cairo0 [OF star this] obtain g a b where
    "get_artifact fixture_env ''uninitialized_account'' = Inr \<lparr>ar_sierra = None, ar_casm = [''build'', g]\<rparr>"
    and "g = a @ ''uninitialized_account'' @ b @ ''.json''"
    by (elim exE conjE)
  with run show ?thesis by (intro conjI exI)
qed

definition helpers_env :: env where
  "helpers_env = dev_env\<lparr>build_files := [''ERC20.json''],
     ssj_files := [[''contracts_Cairo1Helpers.casm.json''], [''contracts_Cairo1Helpers.sierra.json'']]\<rparr>"

lemma helpers_match:
  "\<not> fn_match (zero_pattern ''Cairo1Helpers'') ''ERC20.json''"
  "filter (\<lambda>p. fn_match (one_pattern ''Cairo1Helpers'') (last p))
     [[''contracts_Cairo1Helpers.casm.json''], [''contracts_Cairo1Helpers.sierra.json'']] =
   [[''contracts_Cairo1Helpers.casm.json''], [''contracts_Cairo1Helpers.sierra.json'']]"
  "is_sierra_name ''contracts_Cairo1Helpers.sierra.json''"
  "\<not> is_sierra_name ''contracts_Cairo1Helpers.casm.json''"
  by code_simp+

lemma get_artifact_cairo1_witness:
  "get_artifact helpers_env ''Cairo1Helpers'' =
     Inr \<lparr>ar_sierra = Some [''build'', ''ssj'', ''contracts_Cairo1Helpers.sierra.json''],
          ar_casm = [''build'', ''ssj'', ''contracts_Cairo1Helpers.casm.json'']\<rparr>"
  using get_artifact_cairo1 [of helpers_env "''Cairo1Helpers''"
      "[''contracts_Cairo1Helpers.sierra.json'']" "[''contracts_Cairo1Helpers.casm.json'']"] helpers_match
  by (simp add: helpers_env_def del: filter.simps)

end
