(* ===== verification/Accounts.thy ===== *)
theory Accounts
  imports Batch StarknetFiles
begin

text \<open>
  Accounts and contracts of \<^verbatim>\<open>kakarot_scripts/utils/starknet.py\<close>: \<^verbatim>\<open>get_starknet_account\<close> with its
  probing of signer entry points and its cache, contract handles, \<^verbatim>\<open>invoke\<close> and \<^verbatim>\<open>call\<close>, balances and
  \<^verbatim>\<open>fund_address\<close>.  The caches hold all their entries (the decorators keep 128; a run of the scripts
  uses fewer), and do not tell a keyword argument from a positional one.
\<close>

section \<open>The account of the scripts\<close>

definition resolve_address :: "env \<Rightarrow> addr_arg \<Rightarrow> exn + int" where
  "resolve_address E address =
     (let from_network = (case nw_account_address (network E) of
            None \<Rightarrow> Inl (ValueError ''address was not given in arg nor in env variable'')
          | Some t \<Rightarrow> int16 t)
      in case address of
           NoAddr \<Rightarrow> from_network
         | AddrInt n \<Rightarrow> if n = 0 then from_network else Inr n
         | AddrStr t \<Rightarrow> if t = [] then from_network else int16 t)"

definition resolve_private_key :: "env \<Rightarrow> string option \<Rightarrow> exn + int" where
  "resolve_private_key E private_key =
     (case (if private_key = None \<or> private_key = Some [] then nw_private_key (network E) else private_key) of
        None \<Rightarrow> Inl (ValueError ''private_key was not given in arg nor in env variable'')
      | Some t \<Rightarrow> int16 t)"

definition signer_selectors :: "string list" where
  "signer_selectors =
     [''get_public_key'', ''getPublicKey'', ''getSigner'', ''get_owner'', ''get_signers'']"

definition entry_point_missing :: "string \<Rightarrow> bool" where
  "entry_point_missing message \<longleftrightarrow>
     contains ''Client failed with code 40: Contract error.'' message \<or>
     contains ''Client failed with code 40: Requested entry point was not found.'' message \<or>
     contains ''Invalid message selector.'' message \<or>
     contains ''StarknetErrorCode.ENTRY_POINT_NOT_FOUND_IN_CONTRACT'' message \<or>
     contains ''code 40'' message \<and> contains ''not found in contract'' message \<or>
     contains (''{'' @ [char_of (39 :: nat)] @ ''error'' @ [char_of (39 :: nat)] @ '': '' @ [char_of (39 :: nat)] @
       ''Invalid message selector'' @ [char_of (39 :: nat)] @ ''}'') message"

fun probe_signers :: "env \<Rightarrow> int \<Rightarrow> string list \<Rightarrow> ('m world_scheme, int list option) py" where
  "probe_signers E address [] = ret None"
| "probe_signers E address (sel # sels) =
     try_except
       (bnd (get_selector_from_name E sel) (\<lambda>selector.
        bnd (ask (RawCall address selector []) (\<lambda>h. o_raw_call E h address selector [])) (\<lambda>keys.
        ret (Some keys))))
       (\<lambda>err. if entry_point_missing (exn_text E err) then probe_signers E address sels else raise err)"

definition check_signers :: "int \<Rightarrow> int \<Rightarrow> int list option \<Rightarrow> ('m world_scheme, unit) py" where
  "check_signers address public_key public_keys =
     (case public_keys of
        Some keys \<Rightarrow>
          if public_key \<notin> set keys
          then raise (ValueError ''Public key of account is not consistent with provided private key'')
          else py_when (length keys > 1) (register_multisig_account address)
      | None \<Rightarrow> ret ())"

definition new_account :: "env \<Rightarrow> int \<Rightarrow> int \<Rightarrow> ('m world_scheme, account) py" where
  "new_account E address private_key =
     bnd (gets next_ref) (\<lambda>r.
     seq (modify (\<lambda>s. s\<lparr>next_ref := Suc r\<rparr>))
         (ret \<lparr>ac_ref = r, ac_address = address, ac_private_key = private_key,
               ac_public_key = stark_public_key E private_key, ac_evm = None\<rparr>))"

definition build_starknet_account :: "env \<Rightarrow> addr_arg \<Rightarrow> string option \<Rightarrow> ('m world_scheme, account) py" where
  "build_starknet_account E address private_key =
     bnd (lift_sum (resolve_address E address)) (\<lambda>addr.
     bnd (lift_sum (resolve_private_key E private_key)) (\<lambda>key.
     bnd (probe_signers E addr signer_selectors) (\<lambda>public_keys.
     seq (check_signers addr (stark_public_key E key) public_keys)
         (new_account E addr key))))"

definition get_starknet_account :: "env \<Rightarrow> addr_arg \<Rightarrow> string option \<Rightarrow> ('m world_scheme, account) py" where
  "get_starknet_account E address private_key =
     bnd (gets (\<lambda>s. account_cache s (address, private_key))) (\<lambda>cached.
       case cached of
         Some account \<Rightarrow> ret account
       | None \<Rightarrow>
           bnd (build_starknet_account E address private_key) (\<lambda>account.
           seq (modify (\<lambda>s. s\<lparr>account_cache := (account_cache s)((address, private_key) \<mapsto> account)\<rparr>))
               (ret account)))"

definition main_account :: "env \<Rightarrow> ('m world_scheme, account) py" where
  "main_account E = get_starknet_account E NoAddr None"

section \<open>Contracts\<close>

record contract =
  ct_name :: string
  ct_address :: int
  ct_provider :: "account option"

definition get_eth_contract :: "env \<Rightarrow> account option \<Rightarrow> ('m world_scheme, contract) py" where
  "get_eth_contract E provider =
     seq (lift_sum (get_abi E ''ERC20''))
    (bnd (case provider of Some a \<Rightarrow> ret a | None \<Rightarrow> main_account E) (\<lambda>account.
     ret \<lparr>ct_name = ''ERC20'', ct_address = eth_token_address E, ct_provider = Some account\<rparr>))"

text \<open>\<^verbatim>\<open>get_contract\<close> is cached on its three arguments, so a deployment is read once per handle.\<close>

definition get_contract ::
    "env \<Rightarrow> string \<Rightarrow> int option \<Rightarrow> account option \<Rightarrow> ('m world_scheme, contract) py" where
  "get_contract E name address provider =
     (let key = (name, address, map_option ac_ref provider)
      in bnd (gets (\<lambda>s. contract_cache s key)) (\<lambda>cached.
         case cached of
           Some a \<Rightarrow> ret \<lparr>ct_name = name, ct_address = a, ct_provider = provider\<rparr>
         | None \<Rightarrow>
             bnd (if address = None \<or> address = Some 0
                  then bnd get_deployments (\<lambda>d. get_option KeyError (map_of d name))
                  else ret (the address)) (\<lambda>a.
             seq (lift_sum (get_abi E name))
            (seq (lift_sum (get_cairo_version E name))
            (seq (modify (\<lambda>s. s\<lparr>contract_cache := (contract_cache s)(key \<mapsto> a)\<rparr>))
            (ret \<lparr>ct_name = name, ct_address = a, ct_provider = provider\<rparr>))))))"

definition abi_call :: "env \<Rightarrow> contract \<Rightarrow> string \<Rightarrow> arg list \<Rightarrow> ('m world_scheme, arg list) py" where
  "abi_call E c f args =
     ask (AbiCall (ct_name c) (ct_address c) f args) (\<lambda>h. o_abi_call E h (ct_address c) f args)"

text \<open>Reading a named integer output, such as \<^verbatim>\<open>.balance\<close>.\<close>

definition felt_output :: "arg list \<Rightarrow> ('s, int) py" where
  "felt_output r = (case r of Felt n # _ \<Rightarrow> ret n | _ \<Rightarrow> raise AttributeError)"

section \<open>Balances\<close>

definition address_int :: "addr_arg \<Rightarrow> exn + int" where
  "address_int a = (case a of AddrInt n \<Rightarrow> Inr n | AddrStr t \<Rightarrow> int16 t | NoAddr \<Rightarrow> Inl TypeError)"

definition balance_of :: "env \<Rightarrow> contract \<Rightarrow> int \<Rightarrow> ('m world_scheme, int) py" where
  "balance_of E c address = bnd (abi_call E c ''balanceOf'' [Felt address]) felt_output"

definition get_balance :: "env \<Rightarrow> addr_arg \<Rightarrow> contract option \<Rightarrow> ('m world_scheme, int) py" where
  "get_balance E address token_contract =
     bnd (lift_sum (address_int address)) (\<lambda>a.
     bnd (case token_contract of Some c \<Rightarrow> ret c | None \<Rightarrow> get_eth_contract E None) (\<lambda>eth_contract.
     balance_of E eth_contract a))"

section \<open>Invoking and calling\<close>

datatype target = ByAddress int | ByName string

definition raw_felt :: "arg \<Rightarrow> exn + int" where
  "raw_felt a = (case a of Felt n \<Rightarrow> Inr n | Flag b \<Rightarrow> Inr (if b then 1 else 0) | _ \<Rightarrow> Inl TypeError)"

definition prepare_invoke :: "env \<Rightarrow> contract \<Rightarrow> string \<Rightarrow> arg list \<Rightarrow> exn + call" where
  "prepare_invoke E c f args =
     bind_sum (serialize E (ct_name c) f args) (\<lambda>calldata.
     Inr \<lparr>c_to = ct_address c, c_selector = selector_of E f, c_calldata = calldata\<rparr>)"

definition response_hash :: "response \<Rightarrow> int option" where
  "response_hash r = (case r of SentTx h \<Rightarrow> Some h | _ \<Rightarrow> None)"

definition invoke ::
    "env \<Rightarrow> target \<Rightarrow> string \<Rightarrow> arg list \<Rightarrow> int option \<Rightarrow> account option \<Rightarrow> ('m world_scheme, int option) py" where
  "invoke E contract_id f args address account =
     bnd (case account of Some a \<Rightarrow> ret a | None \<Rightarrow> main_account E) (\<lambda>acc.
     bnd (case contract_id of
            ByAddress to \<Rightarrow>
              bnd (get_selector_from_name E f) (\<lambda>selector.
              bnd (lift_sum (map_sum_list raw_felt args)) (\<lambda>calldata.
              ret \<lparr>c_to = to, c_selector = selector, c_calldata = calldata\<rparr>))
          | ByName name \<Rightarrow>
              bnd (get_contract E name address (Some acc)) (\<lambda>c.
              seq (get_selector_from_name E f)
                  (lift_sum (prepare_invoke E c f args)))) (\<lambda>call.
     bnd (execute_v1 E acc [call]) (\<lambda>response. ret (response_hash response))))"

definition call_address :: "env \<Rightarrow> int \<Rightarrow> string \<Rightarrow> arg list \<Rightarrow> ('m world_scheme, arg list) py" where
  "call_address E address f args =
     seq (main_account E)
    (bnd (get_selector_from_name E f) (\<lambda>selector.
     bnd (lift_sum (map_sum_list raw_felt args)) (\<lambda>calldata.
     bnd (ask (RawCall address selector calldata) (\<lambda>h. o_raw_call E h address selector calldata)) (\<lambda>r.
     ret (map Felt r)))))"

definition call_contract :: "env \<Rightarrow> string \<Rightarrow> string \<Rightarrow> arg list \<Rightarrow> int option \<Rightarrow> ('m world_scheme, arg list) py" where
  "call_contract E name f args address =
     bnd (get_contract E name address None) (\<lambda>c. abi_call E c f args)"

definition call_fn :: "env \<Rightarrow> target \<Rightarrow> string \<Rightarrow> arg list \<Rightarrow> int option \<Rightarrow> ('m world_scheme, arg list) py" where
  "call_fn E contract f args address =
     (case contract of
        ByAddress a \<Rightarrow> call_address E a f args
      | ByName name \<Rightarrow> call_contract E name f args address)"

section \<open>Funding\<close>

definition fund_address ::
    "env \<Rightarrow> addr_arg \<Rightarrow> pynum \<Rightarrow> account option \<Rightarrow> contract option \<Rightarrow> ('m world_scheme, unit) py" where
  "fund_address E address amount funding_account token_contract =
     bnd (lift_sum (address_int address)) (\<lambda>to.
     let wei = wei_of_eth amount
     in if nw_name (network E) = ''starknet-devnet''
        then seq (ask (Mint to wei) (\<lambda>h. o_mint E h to wei)) (ret ())
        else
          bnd (case funding_account of Some a \<Rightarrow> ret a | None \<Rightarrow> main_account E) (\<lambda>account.
          bnd (case token_contract of Some c \<Rightarrow> ret c | None \<Rightarrow> get_eth_contract E (Some account)) (\<lambda>eth_contract.
          bnd (get_balance E (AddrInt (ac_address account)) (Some eth_contract)) (\<lambda>balance.
          bnd (get_balance E (AddrInt to) (Some eth_contract)) (\<lambda>to_balance.
          let required_amount = wei - to_balance
          in if balance < required_amount
             then raise (ValueError ''Cannot send ETH from account with current balance'')
             else if required_amount \<le> 0 then ret ()
             else seq (invoke E (ByName ''ERC20'') ''transfer'' [Felt to, Felt required_amount]
                        (Some (ct_address eth_contract)) (Some account))
                 (seq (balance_of E eth_contract to) (ret ())))))))"

end
