(* ===== verification/AccountFacts.thy ===== *)
theory AccountFacts
  imports Accounts
begin

text \<open>
  What the operations of \<open>Accounts\<close> leave alone, what probing the signers of an account
  establishes, and the guarantees of \<^verbatim>\<open>fund_address\<close>.
\<close>

section \<open>Reading does not send\<close>

text \<open>
  \<open>looks\<close>: no transaction is submitted, and nonces, logs, account flags and the relayers stay.  \<open>reads\<close> allows in
  addition that an account is found to be a multisig.
\<close>

definition looks :: "'m world_scheme \<Rightarrow> 'm world_scheme \<Rightarrow> bool" where
  "looks s t \<longleftrightarrow> sent_txs (trace t) = sent_txs (trace s) \<and> logs t = logs s \<and> nonces t = nonces s \<and>
     lazy_accounts t = lazy_accounts s \<and> multisig_accounts t = multisig_accounts s \<and>
     relayer_pool t = relayer_pool s"

definition reads :: "'m world_scheme \<Rightarrow> 'm world_scheme \<Rightarrow> bool" where
  "reads s t \<longleftrightarrow> sent_txs (trace t) = sent_txs (trace s) \<and> logs t = logs s \<and> nonces t = nonces s \<and>
     lazy_accounts t = lazy_accounts s \<and> relayer_pool t = relayer_pool s \<and>
     (\<forall>a. multisig_accounts s a \<longrightarrow> multisig_accounts t a)"

interpretation looks: step_relation looks
  by unfold_locales (auto simp: looks_def)

interpretation reads: step_relation reads
  by unfold_locales (auto simp: reads_def)

lemma looks_reads: "looks s t \<Longrightarrow> reads s t"
  by (simp add: looks_def reads_def)

lemma rel_looks_reads: "rel_py looks m \<Longrightarrow> rel_py reads m"
  by (erule rel_py_mono) (rule looks_reads)

lemma looks_submitted: "looks s t \<Longrightarrow> submitted t = submitted s"
  by (simp add: looks_def submitted_def)

lemma ask_looks: "sent_txs [ev] = [] \<Longrightarrow> rel_py looks (ask ev oracle)"
  by (auto simp: rel_py_def ask_cases looks_def Let_def split: sum.split)

lemma looks_pieces [frame]:
  "rel_py looks (get_selector_from_name E f)" "rel_py looks get_deployments"
  "rel_py looks (felt_output r)" "rel_py looks (new_account E a k)"
  "rel_py looks (modify (\<lambda>s. s\<lparr>contract_cache := f1 s\<rparr>))"
  "rel_py looks (modify (\<lambda>s. s\<lparr>account_cache := f2 s\<rparr>))"
  "rel_py looks (modify (\<lambda>s. s\<lparr>next_ref := f3 s\<rparr>))"
  by (auto simp: rel_py_def looks_def py_run get_selector_from_name_def felt_output_def new_account_def
      Let_def get_deployments_def split: option.split sum.split list.split arg.split)

lemma reads_pieces [frame]: "rel_py reads (register_multisig_account a)"
  by (auto simp: rel_py_def reads_def py_run register_multisig_account_def)

lemma probe_signers_looks [frame]: "rel_py looks (probe_signers E a sels)"
  by (induction sels) (auto intro!: looks.rules looks_pieces ask_looks)

lemma get_contract_looks [frame]: "rel_py looks (get_contract E name a p)"
  unfolding get_contract_def Let_def
  by (auto intro!: looks.rules looks.lookups looks_pieces split: option.split)

lemma abi_call_looks [frame]: "rel_py looks (abi_call E c f args)" "rel_py looks (balance_of E c a)"
  unfolding abi_call_def balance_of_def by (auto intro!: looks.rules looks_pieces ask_looks)

lemma get_starknet_account_reads [frame]: "rel_py reads (get_starknet_account E a k)"
  unfolding get_starknet_account_def build_starknet_account_def check_signers_def
  by (auto intro!: reads.rules reads_pieces rel_looks_reads [OF probe_signers_looks]
      rel_looks_reads [OF looks_pieces(4)] rel_looks_reads [OF looks_pieces(6)] split: option.split)

lemma main_account_reads [frame]: "rel_py reads (main_account E)"
  unfolding main_account_def by (rule get_starknet_account_reads)

lemma get_eth_contract_reads [frame]:
  "rel_py reads (get_eth_contract E p)" "rel_py looks (get_eth_contract E (Some a))"
  unfolding get_eth_contract_def
  by (auto intro!: reads.rules looks.rules main_account_reads split: option.split)

lemma get_balance_reads [frame]:
  "rel_py reads (get_balance E a c)" "rel_py looks (get_balance E a (Some d))"
  unfolding get_balance_def
  by (auto intro!: reads.rules looks.rules get_eth_contract_reads rel_looks_reads [OF abi_call_looks(2)]
      abi_call_looks split: option.split)

lemma call_fn_reads [frame]: "rel_py reads (call_fn E c f args a)"
  unfolding call_fn_def call_address_def call_contract_def
  by (cases c) (auto intro!: reads.rules main_account_reads rel_looks_reads [OF get_contract_looks]
      rel_looks_reads [OF abi_call_looks(1)] rel_looks_reads [OF ask_looks] rel_looks_reads [OF looks_pieces(1)])

section \<open>Probing the signers\<close>


text \<open>C16. \<open>get_starknet_account\<close> hands out the account that its cache holds, or a new one whose public
  key, when the account contract reveals its signers, is among them; an account with several
  signers is registered as a multisig.  Asked again, it gives the same account and asks nothing.\<close>

theorem get_starknet_account_spec:
  assumes "get_starknet_account E address key s = Ret acc t"
  shows "get_starknet_account E address key t = Ret acc t \<and>
    (account_cache s (address, key) = Some acc \<or>
     resolve_address E address = Inr (ac_address acc) \<and>
     resolve_private_key E key = Inr (ac_private_key acc) \<and>
     ac_public_key acc = stark_public_key E (ac_private_key acc) \<and>
     (\<exists>answer u. probe_signers E (ac_address acc) signer_selectors s = Ret answer u \<and>
       (\<forall>keys. answer = Some keys \<longrightarrow> ac_public_key acc \<in> set keys \<and>
          (1 < length keys \<longrightarrow> multisig_accounts t (ac_address acc)))))"
proof (cases "account_cache s (address, key)")
  case (Some a)
  with assms show ?thesis by (auto simp: get_starknet_account_def py_run)
next
  case None
  then obtain v where b: "build_starknet_account E address key s = Ret acc v"
    and t: "t = v\<lparr>account_cache := (account_cache v)((address, key) \<mapsto> acc)\<rparr>"
    using assms by (auto simp: get_starknet_account_def py_run split: outcome.splits)
  have again: "get_starknet_account E address key t = Ret acc t"
    by (simp add: get_starknet_account_def py_run t)
  obtain a k ans u w where "resolve_address E address = Inr a" and "resolve_private_key E key = Inr k"
    and p: "probe_signers E a signer_selectors s = Ret ans u"
    and c: "check_signers a (stark_public_key E k) ans u = Ret () w"
    and n: "new_account E a k w = Ret acc v"
    using b unfolding build_starknet_account_def
    by (auto elim!: bnd_RetE seq_RetE simp: lift_sum_def split: sum.splits)
  moreover from n have "ac_address acc = a \<and> ac_private_key acc = k \<and> ac_public_key acc = stark_public_key E k"
    and "multisig_accounts t = multisig_accounts w"
    by (auto simp: new_account_def py_run t)
  moreover from c have "\<forall>keys. ans = Some keys \<longrightarrow> stark_public_key E k \<in> set keys \<and>
      (1 < length keys \<longrightarrow> multisig_accounts w a)"
    by (auto simp: check_signers_def py_run register_multisig_account_def split: if_splits)
  ultimately show ?thesis using again by auto
qed

lemma int16_5: "int16 ''0x5'' = Inr 5"
  by code_simp

lemma dev_main_account:
  "\<exists>acc t. get_starknet_account dev_env (AddrInt 4) (Some ''0x5'') dev_world = Ret acc t \<and>
     ac_address acc = 4"
  by (simp add: get_starknet_account_def build_starknet_account_def resolve_address_def py_run
      resolve_private_key_def signer_selectors_def get_selector_from_name_def check_signers_def
      new_account_def Let_def int16_5)

lemma get_starknet_account_spec_witness:
  "\<exists>acc t. get_starknet_account dev_env (AddrInt 4) (Some ''0x5'') dev_world = Ret acc t \<and>
     get_starknet_account dev_env (AddrInt 4) (Some ''0x5'') t = Ret acc t \<and> ac_address acc = 4"
proof -
  obtain acc t where run: "get_starknet_account dev_env (AddrInt 4) (Some ''0x5'') dev_world = Ret acc t"
    "ac_address acc = 4"
    using dev_main_account by blast
  from get_starknet_account_spec [OF run(1)] run show ?thesis by blast
qed

section \<open>Handles\<close>

text \<open>A cached handle that was asked for at an address is at that address.\<close>

definition handles_ok :: "'m world_scheme \<Rightarrow> bool" where
  "handles_ok s \<longleftrightarrow> (\<forall>n x p a. contract_cache s (n, Some x, p) = Some a \<longrightarrow> x \<noteq> 0 \<longrightarrow> a = x)"

lemma get_contract_at:
  assumes "get_contract E name (Some x) p s = Ret c t" and "handles_ok s" and "x \<noteq> 0"
  shows "c = \<lparr>ct_name = name, ct_address = x, ct_provider = p\<rparr>" and "handles_ok t"
  using assms
  by (auto simp: get_contract_def Let_def py_run handles_ok_def split: option.splits sum.splits if_splits)

lemma ask_handles [frame]: "keeps handles_ok (ask ev oracle)"
  by (auto simp: rel_py_def ask_cases handles_ok_def Let_def split: sum.split)

lemma balance_of_Ret:
  assumes "balance_of E c a s = Ret b t"
  shows "looks s t" and "contract_cache t = contract_cache s"
    and "\<exists>h rest. o_abi_call E h (ct_address c) ''balanceOf'' [Felt a] = Inr (Felt b # rest)"
proof -
  show "looks s t" by (rule rel_pyD_Ret [OF abi_call_looks(2) assms])
  obtain out where "o_abi_call E (trace s @ [AbiCall (ct_name c) (ct_address c) ''balanceOf'' [Felt a]])
      (ct_address c) ''balanceOf'' [Felt a] = Inr out" and "felt_output out t = Ret b t"
    and "contract_cache t = contract_cache s"
    using assms by (auto simp: balance_of_def abi_call_def ask_cases Let_def bnd_def felt_output_def py_run
        split: sum.splits list.splits arg.splits)
  then show "contract_cache t = contract_cache s"
    and "\<exists>h rest. o_abi_call E h (ct_address c) ''balanceOf'' [Felt a] = Inr (Felt b # rest)"
    by (auto simp: felt_output_def py_run split: list.splits arg.splits)
qed

lemma get_balance_Ret:
  assumes "get_balance E (AddrInt a) (Some c) s = Ret b t"
  shows "balance_of E c a s = Ret b t"
  using assms by (simp add: get_balance_def address_int_def lift_sum_def bnd_def ret_def)

lemma invoke_by_name_at:
  assumes "invoke E (ByName n) f args (Some x) (Some acc) s = Ret r t"
    and "handles_ok s" and "x \<noteq> 0"
    and "\<not> lazy_accounts s (ac_address acc)" and "\<not> multisig_accounts s (ac_address acc)"
  obtains cd where "serialize E n f args = Inr cd"
    and "submitted t = submitted s @
      [(ac_address acc, [\<lparr>c_to = x, c_selector = selector_of E f, c_calldata = cd\<rparr>])]"
proof -
  obtain c u v call r' where c: "get_contract E n (Some x) (Some acc) s = Ret c u"
    and sel: "get_selector_from_name E f u = Ret (selector_of E f) v"
    and prep: "prepare_invoke E c f args = Inr call"
    and run: "execute_v1 E acc [call] v = Ret r' t"
    using assms(1)
    by (auto simp: invoke_def get_selector_from_name_def Let_def py_run split: outcome.splits sum.splits)
  have "looks s u" by (rule rel_pyD_Ret [OF get_contract_looks c])
  moreover have "looks u v" by (rule rel_pyD_Ret [OF looks_pieces(1) sel])
  ultimately have l: "looks s v" by (rule looks.R_trans)
  then have m: "\<not> multisig_accounts v (ac_address acc)" and "\<not> lazy_accounts v (ac_address acc)"
    using assms(4,5) by (simp_all add: looks_def)
  then have "execute_v1_wrapped E acc [call] v = Ret r' t"
    using run by (simp add: execute_v1_def py_run)
  with execute_v1_wrapped_cases [where E = E, OF m, of "[call]"] looks_submitted [OF l]
  have "submitted t = submitted s @ [(ac_address acc, [call])]" by simp
  moreover have "\<exists>cd. serialize E n f args = Inr cd \<and> call = \<lparr>c_to = x, c_selector = selector_of E f, c_calldata = cd\<rparr>"
    using prep get_contract_at(1) [OF c assms(2,3)] by (auto simp: prepare_invoke_def elim!: bind_sum_InrE)
  ultimately show thesis using that by blast
qed

section \<open>Funding an address\<close>

lemma fund_address_Ret:
  assumes "fund_address E (AddrInt to) amount (Some acc) (Some c) s = Ret () t"
    and "nw_name (network E) \<noteq> ''starknet-devnet''"
  obtains balance u to_balance v where
    "get_balance E (AddrInt (ac_address acc)) (Some c) s = Ret balance u"
    and "get_balance E (AddrInt to) (Some c) u = Ret to_balance v"
    and "wei_of_eth amount - to_balance \<le> balance"
    and "(if wei_of_eth amount - to_balance \<le> 0 then ret ()
          else seq (invoke E (ByName ''ERC20'') ''transfer'' [Felt to, Felt (wei_of_eth amount - to_balance)]
                      (Some (ct_address c)) (Some acc))
               (seq (balance_of E c to) (ret ()))) v = Ret () t"
proof -
  obtain balance u where b1: "get_balance E (AddrInt (ac_address acc)) (Some c) s = Ret balance u"
    using assms by (auto simp: fund_address_def address_int_def py_run Let_def split: outcome.splits)
  obtain to_balance v where b2: "get_balance E (AddrInt to) (Some c) u = Ret to_balance v"
    using assms b1 by (auto simp: fund_address_def address_int_def py_run Let_def split: outcome.splits)
  have "(if balance < wei_of_eth amount - to_balance
         then raise (ValueError ''Cannot send ETH from account with current balance'')
         else if wei_of_eth amount - to_balance \<le> 0 then ret ()
         else seq (invoke E (ByName ''ERC20'') ''transfer'' [Felt to, Felt (wei_of_eth amount - to_balance)]
                    (Some (ct_address c)) (Some acc))
              (seq (balance_of E c to) (ret ()))) v = Ret () t"
    using assms b1 b2 by (simp add: fund_address_def address_int_def lift_sum_def bnd_def ret_def Let_def)
  with b1 b2 show thesis
    by (cases "balance < wei_of_eth amount - to_balance") (auto simp: raise_def intro: that)
qed

text \<open>C13. Off the development network, \<open>fund_address\<close> tops an address up to the amount and no
  further: it sends nothing when the address already holds that much, and otherwise one transfer
  of exactly what is missing, which the funding account was reported to hold.\<close>

theorem fund_address_tops_up:
  assumes "fund_address E (AddrInt to) amount (Some acc) (Some c) s = Ret () t"
    and "nw_name (network E) \<noteq> ''starknet-devnet''"
    and "handles_ok s" and "ct_address c \<noteq> 0"
    and "\<not> lazy_accounts s (ac_address acc)" and "\<not> multisig_accounts s (ac_address acc)"
  shows "\<exists>balance to_balance h1 r1 h2 r2.
    o_abi_call E h1 (ct_address c) ''balanceOf'' [Felt (ac_address acc)] = Inr (Felt balance # r1) \<and>
    o_abi_call E h2 (ct_address c) ''balanceOf'' [Felt to] = Inr (Felt to_balance # r2) \<and>
    (let missing = wei_of_eth amount - to_balance
     in missing \<le> balance \<and>
       (if missing \<le> 0 then submitted t = submitted s
        else \<exists>cd. serialize E ''ERC20'' ''transfer'' [Felt to, Felt missing] = Inr cd \<and>
          submitted t = submitted s @ [(ac_address acc,
            [\<lparr>c_to = ct_address c, c_selector = selector_of E ''transfer'', c_calldata = cd\<rparr>])]))"
proof -
  let ?m = "\<lambda>to_balance. wei_of_eth amount - to_balance"
  obtain balance u to_balance v
    where b1: "get_balance E (AddrInt (ac_address acc)) (Some c) s = Ret balance u"
      and b2: "get_balance E (AddrInt to) (Some c) u = Ret to_balance v"
      and le: "?m to_balance \<le> balance"
      and rest: "(if ?m to_balance \<le> 0 then ret ()
          else seq (invoke E (ByName ''ERC20'') ''transfer'' [Felt to, Felt (?m to_balance)]
                      (Some (ct_address c)) (Some acc))
               (seq (balance_of E c to) (ret ()))) v = Ret () t"
    using fund_address_Ret [OF assms(1,2)] .
  note B1 = balance_of_Ret [OF get_balance_Ret [OF b1]]
  note B2 = balance_of_Ret [OF get_balance_Ret [OF b2]]
  have l: "looks s v" by (rule looks.R_trans [OF B1(1) B2(1)])
  have h: "handles_ok v" using assms(3) B1(2) B2(2) by (simp add: handles_ok_def)
  have "if ?m to_balance \<le> 0 then submitted t = submitted s
        else \<exists>cd. serialize E ''ERC20'' ''transfer'' [Felt to, Felt (?m to_balance)] = Inr cd \<and>
          submitted t = submitted s @ [(ac_address acc,
            [\<lparr>c_to = ct_address c, c_selector = selector_of E ''transfer'', c_calldata = cd\<rparr>])]"
  proof (cases "?m to_balance \<le> 0")
    case True
    with rest have "t = v" by (simp add: ret_def)
    with True looks_submitted [OF l] show ?thesis by simp
  next
    case False
    with rest obtain r w b where i: "invoke E (ByName ''ERC20'') ''transfer''
        [Felt to, Felt (?m to_balance)] (Some (ct_address c)) (Some acc) v = Ret r w"
      and "balance_of E c to w = Ret b t"
      by (auto elim!: seq_RetE simp: ret_def)
    then have "submitted t = submitted w" by (blast intro: looks_submitted balance_of_Ret(1))
    with invoke_by_name_at [OF i h assms(4)] l assms(5,6) False show ?thesis
      by (auto simp: looks_def looks_submitted [OF l])
  qed
  then have goal: "let missing = ?m to_balance in missing \<le> balance \<and>
       (if missing \<le> 0 then submitted t = submitted s
        else \<exists>cd. serialize E ''ERC20'' ''transfer'' [Felt to, Felt missing] = Inr cd \<and>
          submitted t = submitted s @ [(ac_address acc,
            [\<lparr>c_to = ct_address c, c_selector = selector_of E ''transfer'', c_calldata = cd\<rparr>])])"
    using le by (simp only: Let_def simp_thms)
  obtain h1 r1 where o1: "o_abi_call E h1 (ct_address c) ''balanceOf'' [Felt (ac_address acc)] = Inr (Felt balance # r1)"
    using B1(3) by blast
  obtain h2 r2 where o2: "o_abi_call E h2 (ct_address c) ''balanceOf'' [Felt to] = Inr (Felt to_balance # r2)"
    using B2(3) by blast
  show ?thesis by (intro exI conjI) (rule o1, rule o2, rule goal)
qed

text \<open>A concrete transfer: the funding account 9 holds 3 ETH, the address 0.4.\<close>

definition rich_env :: env where
  "rich_env = dev_env\<lparr>o_abi_call := (\<lambda>h a f args.
     Inr [Felt (if args = [Felt 9] then 3 * 10 ^ 18 else 4 * 10 ^ 17)])\<rparr>"

lemma rich_env_sel [simp]:
  "network rich_env = dev_network" "eth_token_address rich_env = 73"
  "o_abi_call rich_env = (\<lambda>h a f args. Inr [Felt (if args = [Felt 9] then 3 * 10 ^ 18 else 4 * 10 ^ 17)])"
  "serialize rich_env = (\<lambda>c f args. Inr [])" "o_cairo_version rich_env = (\<lambda>h a. Inr 1)"
  "o_pending_nonce rich_env = o_pending_nonce dev_env" "o_wait_for_tx rich_env = (\<lambda>h x. Inr ())"
  "o_add_invoke rich_env = (\<lambda>h tx. Inr (100 + int (length (sent_txs h))))"
  "build_files rich_env = [''ERC20.json'']" "abi_text rich_env = (\<lambda>p. Inr ())"
  by (simp_all add: rich_env_def)

lemma erc20_files:
  "filter (fn_match (zero_pattern ''ERC20'')) [''ERC20.json''] = [''ERC20.json'']"
  by code_simp

lemma rich_abi: "get_abi rich_env ''ERC20'' = Inr [''build'', ''ERC20.json'']"
  "get_cairo_version rich_env ''ERC20'' = Inr False"
  using erc20_files by (simp_all add: get_abi_def get_cairo_version_def get_artifact_def del: filter.simps)

abbreviation eth_handle :: contract where
  "eth_handle \<equiv> \<lparr>ct_name = ''ERC20'', ct_address = 73, ct_provider = None\<rparr>"

lemma rich_run:
  "\<exists>t. fund_address rich_env (AddrInt 4) (PInt 1) (Some (dev_account 9)) (Some eth_handle) dev_world = Ret () t"
proof -
  have "wei_of_eth (PInt 1) = 10 ^ 18" by (simp add: wei_of_eth_int)
  then show ?thesis
    by (simp add: fund_address_def address_int_def get_balance_def balance_of_def abi_call_def
        felt_output_def invoke_def get_contract_def rich_abi get_selector_from_name_def prepare_invoke_def
        execute_v1_def execute_v1_wrapped_def get_nonce_def next_nonce_def ask_nonce_def store_nonce_def
        wait_for_transaction_def dev_network_def py_run Let_def eval_nat_numeral)
qed

lemma fund_address_tops_up_witness:
  "\<exists>t. fund_address rich_env (AddrInt 4) (PInt 1) (Some (dev_account 9)) (Some eth_handle) dev_world = Ret () t \<and>
     submitted t = [(9, [\<lparr>c_to = 73, c_selector = selector_of rich_env ''transfer'', c_calldata = []\<rparr>])]"
proof -
  obtain t where run:
    "fund_address rich_env (AddrInt 4) (PInt 1) (Some (dev_account 9)) (Some eth_handle) dev_world = Ret () t"
    using rich_run by blast
  have "nw_name (network rich_env) \<noteq> ''starknet-devnet''" by (simp add: dev_network_def)
  moreover have "handles_ok dev_world" by (simp add: handles_ok_def)
  ultimately have "submitted t = [(9, [\<lparr>c_to = 73, c_selector = selector_of rich_env ''transfer'', c_calldata = []\<rparr>])]"
    using fund_address_tops_up [OF run] by (auto simp: Let_def wei_of_eth_int submitted_def)
  with run show ?thesis by blast
qed

end
