(* ===== verification/Relayers.thy ===== *)
theory Relayers
  imports AccountFacts
begin

text \<open>
  \<^verbatim>\<open>deploy_starknet_account\<close> and the class \<^verbatim>\<open>RelayerPool\<close> of \<^verbatim>\<open>kakarot_scripts/utils/starknet.py\<close>: the pool's
  deterministic addresses, its creation (funding in one lazy batch, deployment, allowances), the
  round robin of \<^verbatim>\<open>__next__\<close>, the choice by salt of \<^verbatim>\<open>get\<close>, and \<^verbatim>\<open>withdraw_all\<close>.  A random salt is an
  argument.
\<close>

section \<open>Deploying an account\<close>

text \<open>\<^verbatim>\<open>class_hash or NETWORK.get("class_hash", get_declarations().get("OpenzeppelinAccount"))\<close>: the
  default is computed whether it is needed or not.\<close>

definition account_class_hash :: "env \<Rightarrow> int option \<Rightarrow> ('m world_scheme, int) py" where
  "account_class_hash E class_hash =
     (if class_hash \<noteq> None \<and> class_hash \<noteq> Some 0 then ret (the class_hash)
      else bnd get_declarations (\<lambda>declarations.
           get_option TypeError
             (case nw_class_hash (network E) of
                Some h \<Rightarrow> Some h | None \<Rightarrow> map_of declarations ''OpenzeppelinAccount'')))"

definition ask_deploy_account ::
    "env \<Rightarrow> int \<Rightarrow> int \<Rightarrow> int \<Rightarrow> int list \<Rightarrow> ('m world_scheme, int \<times> int) py" where
  "ask_deploy_account E address class_hash salt calldata =
     ask (DeployAccount address class_hash salt calldata) (\<lambda>h. o_deploy_account E h address)"

definition ask_class_hash_at :: "env \<Rightarrow> int \<Rightarrow> ('m world_scheme, int) py" where
  "ask_class_hash_at E address = ask (ClassHashAt address) (\<lambda>h. o_class_hash_at E h address)"

definition get_class_hash_at :: "env \<Rightarrow> int \<Rightarrow> ('m world_scheme, int option) py" where
  "get_class_hash_at E address =
     try_except (bnd (ask_class_hash_at E address) (\<lambda>c. ret (Some c))) (\<lambda>_. ret None)"

definition deploy_starknet_account ::
    "env \<Rightarrow> int option \<Rightarrow> string option \<Rightarrow> pynum \<Rightarrow> int \<Rightarrow> ('m world_scheme, int) py" where
  "deploy_starknet_account E class_hash private_key amount salt =
     bnd (lift_sum (resolve_private_key E private_key)) (\<lambda>key.
     let public_key = stark_public_key E key
     in bnd (account_class_hash E class_hash) (\<lambda>class_hash.
     let address = compute_address E salt class_hash [public_key] 0
     in bnd (get_balance E (AddrInt address) None) (\<lambda>current_balance.
     let required_amount = num_sub amount (PInt current_balance)
     in seq (py_when (PInt 0 < required_amount)
               (fund_address E (AddrInt address) required_amount None None))
       (bnd (get_class_hash_at E address) (\<lambda>deployed.
        if deployed \<noteq> None then ret address
        else
          bnd (try_except (ask_deploy_account E address class_hash salt [public_key])
                 (\<lambda>_. seq (emit (Sleep (PInt 5)))
                          (ask_deploy_account E address class_hash salt [public_key]))) (\<lambda>(tx_hash, deployed_at).
          seq (wait_for_transaction E tx_hash None)
         (seq (lift_sum (get_artifact E ''OpenzeppelinAccount''))
         (ret deployed_at))))))))"

section \<open>The pool\<close>

record pool =
  relayer_accounts :: "account list"
  pool_index :: int

definition new_pool :: "account list \<Rightarrow> pool" where
  "new_pool accounts = \<lparr>relayer_accounts = accounts, pool_index = 0\<rparr>"

definition network_key :: "env \<Rightarrow> exn + int" where
  "network_key E = (case nw_private_key (network E) of None \<Rightarrow> Inl TypeError | Some t \<Rightarrow> int16 t)"

definition compute_addresses :: "env \<Rightarrow> nat \<Rightarrow> ('m world_scheme, int list) py" where
  "compute_addresses E n =
     bnd (lift_sum (network_key E)) (\<lambda>key.
     let public_key = stark_public_key E key
     in bnd get_declarations (\<lambda>declarations.
     let class_hash = (case nw_class_hash (network E) of
           Some h \<Rightarrow> Some h | None \<Rightarrow> map_of declarations ''OpenzeppelinAccount'')
     in comprehend (\<lambda>i. bnd (get_option TypeError class_hash) (\<lambda>ch.
          ret (compute_address E (public_key + int i) ch [public_key] 0))) [0..<n]))"

text \<open>\<^verbatim>\<open>_lazy_execute[address] = value\<close>\<close>

definition set_lazy :: "int \<Rightarrow> bool \<Rightarrow> ('m world_scheme, unit) py" where
  "set_lazy a b = modify (\<lambda>s. s\<lparr>lazy_accounts := (lazy_accounts s)(a := b)\<rparr>)"

definition default_amount :: "env \<Rightarrow> pynum" where
  "default_amount E = (if nw_type (network E) \<noteq> ProdNet then PInt 1 else PFloat (rnd (1 / 100)))"

text \<open>The loop that funds the relayers: \<^verbatim>\<open>kwargs.pop("amount", ...)\<close> takes the keyword out of
  \<^verbatim>\<open>kwargs\<close> the first time round.\<close>

fun fund_relayers :: "env \<Rightarrow> int list \<Rightarrow> pynum option \<Rightarrow> ('m world_scheme, unit) py" where
  "fund_relayers E [] amount = ret ()"
| "fund_relayers E (a # as) amount =
     seq (fund_address E (AddrInt a) (case amount of Some x \<Rightarrow> x | None \<Rightarrow> default_amount E) None None)
         (fund_relayers E as None)"

definition network_account :: "env \<Rightarrow> exn + int" where
  "network_account E = (case nw_account_address (network E) of None \<Rightarrow> Inl TypeError | Some t \<Rightarrow> int16 t)"

definition approve_main :: "env \<Rightarrow> contract \<Rightarrow> int \<Rightarrow> ('m world_scheme, account) py" where
  "approve_main E eth_contract address =
     bnd (get_starknet_account E (AddrInt address) None) (\<lambda>account.
     bnd (lift_sum (network_account E)) (\<lambda>main.
     bnd (call_fn E (ByName ''ERC20'') ''allowance'' [Felt (ac_address account), Felt main]
            (Some (ct_address eth_contract))) (\<lambda>r.
     bnd (felt_output r) (\<lambda>allowance.
     seq (py_when (allowance \<noteq> 2 ^ 256 - 1)
            (seq (invoke E (ByName ''ERC20'') ''approve'' [Felt main, Felt (2 ^ 256 - 1)]
                    (Some (ct_address eth_contract)) (Some account)) (ret ())))
         (ret account)))))"

definition create_pool :: "env \<Rightarrow> nat \<Rightarrow> pynum option \<Rightarrow> ('m world_scheme, pool) py" where
  "create_pool E n amount =
     bnd (main_account E) (\<lambda>account.
     bnd (gets (\<lambda>s. lazy_accounts s (ac_address account))) (\<lambda>is_lazy.
     seq (set_lazy (ac_address account) True)
    (bnd (lift_sum (network_key E)) (\<lambda>key.
     let public_key = stark_public_key E key
     in bnd (compute_addresses E n) (\<lambda>addresses.
     seq (fund_relayers E addresses amount)
    (seq (execute_calls E)
    (seq (set_lazy (ac_address account) is_lazy)
    (bnd (comprehend (\<lambda>i. deploy_starknet_account E None (nw_private_key (network E)) (PInt 0)
            (int i + public_key)) [0..<n]) (\<lambda>addresses.
     bnd (get_eth_contract E None) (\<lambda>eth_contract.
     bnd (comprehend (approve_main E eth_contract) addresses) (\<lambda>accounts.
     ret (new_pool accounts))))))))))))"

definition pool_size :: "env \<Rightarrow> int" where
  "pool_size E = (case nw_relayers (network E) of
      Some n \<Rightarrow> n | None \<Rightarrow> if nw_type (network E) \<noteq> ProdNet then 20 else 1)"

definition default_pool :: "env \<Rightarrow> ('m world_scheme, pool) py" where
  "default_pool E = create_pool E (nat (pool_size E)) None"

text \<open>\<^verbatim>\<open>__next__\<close>, with Python's indexing: \<open>IndexError\<close> on an empty pool.\<close>

definition next_relayer :: "pool \<Rightarrow> exn + account \<times> pool" where
  "next_relayer p =
     (let l = relayer_accounts p; i = pool_index p; n = int (length l)
      in if - n \<le> i \<and> i < n
         then Inr (l ! nat (i mod n), p\<lparr>pool_index := (i + 1) mod n\<rparr>)
         else Inl IndexError)"

definition get_relayer :: "env \<Rightarrow> int \<Rightarrow> ('m world_scheme, account) py" where
  "get_relayer E salt =
     bnd (gets relayer_pool) (\<lambda>cached.
     bnd (case cached of
            Some accounts \<Rightarrow> ret accounts
          | None \<Rightarrow> bnd (default_pool E) (\<lambda>p.
                    seq (modify (\<lambda>s. s\<lparr>relayer_pool := Some (relayer_accounts p)\<rparr>))
                        (ret (relayer_accounts p)))) (\<lambda>accounts.
     if accounts = [] then raise ZeroDivisionError
     else ret (accounts ! nat (salt mod int (length accounts)))))"

text \<open>The two columns of \<^verbatim>\<open>balances\<close>: the address, and the balance in ETH before it is formatted.\<close>

definition pool_balances :: "env \<Rightarrow> pool \<Rightarrow> ('m world_scheme, (string \<times> pynum) list) py" where
  "pool_balances E p =
     bnd (get_eth_contract E None) (\<lambda>eth_contract.
     comprehend (\<lambda>relayer.
       bnd (balance_of E eth_contract (ac_address relayer)) (\<lambda>b.
       bnd (lift_sum (num_truediv (PInt b) e18)) (\<lambda>q.
       ret (''0x'' @ fmt_hex 64 (ac_address relayer), q)))) (relayer_accounts p))"

definition withdraw_one :: "env \<Rightarrow> contract \<Rightarrow> account \<Rightarrow> int \<Rightarrow> account \<Rightarrow> ('m world_scheme, unit) py" where
  "withdraw_one E eth_contract account to relayer =
     bnd (balance_of E eth_contract (ac_address relayer)) (\<lambda>balance.
     py_when (0 < balance)
       (seq (invoke E (ByName ''ERC20'') ''transferFrom'' [Felt (ac_address relayer), Felt to, Felt balance]
              (Some (ct_address eth_contract)) (Some account)) (ret ())))"

definition withdraw_all :: "env \<Rightarrow> pool \<Rightarrow> int \<Rightarrow> ('m world_scheme, unit) py" where
  "withdraw_all E p to =
     bnd (main_account E) (\<lambda>account.
     bnd (gets (\<lambda>s. lazy_accounts s (ac_address account))) (\<lambda>is_lazy.
     seq (set_lazy (ac_address account) True)
    (bnd (get_eth_contract E None) (\<lambda>eth_contract.
     seq (for_each (relayer_accounts p) (withdraw_one E eth_contract account to))
    (seq (execute_calls E)
         (set_lazy (ac_address account) is_lazy))))))"

section \<open>The round robin\<close>

fun take_turns :: "nat \<Rightarrow> pool \<Rightarrow> exn + account list \<times> pool" where
  "take_turns 0 p = Inr ([], p)"
| "take_turns (Suc n) p =
     bind_sum (next_relayer p) (\<lambda>(a, q).
     bind_sum (take_turns n q) (\<lambda>(as, r). Inr (a # as, r)))"

definition pool_ok :: "pool \<Rightarrow> bool" where
  "pool_ok p \<longleftrightarrow> 0 \<le> pool_index p \<and> (relayer_accounts p \<noteq> [] \<longrightarrow> pool_index p < int (length (relayer_accounts p)))"

lemma next_relayer_ok:
  assumes "pool_ok p" and "relayer_accounts p \<noteq> []"
  shows "next_relayer p = Inr (relayer_accounts p ! nat (pool_index p),
      p\<lparr>pool_index := (pool_index p + 1) mod int (length (relayer_accounts p))\<rparr>)"
    and "pool_ok (p\<lparr>pool_index := (pool_index p + 1) mod int (length (relayer_accounts p))\<rparr>)"
  using assms by (simp_all add: next_relayer_def pool_ok_def Let_def)

lemma take_turns_from:
  assumes "pool_ok p" and "relayer_accounts p \<noteq> []"
  shows "take_turns n p =
    Inr (map (\<lambda>j. relayer_accounts p ! nat ((pool_index p + int j) mod int (length (relayer_accounts p)))) [0..<n],
      p\<lparr>pool_index := (if n = 0 then pool_index p
        else (pool_index p + int n) mod int (length (relayer_accounts p)))\<rparr>)"
  using assms
proof (induction n arbitrary: p)
  case (Suc n)
  let ?q = "p\<lparr>pool_index := (pool_index p + 1) mod int (length (relayer_accounts p))\<rparr>"
  have "take_turns n ?q = Inr (map (\<lambda>j. relayer_accounts p ! nat ((pool_index p + 1 + int j) mod int (length (relayer_accounts p)))) [0..<n],
      p\<lparr>pool_index := (pool_index p + 1 + int n) mod int (length (relayer_accounts p))\<rparr>)"
    using Suc.IH [of ?q] next_relayer_ok [OF Suc.prems] Suc.prems(2) by (auto simp: mod_add_left_eq)
  moreover have "[0..<Suc n] = 0 # map Suc [0..<n]" by (simp add: map_Suc_upt upt_conv_Cons)
  moreover have "pool_index p mod int (length (relayer_accounts p)) = pool_index p"
    using Suc.prems by (simp add: pool_ok_def)
  ultimately show ?case
    using next_relayer_ok [OF Suc.prems] by (simp add: o_def algebra_simps del: upt_Suc)
qed simp

text \<open>C29. The pool hands its accounts out in turn: one round of a non-empty pool gives every account
  exactly once, in order, starting after the last one given, and leaves the pool as it was.\<close>

theorem round_robin:
  assumes "pool_ok p" and "relayer_accounts p \<noteq> []"
  shows "take_turns (length (relayer_accounts p)) p =
    Inr (rotate (nat (pool_index p)) (relayer_accounts p), p)"
proof -
  let ?l = "relayer_accounts p" and ?i = "nat (pool_index p)"
  have i: "pool_index p = int ?i" "?i < length ?l" using assms by (auto simp: pool_ok_def)
  have "map (\<lambda>j. ?l ! nat ((pool_index p + int j) mod int (length ?l))) [0..<length ?l] = rotate ?i ?l"
  proof (rule nth_equalityI)
    fix j assume "j < length (map (\<lambda>j. ?l ! nat ((pool_index p + int j) mod int (length ?l))) [0..<length ?l])"
    then have "j < length ?l" by simp
    moreover have "nat ((pool_index p + int j) mod int (length ?l)) = (?i + j) mod length ?l"
      using i(1) by (metis nat_int of_nat_add zmod_int)
    ultimately show "map (\<lambda>j. ?l ! nat ((pool_index p + int j) mod int (length ?l))) [0..<length ?l] ! j =
        rotate ?i ?l ! j"
      by (simp add: nth_rotate)
  qed simp
  moreover have "(pool_index p + int (length ?l)) mod int (length ?l) = pool_index p"
    using assms by (simp add: pool_ok_def)
  ultimately show ?thesis using take_turns_from [OF assms, of "length ?l"] assms(2) by simp
qed

lemma round_robin_witness:
  "take_turns 2 \<lparr>relayer_accounts = [dev_account 1, dev_account 2], pool_index = 1\<rparr> =
     Inr ([dev_account 2, dev_account 1],
       \<lparr>relayer_accounts = [dev_account 1, dev_account 2], pool_index = 1\<rparr>)"
proof -
  let ?p = "\<lparr>relayer_accounts = [dev_account 1, dev_account 2], pool_index = 1\<rparr>"
  have "take_turns (length (relayer_accounts ?p)) ?p =
      Inr (rotate (nat (pool_index ?p)) (relayer_accounts ?p), ?p)"
    by (rule round_robin) (simp_all add: pool_ok_def)
  moreover have "length (relayer_accounts ?p) = 2" by simp
  moreover have "rotate (nat (pool_index ?p)) (relayer_accounts ?p) = [dev_account 2, dev_account 1]"
    by (simp add: rotate_def)
  ultimately show ?thesis by metis
qed

end
