(* ===== verification/RelayerFacts.thy ===== *)
theory RelayerFacts
  imports Relayers
begin

text \<open>
  Properties of the relayer pool that span the account layer: what \<^verbatim>\<open>withdraw_all\<close> submits, what a
  failed \<^verbatim>\<open>create\<close> leaves behind, and when \<^verbatim>\<open>deploy_starknet_account\<close> deploys.
\<close>

section \<open>Lazy flags\<close>

definition same_lazy :: "'m world_scheme \<Rightarrow> 'm world_scheme \<Rightarrow> bool" where
  "same_lazy s t \<longleftrightarrow> lazy_accounts t = lazy_accounts s"

interpretation same_lazy: step_relation same_lazy
  by unfold_locales (auto simp: same_lazy_def)

lemma reads_same_lazy: "rel_py reads m \<Longrightarrow> rel_py same_lazy m"
  by (erule rel_py_mono) (simp add: reads_def same_lazy_def)

lemma looks_same_lazy: "rel_py looks m \<Longrightarrow> rel_py same_lazy m"
  by (rule reads_same_lazy) (rule rel_looks_reads)

lemma quiet_same_lazy: "rel_py quiet m \<Longrightarrow> rel_py same_lazy m"
  by (erule rel_py_mono) (simp add: quiet_globals same_lazy_def)

lemma ask_same_lazy: "rel_py same_lazy (ask ev oracle)"
  by (auto simp: rel_py_def ask_cases same_lazy_def Let_def split: sum.split)

lemma execute_v1_same_lazy: "rel_py same_lazy (execute_v1 E account calls)"
proof -
  have "rel_py same_lazy (modify (\<lambda>s. s\<lparr>logs := extend_log account calls (logs s)\<rparr>))"
    by (simp add: rel_py_def modify_def same_lazy_def)
  moreover have "rel_py same_lazy (execute_v1_wrapped E account calls)"
    unfolding execute_v1_wrapped_def Let_def
    by (intro same_lazy.rules ask_same_lazy quiet_same_lazy get_nonce_quiet execute_multisig_quiet
        wait_for_transaction_quiet)
  ultimately show ?thesis
    unfolding execute_v1_def by (intro same_lazy.rules)
qed

lemma invoke_same_lazy: "rel_py same_lazy (invoke E c f args a acc)"
  unfolding invoke_def
  by (auto intro!: same_lazy.rules execute_v1_same_lazy reads_same_lazy [OF main_account_reads]
      looks_same_lazy [OF get_contract_looks] looks_same_lazy [OF looks_pieces(1)]
      split: option.split target.split)

lemma fund_address_same_lazy: "rel_py same_lazy (fund_address E a amount acc c)"
  unfolding fund_address_def Let_def
  by (auto intro!: same_lazy.rules ask_same_lazy invoke_same_lazy reads_same_lazy [OF main_account_reads]
      reads_same_lazy [OF get_eth_contract_reads(1)] reads_same_lazy [OF get_balance_reads(1)]
      looks_same_lazy [OF abi_call_looks(2)] split: option.split)

lemma fund_relayers_same_lazy: "rel_py same_lazy (fund_relayers E as amount)"
  by (induction "as" arbitrary: amount)
    (auto intro!: same_lazy.rules fund_address_same_lazy split: option.split)

section \<open>A pool that cannot be created\<close>

text \<open>C28. When funding the relayers fails, \<open>create_pool\<close> leaves with the exception and the deployer
  account is left lazy: its next transactions are only logged, whatever mode it was in before.\<close>

theorem create_pool_leaks_lazy:
  assumes "main_account E s = Ret account u"
    and "network_key E = Inr key"
    and "compute_addresses E n (u\<lparr>lazy_accounts := (lazy_accounts u)(ac_address account := True)\<rparr>) = Ret addresses v"
    and "fund_relayers E addresses amount v = Exc e t"
  shows "create_pool E n amount s = Exc e t \<and>
    execute_v1 E account calls t = Ret NoResponse (t\<lparr>logs := extend_log account calls (logs t)\<rparr>)"
proof -
  have run: "create_pool E n amount s = Exc e t"
    using assms by (simp add: create_pool_def set_lazy_def py_run Let_def)
  have "same_lazy v t" by (rule rel_pyD_Exc [OF fund_relayers_same_lazy assms(4)])
  moreover have "lazy_accounts v (ac_address account)"
  proof -
    have "rel_py same_lazy (compute_addresses E n)"
      unfolding compute_addresses_def Let_def
      by (auto intro!: same_lazy.rules same_lazy.lookups files_rel(2) simp: same_lazy_def)
    from rel_pyD_Ret [OF this assms(3)] show ?thesis by (simp add: same_lazy_def)
  qed
  ultimately have "lazy_accounts t (ac_address account)" by (simp add: same_lazy_def)
  with run show ?thesis by (simp add: execute_v1_def py_run)
qed

text \<open>A deployer without funds: account 9 with key 5, on the development network.\<close>

definition poor_env :: env where
  "poor_env = dev_env\<lparr>network := dev_network\<lparr>nw_account_address := Some ''0x9'',
     nw_private_key := Some ''0x5'', nw_class_hash := Some 3\<rparr>\<rparr>"

lemma poor_env_sel [simp]:
  "network poor_env = dev_network\<lparr>nw_account_address := Some ''0x9'',
     nw_private_key := Some ''0x5'', nw_class_hash := Some 3\<rparr>"
  "o_abi_call poor_env = (\<lambda>h a f args. Inr [Felt 0])" "o_raw_call poor_env = (\<lambda>h a f args. Inr [6])"
  "stark_public_key poor_env = (\<lambda>sk. sk + 1)" "eth_token_address poor_env = 73"
  "compute_address poor_env = (\<lambda>salt ch cd deployer. 1000 * ch + salt + deployer)"
  "build_files poor_env = [''ERC20.json'']" "abi_text poor_env = (\<lambda>p. Inr ())"
  by (simp_all add: poor_env_def)

definition poor_account :: account where
  "poor_account = \<lparr>ac_ref = 0, ac_address = 9, ac_private_key = 5, ac_public_key = 6, ac_evm = None\<rparr>"

definition poor_world :: world where
  "poor_world = dev_world\<lparr>declarations_file := Some []\<rparr>"

definition poor_world1 :: world where
  "poor_world1 = poor_world\<lparr>
     selector_to_name := [selector_of poor_env ''get_public_key'' \<mapsto> ''get_public_key''],
     trace := [RawCall 9 (selector_of poor_env ''get_public_key'') []], next_ref := 1,
     account_cache := [(NoAddr, None) \<mapsto> poor_account]\<rparr>"

lemma int16_9: "int16 ''0x9'' = Inr 9"
  by code_simp

lemma poor_main: "main_account poor_env poor_world = Ret poor_account poor_world1"
  by (simp add: main_account_def get_starknet_account_def build_starknet_account_def resolve_address_def
      resolve_private_key_def signer_selectors_def get_selector_from_name_def check_signers_def
      new_account_def Let_def int16_5 int16_9 py_run poor_world_def poor_world1_def poor_account_def)

lemma poor_main_again:
  "account_cache s (NoAddr, None) = Some a \<Longrightarrow> main_account E s = Ret a s"
  by (simp add: main_account_def get_starknet_account_def py_run)

lemma poor_abi: "get_abi poor_env ''ERC20'' = Inr [''build'', ''ERC20.json'']"
  using erc20_files by (simp add: get_abi_def get_artifact_def del: filter.simps)

lemma poor_addresses:
  "declarations_file s = Some [] \<Longrightarrow> compute_addresses poor_env 1 s = Ret [3006] s"
  by (simp add: compute_addresses_def network_key_def int16_5 get_declarations_def int_entries_def py_run Let_def)

lemma poor_fund:
  "account_cache s (NoAddr, None) = Some poor_account \<Longrightarrow>
     \<exists>e t. fund_relayers poor_env [3006] None s = Exc e t"
  by (simp add: fund_address_def default_amount_def address_int_def dev_network_def wei_of_eth_int
      poor_main_again [of s poor_account] get_eth_contract_def poor_abi get_balance_def balance_of_def abi_call_def
      felt_output_def py_run Let_def)

lemma create_pool_leaks_lazy_witness:
  "\<not> lazy_accounts poor_world 9 \<and>
   (\<exists>e t. create_pool poor_env 1 None poor_world = Exc e t \<and>
     execute_v1 poor_env poor_account [] t =
       Ret NoResponse (t\<lparr>logs := extend_log poor_account [] (logs t)\<rparr>))"
proof -
  let ?v = "poor_world1\<lparr>lazy_accounts := (lazy_accounts poor_world1)(ac_address poor_account := True)\<rparr>"
  have "account_cache ?v (NoAddr, None) = Some poor_account" by (simp add: poor_world1_def)
  then obtain e t where f: "fund_relayers poor_env [3006] None ?v = Exc e t"
    using poor_fund by blast
  have a: "compute_addresses poor_env 1 ?v = Ret [3006] ?v"
    by (rule poor_addresses) (simp add: poor_world1_def poor_world_def)
  have k: "network_key poor_env = Inr 5" by (simp add: network_key_def int16_5)
  from create_pool_leaks_lazy [OF poor_main k a f, of "[]"] show ?thesis
    by (auto simp: poor_world_def)
qed

section \<open>Withdrawing\<close>

lemma invoke_lazy_at:
  assumes "invoke E (ByName n) f args (Some x) (Some acc) s = Ret r t"
    and "handles_ok s" and "x \<noteq> 0" and "lazy_accounts s (ac_address acc)"
  obtains cd u where "serialize E n f args = Inr cd" and "looks s u" and "handles_ok u"
    and "t = u\<lparr>logs := extend_log acc
      [\<lparr>c_to = x, c_selector = selector_of E f, c_calldata = cd\<rparr>] (logs u)\<rparr>"
proof -
  obtain c u v call r' where c: "get_contract E n (Some x) (Some acc) s = Ret c u"
    and sel: "get_selector_from_name E f u = Ret (selector_of E f) v"
    and prep: "prepare_invoke E c f args = Inr call"
    and run: "execute_v1 E acc [call] v = Ret r' t"
    using assms(1)
    by (auto simp: invoke_def get_selector_from_name_def Let_def py_run split: outcome.splits sum.splits)
  have "looks s u" by (rule rel_pyD_Ret [OF get_contract_looks c])
  moreover have "looks u v" by (rule rel_pyD_Ret [OF looks_pieces(1) sel])
  ultimately have l: "looks s v" by (rule looks.R_trans)
  moreover have "handles_ok v"
    using get_contract_at(2) [OF c assms(2,3)] sel
    by (auto simp: handles_ok_def get_selector_from_name_def Let_def py_run)
  moreover have "lazy_accounts v (ac_address acc)" using l assms(4) by (simp add: looks_def)
  then have "t = v\<lparr>logs := extend_log acc [call] (logs v)\<rparr>"
    using run by (simp add: execute_v1_def py_run)
  moreover have "\<exists>cd. serialize E n f args = Inr cd \<and> call = \<lparr>c_to = x, c_selector = selector_of E f, c_calldata = cd\<rparr>"
    using prep get_contract_at(1) [OF c assms(2,3)] by (auto simp: prepare_invoke_def elim!: bind_sum_InrE)
  ultimately show thesis using that by blast
qed

text \<open>The calls that sweep the given balances, in the order of the relayers.\<close>

definition sweep_calls :: "env \<Rightarrow> int \<Rightarrow> int \<Rightarrow> (account \<times> int) list \<Rightarrow> call list" where
  "sweep_calls E eth to rbs = map (\<lambda>(r, b). \<lparr>c_to = eth, c_selector = selector_of E ''transferFrom'',
       c_calldata = projr (serialize E ''ERC20'' ''transferFrom'' [Felt (ac_address r), Felt to, Felt b])\<rparr>)
     (filter (\<lambda>(r, b). 0 < b) rbs)"

definition reported_balance :: "env \<Rightarrow> int \<Rightarrow> int \<Rightarrow> int \<Rightarrow> bool" where
  "reported_balance E token a b \<longleftrightarrow>
     (\<exists>h rest. o_abi_call E h token ''balanceOf'' [Felt a] = Inr (Felt b # rest))"

lemma withdraw_one_Ret:
  assumes "withdraw_one E c acc to r s = Ret () t" and "handles_ok s" and "ct_address c \<noteq> 0"
    and "lazy_accounts s (ac_address acc)"
  obtains b u where "reported_balance E (ct_address c) (ac_address r) b" and "looks s u" and "handles_ok u"
    and "t = u\<lparr>logs := if 0 < b then extend_log acc (sweep_calls E (ct_address c) to [(r, b)]) (logs u) else logs u\<rparr>"
proof -
  obtain b v where b: "balance_of E c (ac_address r) s = Ret b v"
    and rest: "(py_when (0 < b) (seq (invoke E (ByName ''ERC20'') ''transferFrom''
        [Felt (ac_address r), Felt to, Felt b] (Some (ct_address c)) (Some acc)) (ret ()))) v = Ret () t"
    using assms(1) unfolding withdraw_one_def by (auto elim: bnd_RetE)
  note B = balance_of_Ret [OF b]
  have rb: "reported_balance E (ct_address c) (ac_address r) b" using B(3) by (simp add: reported_balance_def)
  have h: "handles_ok v" using assms(2) B(2) by (simp add: handles_ok_def)
  show thesis
  proof (cases "0 < b")
    case True
    then obtain x where i: "invoke E (ByName ''ERC20'') ''transferFrom'' [Felt (ac_address r), Felt to, Felt b]
        (Some (ct_address c)) (Some acc) v = Ret x t"
      using rest by (auto simp: py_when_def ret_def elim!: seq_RetE)
    have "lazy_accounts v (ac_address acc)" using B(1) assms(4) by (simp add: looks_def)
    from invoke_lazy_at [OF i h assms(3) this] obtain cd u where
      "serialize E ''ERC20'' ''transferFrom'' [Felt (ac_address r), Felt to, Felt b] = Inr cd"
      and "looks v u" and "handles_ok u" and "t = u\<lparr>logs := extend_log acc
        [\<lparr>c_to = ct_address c, c_selector = selector_of E ''transferFrom'', c_calldata = cd\<rparr>] (logs u)\<rparr>" .
    moreover have "looks s u" using B(1) \<open>looks v u\<close> by (rule looks.R_trans)
    ultimately show thesis using that [OF rb, of u] True by (simp add: sweep_calls_def)
  next
    case False
    then have "t = v\<lparr>logs := logs v\<rparr>" using rest by (simp add: py_when_def ret_def)
    with that [OF rb B(1) h] False show thesis by simp
  qed
qed

definition only_log :: "account \<Rightarrow> call list \<Rightarrow> (account \<times> call list) list" where
  "only_log acc calls = (if calls = [] then [] else [(acc, calls)])"

lemma extend_only_log: "cs \<noteq> [] \<Longrightarrow> extend_log acc cs (only_log acc ds) = only_log acc (ds @ cs)"
  by (simp add: only_log_def)

lemma withdraw_loop:
  assumes "for_each rs (withdraw_one E c acc to) s = Ret () t" and "handles_ok s" and "ct_address c \<noteq> 0"
    and "lazy_accounts s (ac_address acc)" and "logs s = only_log acc calls"
  shows "\<exists>bs. list_all2 (\<lambda>r b. reported_balance E (ct_address c) (ac_address r) b) rs bs \<and>
    logs t = only_log acc (calls @ sweep_calls E (ct_address c) to (zip rs bs)) \<and>
    submitted t = submitted s \<and> lazy_accounts t = lazy_accounts s \<and>
    multisig_accounts t = multisig_accounts s"
  using assms
proof (induction rs arbitrary: s calls)
  case Nil
  then show ?case by (simp add: ret_def sweep_calls_def)
next
  case (Cons r rs)
  obtain v where one: "withdraw_one E c acc to r s = Ret () v"
    and rest: "for_each rs (withdraw_one E c acc to) v = Ret () t"
    using Cons.prems(1) by (auto elim!: seq_RetE)
  obtain b u where b: "reported_balance E (ct_address c) (ac_address r) b" and l: "looks s u" and h: "handles_ok u"
    and v: "v = u\<lparr>logs := if 0 < b then extend_log acc (sweep_calls E (ct_address c) to [(r, b)]) (logs u) else logs u\<rparr>"
    using withdraw_one_Ret [OF one Cons.prems(2,3,4)] .
  have logs: "logs v = only_log acc (calls @ sweep_calls E (ct_address c) to [(r, b)])"
  proof (cases "0 < b")
    case True
    then have "sweep_calls E (ct_address c) to [(r, b)] \<noteq> []" by (simp add: sweep_calls_def)
    with True v l Cons.prems(5) show ?thesis by (simp add: looks_def extend_only_log)
  qed (use v l Cons.prems(5) in \<open>simp add: looks_def sweep_calls_def\<close>)
  have "lazy_accounts v (ac_address acc)" using v l Cons.prems(4) by (simp add: looks_def)
  moreover have "handles_ok v" using h v by (simp add: handles_ok_def)
  ultimately obtain bs where "list_all2 (\<lambda>r b. reported_balance E (ct_address c) (ac_address r) b) rs bs"
    "logs t = only_log acc ((calls @ sweep_calls E (ct_address c) to [(r, b)]) @ sweep_calls E (ct_address c) to (zip rs bs))"
    "submitted t = submitted v" "lazy_accounts t = lazy_accounts v" "multisig_accounts t = multisig_accounts v"
    using Cons.IH [OF rest _ Cons.prems(3) _ logs] by blast
  moreover have "submitted v = submitted s \<and> lazy_accounts v = lazy_accounts s \<and> multisig_accounts v = multisig_accounts s"
    using l v looks_submitted [OF l] by (simp add: looks_def submitted_def)
  ultimately show ?case
    using b by (intro exI [of _ "b # bs"]) (simp add: sweep_calls_def)
qed

text \<open>C12. \<open>withdraw_all\<close> sweeps the pool in one transaction of the main account: it holds, in the
  order of the relayers, one \<open>transferFrom\<close> of the whole reported balance for every relayer whose
  balance is positive and nothing for the others; if there is none, nothing is sent; and the
  account's lazy mode is what it was before.\<close>

theorem withdraw_all_sweeps:
  assumes "withdraw_all E p to s = Ret () t"
    and "main_account E s = Ret acc u" and "\<not> multisig_accounts u (ac_address acc)"
    and "logs s = []" and "handles_ok u" and "eth_token_address E \<noteq> 0"
  shows "\<exists>bs. list_all2 (\<lambda>r b. reported_balance E (eth_token_address E) (ac_address r) b) (relayer_accounts p) bs \<and>
    (let calls = sweep_calls E (eth_token_address E) to (zip (relayer_accounts p) bs)
     in submitted t = submitted s @ (if calls = [] then [] else [(ac_address acc, calls)])) \<and>
    lazy_accounts t (ac_address acc) = lazy_accounts s (ac_address acc)"
proof -
  let ?u = "u\<lparr>lazy_accounts := (lazy_accounts u)(ac_address acc := True)\<rparr>"
  have "rel_py reads (main_account E)" by (rule main_account_reads)
  from rel_pyD_Ret [OF this assms(2)] have us: "submitted u = submitted s" "logs u = []"
    "lazy_accounts u = lazy_accounts s"
    using assms(4) by (simp_all add: reads_def submitted_def)
  have cached: "account_cache u (NoAddr, None) = Some acc"
    using assms(2) by (auto simp: main_account_def get_starknet_account_def py_run
        split: option.splits outcome.splits)
  obtain c v w where e: "get_eth_contract E None ?u = Ret c v"
    and loop: "for_each (relayer_accounts p) (withdraw_one E c acc to) v = Ret () w"
    and fin: "(seq (execute_calls E) (set_lazy (ac_address acc) (lazy_accounts u (ac_address acc)))) w = Ret () t"
    using assms(1,2) unfolding withdraw_all_def set_lazy_def
    by (auto simp: gets_def modify_def bnd_def seq_def split: outcome.splits)
  have "c = \<lparr>ct_name = ''ERC20'', ct_address = eth_token_address E, ct_provider = Some acc\<rparr> \<and> v = ?u"
    using e cached by (auto simp: get_eth_contract_def py_run main_account_def get_starknet_account_def
        split: sum.splits)
  then have c: "ct_address c = eth_token_address E" and v: "v = ?u" by simp_all
  have "handles_ok v" using assms(5) v by (simp add: handles_ok_def)
  moreover have "ct_address c \<noteq> 0" using assms(6) c by simp
  moreover have "lazy_accounts v (ac_address acc)" using v by simp
  moreover have "logs v = only_log acc []" using v us by (simp add: only_log_def)
  ultimately obtain bs where bs: "list_all2 (\<lambda>r b. reported_balance E (ct_address c) (ac_address r) b) (relayer_accounts p) bs"
    and logs: "logs w = only_log acc (sweep_calls E (ct_address c) to (zip (relayer_accounts p) bs))"
    and sub: "submitted w = submitted v" and m: "multisig_accounts w = multisig_accounts v"
    using withdraw_loop [OF loop, of "[]"] by auto
  obtain x where x: "execute_calls E w = Ret () x"
    and t: "t = x\<lparr>lazy_accounts := (lazy_accounts x)(ac_address acc := lazy_accounts u (ac_address acc))\<rparr>"
    using fin by (auto simp: set_lazy_def modify_def elim!: seq_RetE)
  have "\<forall>(a, cs) \<in> set (logs w). \<not> multisig_accounts w (ac_address a)"
    using assms(3) m v logs by (auto simp: only_log_def split: if_splits)
  from execute_calls_Ret(1) [OF x this] sub t logs us v bs c show ?thesis
    by (auto simp: Let_def only_log_def submitted_def)
qed

text \<open>A pool of one relayer that holds 5 wei.\<close>

definition five_env :: env where
  "five_env = poor_env\<lparr>o_abi_call := (\<lambda>h a f args. Inr [Felt 5])\<rparr>"

lemma five_env_sel [simp]:
  "network five_env = network poor_env" "selector_of five_env = selector_of poor_env"
  "o_abi_call five_env = (\<lambda>h a f args. Inr [Felt 5])" "o_raw_call five_env = (\<lambda>h a f args. Inr [6])"
  "stark_public_key five_env = (\<lambda>sk. sk + 1)" "eth_token_address five_env = 73"
  "serialize five_env = (\<lambda>c f args. Inr [])" "o_cairo_version five_env = (\<lambda>h a. Inr 1)"
  "o_pending_nonce five_env = o_pending_nonce dev_env" "o_wait_for_tx five_env = (\<lambda>h x. Inr ())"
  "o_add_invoke five_env = (\<lambda>h tx. Inr (100 + int (length (sent_txs h))))"
  "build_files five_env = [''ERC20.json'']" "abi_text five_env = (\<lambda>p. Inr ())"
  by (simp_all add: five_env_def poor_env_def)

lemma five_main: "main_account five_env poor_world = Ret poor_account poor_world1"
  by (simp add: main_account_def get_starknet_account_def build_starknet_account_def resolve_address_def
      resolve_private_key_def signer_selectors_def get_selector_from_name_def check_signers_def
      new_account_def Let_def int16_5 int16_9 py_run poor_world_def poor_world1_def poor_account_def)

lemma five_abi: "get_abi five_env ''ERC20'' = Inr [''build'', ''ERC20.json'']"
  "get_cairo_version five_env ''ERC20'' = Inr False"
  using erc20_files by (simp_all add: get_abi_def get_cairo_version_def get_artifact_def del: filter.simps)

lemma five_run:
  "\<exists>t. withdraw_all five_env (new_pool [dev_account 1]) 4 poor_world = Ret () t"
  unfolding withdraw_all_def bnd_Ret [where m = "main_account five_env", OF five_main]
  by (simp add: set_lazy_def new_pool_def get_eth_contract_def five_abi
      poor_main_again [where a = poor_account] poor_world1_def poor_world_def withdraw_one_def
      balance_of_def abi_call_def felt_output_def invoke_def get_contract_def get_selector_from_name_def
      prepare_invoke_def execute_calls_def execute_v1_def execute_v1_wrapped_def get_nonce_def
      next_nonce_def ask_nonce_def store_nonce_def wait_for_transaction_def py_run Let_def eval_nat_numeral)

lemma withdraw_all_sweeps_witness:
  "\<exists>t. withdraw_all five_env (new_pool [dev_account 1]) 4 poor_world = Ret () t \<and>
     map fst (submitted t) = [9] \<and> length (concat (map snd (submitted t))) = 1"
proof -
  obtain t where run: "withdraw_all five_env (new_pool [dev_account 1]) 4 poor_world = Ret () t"
    using five_run by blast
  have "\<not> multisig_accounts poor_world1 (ac_address poor_account)" and "handles_ok poor_world1"
    and "logs poor_world = []"
    by (simp_all add: poor_world1_def poor_world_def handles_ok_def)
  from withdraw_all_sweeps [OF run five_main this(1,3,2)] obtain bs where
    bs: "list_all2 (\<lambda>r b. reported_balance five_env 73 (ac_address r) b) [dev_account 1] bs"
    and sub: "submitted t = submitted poor_world @
      (if sweep_calls five_env 73 4 (zip [dev_account 1] bs) = [] then []
       else [(ac_address poor_account, sweep_calls five_env 73 4 (zip [dev_account 1] bs))])"
    by (auto simp: new_pool_def Let_def)
  then obtain b where "bs = [b]" and "b = 5"
    by (auto simp: list_all2_Cons1 reported_balance_def)
  with sub have "submitted t = [(9, sweep_calls five_env 73 4 [(dev_account 1, 5)])]"
    by (simp add: submitted_def poor_world_def poor_account_def sweep_calls_def)
  with run show ?thesis by (auto simp: sweep_calls_def)
qed

end
