(* ===== verification/Deploying.thy ===== *)
theory Deploying
  imports RelayerFacts
begin

text \<open>
  \<^verbatim>\<open>declare\<close> and \<^verbatim>\<open>deploy\<close> of \<^verbatim>\<open>kakarot_scripts/utils/starknet.py\<close>, and \<^verbatim>\<open>declare_contracts\<close> of
  \<^verbatim>\<open>deployment/declarations.py\<close>.  Hashing and signing of a class belong to starknet_py; the answer to a
  declaration is a class hash and a transaction hash.
\<close>

section \<open>Declaring a class\<close>

definition class_declared :: "env \<Rightarrow> int \<Rightarrow> ('m world_scheme, bool) py" where
  "class_declared E class_hash =
     try_except (seq (ask (ClassByHash class_hash) (\<lambda>h. o_class_by_hash E h class_hash)) (ret True))
       (\<lambda>_. ret False)"

definition declarer :: "env \<Rightarrow> ('m world_scheme, account) py" where
  "declarer E =
     bnd (main_account E) (\<lambda>account.
     bnd (gets (\<lambda>s. multisig_accounts s (ac_address account))) (\<lambda>multisig.
     if multisig then get_relayer E (ac_address account) else ret account))"

definition declare_class :: "env \<Rightarrow> string \<Rightarrow> ('m world_scheme, int) py" where
  "declare_class E name =
     bnd (lift_sum (get_artifact E name)) (\<lambda>artifact.
     bnd get_class_hashes (\<lambda>hashes.
     bnd (get_option KeyError (map_of hashes name)) (\<lambda>deployed_class_hash.
     bnd (class_declared E deployed_class_hash) (\<lambda>declared.
     if declared then ret deployed_class_hash
     else
       bnd (declarer E) (\<lambda>account.
       bnd (get_nonce E account) (\<lambda>nonce.
       bnd (if ar_sierra artifact \<noteq> None
            then bnd (ask (DeclareV2 (ac_address account) name nonce) (\<lambda>h. o_declare E h name nonce))
                   (\<lambda>(class_hash, tx_hash). ret (deployed_class_hash, tx_hash))
            else bnd (ask (DeclareV1 (ac_address account) name nonce) (\<lambda>h. o_declare E h name nonce))
                   (\<lambda>(class_hash, tx_hash). ret (class_hash, tx_hash))) (\<lambda>(class_hash, tx_hash).
       seq (wait_for_transaction E tx_hash (Some account))
           (ret class_hash))))))))"

definition declare_contracts :: "env \<Rightarrow> string list \<Rightarrow> ('m world_scheme, unit) py" where
  "declare_contracts E contracts =
     bnd (comprehend (\<lambda>c. bnd (declare_class E c) (\<lambda>h. ret (c, h))) contracts) dump_declarations"

section \<open>Deploying a contract\<close>

text \<open>\<^verbatim>\<open>try ... except ClientError: pass\<close>: whether what is deployed is what is declared.\<close>

definition deployed_is_current :: "env \<Rightarrow> string \<Rightarrow> int \<Rightarrow> ('m world_scheme, bool) py" where
  "deployed_is_current E name address =
     try_except
       (bnd (ask_class_hash_at E address) (\<lambda>deployed_class_hash.
        bnd get_declarations (\<lambda>declarations.
        ret (map_of declarations name = Some deployed_class_hash))))
       (\<lambda>e. if is_client_error e then ret False else raise e)"

definition already_deployed :: "env \<Rightarrow> string \<Rightarrow> ('m world_scheme, int option) py" where
  "already_deployed E name =
     bnd get_deployments (\<lambda>deployments.
     case map_of deployments name of
       None \<Rightarrow> ret None
     | Some address \<Rightarrow>
         if address = 0 then ret None
         else bnd (deployed_is_current E name address) (\<lambda>current.
              ret (if current then Some address else None)))"

definition deploy :: "env \<Rightarrow> string \<Rightarrow> int \<Rightarrow> arg list \<Rightarrow> ('m world_scheme, int) py" where
  "deploy E name salt args =
     bnd (already_deployed E name) (\<lambda>found.
     case found of
       Some address \<Rightarrow> ret address
     | None \<Rightarrow>
         seq (lift_sum (get_abi E name))
        (bnd get_declarations (\<lambda>declarations.
         bnd (main_account E) (\<lambda>account.
         bnd (get_option KeyError (map_of declarations name)) (\<lambda>class_hash.
         seq (lift_sum (get_cairo_version E name))
        (bnd (lift_sum (udc_deployment E class_hash salt args)) (\<lambda>(call, address).
         seq (execute_v1 E account [call]) (ret address))))))))"

section \<open>Deploying is idempotent\<close>

lemma already_deployed_trace:
  assumes "already_deployed E name s = Ret r u"
  shows "\<exists>evs. u = s\<lparr>trace := trace s @ evs\<rparr> \<and> sent_txs evs = []"
proof -
  have "u = s \<or> (\<exists>a. u = s\<lparr>trace := trace s @ [ClassHashAt a]\<rparr>)"
    using assms
    by (auto simp: already_deployed_def deployed_is_current_def ask_class_hash_at_def get_deployments_def
        get_declarations_def py_run split: option.splits sum.splits if_splits outcome.splits)
  moreover have "s = s\<lparr>trace := trace s @ []\<rparr>" by simp
  ultimately show ?thesis by (metis sent_txs.simps(1) sent_txs.simps(9))
qed


text \<open>The repeated run: once the deployment is recorded and the network has it, nothing is sent.\<close>

lemma deploy_again:
  assumes "map_of ds name = Some address" and "address \<noteq> 0" and "map_of cs name = Some ch"
    and "deployments_file s = Some (hex_entries ds)" and "declarations_file s = Some (hex_entries cs)"
    and "o_class_hash_at E (trace s @ [ClassHashAt address]) address = Inr ch"
  shows "deploy E name salt args s = Ret address (s\<lparr>trace := trace s @ [ClassHashAt address]\<rparr>)"
  using assms
  by (simp add: deploy_def already_deployed_def deployed_is_current_def get_deployments_def
      get_declarations_def ask_class_hash_at_def int_hex_entries py_run)

definition counter_world :: world where
  "counter_world = poor_world1\<lparr>deployments_file := Some (hex_entries [(''ERC20'', 77)]),
     declarations_file := Some (hex_entries [(''ERC20'', 5)])\<rparr>"

definition counter_env :: env where
  "counter_env = poor_env\<lparr>o_class_hash_at := (\<lambda>h a. Inr 5)\<rparr>"


section \<open>Declaring is idempotent\<close>

text \<open>A class the network knows is not declared again: no nonce is taken, no transaction is sent,
  and the answer is the class hash that compilation recorded.\<close>

theorem declare_known_class:
  assumes "get_artifact E name = Inr art" and "class_hashes_file s = Some (hex_entries hs)"
    and "map_of hs name = Some ch"
    and "o_class_by_hash E (trace s @ [ClassByHash ch]) ch = Inr ()"
  shows "declare_class E name s = Ret ch (s\<lparr>trace := trace s @ [ClassByHash ch]\<rparr>)"
  using assms
  by (simp add: declare_class_def class_declared_def get_class_hashes_def int_hex_entries py_run)

lemma erc20_artifact:
  "build_files E = [''ERC20.json''] \<Longrightarrow>
     get_artifact E ''ERC20'' = Inr \<lparr>ar_sierra = None, ar_casm = [''build'', ''ERC20.json'']\<rparr>"
  using erc20_files by (simp add: get_artifact_def del: filter.simps)

lemma declare_known_class_witness:
  "declare_class (dev_env\<lparr>o_class_by_hash := (\<lambda>h c. Inr ())\<rparr>) ''ERC20''
     (dev_world\<lparr>class_hashes_file := Some (hex_entries [(''ERC20'', 12)])\<rparr>) =
   Ret 12 (dev_world\<lparr>class_hashes_file := Some (hex_entries [(''ERC20'', 12)]), trace := [ClassByHash 12]\<rparr>)"
  using declare_known_class [OF erc20_artifact, of "dev_env\<lparr>o_class_by_hash := (\<lambda>h c. Inr ())\<rparr>"
      "dev_world\<lparr>class_hashes_file := Some (hex_entries [(''ERC20'', 12)])\<rparr>" "[(''ERC20'', 12)]" 12]
  by simp

end
