(* ===== verification/KakarotWorld.thy ===== *)
theory KakarotWorld
  imports Deploying
begin

text \<open>
  The state and the environment of \<^verbatim>\<open>kakarot_scripts/utils/kakarot.py\<close>: its own \<^verbatim>\<open>_nonces\<close> (of the
  EVM accounts, apart from the Starknet nonces), its caches and files beside those of
  \<^verbatim>\<open>starknet.py\<close>, and its nonce protocol.  The EVM node behind \<^verbatim>\<open>WEB3\<close> is connected for the
  whole run or not at all.
\<close>

section \<open>Environment\<close>

text \<open>The transaction of \<^verbatim>\<open>eth_send_transaction\<close>; \<open>None\<close> as target creates a contract.\<close>

record evm_payload =
  ep_chain_id :: int
  ep_nonce :: int
  ep_gas :: int
  ep_gas_price :: int
  ep_to :: "int option"
  ep_value :: int
  ep_data :: "byte list"

text \<open>A receipt of the EVM node with its logs, and the one form of receipt the client returns.\<close>

record log_receipt =
  lr_address :: string
  lr_data :: "byte list"
  lr_index :: nat
  lr_topics :: "byte list list"

record web3_receipt =
  wr_status :: int
  wr_gas_used :: int
  wr_contract_address :: "int option"
  wr_to :: "int option"
  wr_logs :: "log_receipt list"

datatype any_receipt = SnReceipt receipt | Web3Receipt web3_receipt

text \<open>What a transaction came to: receipt, response, success flag and gas used.\<close>

type_synonym evm_result = "any_receipt \<times> int list \<times> int \<times> int"

text \<open>A pre-EIP-155 transaction of \<^verbatim>\<open>PRE_EIP155_TX\<close>.\<close>

record pre_tx =
  pt_deployer :: int
  pt_signed :: "byte list"
  pt_address :: int
  pt_required :: pynum

text \<open>A function of a Solidity contract comes with what the ABI says of it: its mutability and its encoding
  and decoding, which are eth_abi's.  An ABI lists functions by name and by signature.\<close>

record sol_fun =
  sf_mutability :: string
  sf_encode :: "arg list \<Rightarrow> exn + byte list"
  sf_decode :: "byte list \<Rightarrow> exn + arg list"

type_synonym abi = "(string \<times> string \<times> sol_fun) list"

text \<open>The places where a library address goes are (start, length) in bytes, by library name under the key
  of the file or the application that has the library.  A compilation output has the stem of its file, the
  source files it was compiled for, the two codes with their references, and the ABI; an artifact is what
  the client makes of it.\<close>

type_synonym 'k links = "('k \<times> (string \<times> (nat \<times> nat) list) list) list"

record compilation =
  cp_stem :: string
  cp_targets :: "string list"
  cp_object :: string
  cp_links :: "string list links"
  cp_runtime :: string
  cp_runtime_links :: "string list links"
  cp_abi :: abi

record sol_artifact =
  sa_object :: string
  sa_links :: "string links"
  sa_runtime :: string
  sa_runtime_links :: "string links"
  sa_abi :: abi

text \<open>The environment: the source path of \<^verbatim>\<open>foundry.toml\<close>, the compilation outputs and the Solidity files
  as the directories list them, and the packages for the EVM.\<close>

record kk_env =
  web3_connected :: bool
  evm_private_key :: int
  evm_address_of :: "int \<Rightarrow> int"
  sign_evm :: "int \<Rightarrow> evm_payload \<Rightarrow> exn + int \<times> int \<times> int \<times> byte list"
  rlp_typed :: "evm_payload \<Rightarrow> exn + byte list"
  rlp_items :: "byte list \<Rightarrow> exn + byte list list"
  rlp_list :: "byte list list \<Rightarrow> byte list"
  keccak :: "byte list \<Rightarrow> byte list"
  foundry_src :: "string list"
  compilations :: "compilation list"
  sol_sources :: "string list list"
  constructor_data :: "string \<Rightarrow> string \<Rightarrow> string \<Rightarrow> arg list \<Rightarrow> exn + byte list"
  exn_data :: "exn \<Rightarrow> string option"
  pre_rest :: "string \<Rightarrow> byte list"
  o_web3_nonce :: "event list \<Rightarrow> int \<Rightarrow> exn + int"
  o_web3_send :: "event list \<Rightarrow> byte list \<Rightarrow> exn + web3_receipt"
  o_web3_call :: "event list \<Rightarrow> exn + byte list"

section \<open>State\<close>

record kk_entry =
  ke_address :: string
  ke_starknet_address :: string

record kk_world = world +
  evm_nonces :: "int \<rightharpoonup> int"
  library_cache :: "string \<times> string \<rightharpoonup> int"
  kakarot_file :: "(string \<times> kk_entry) list option"
  should_deploy :: "string \<rightharpoonup> bool"

definition store_evm_nonce :: "int \<Rightarrow> int \<Rightarrow> 'm kk_world_scheme \<Rightarrow> 'm kk_world_scheme" where
  "store_evm_nonce k n s = s\<lparr>evm_nonces := (evm_nonces s)(k \<mapsto> n)\<rparr>"

text \<open>\<^verbatim>\<open>to_checksum_address\<close> of an address written with 40 digits: a longer number is no address.\<close>

definition checksum_address :: "env \<Rightarrow> int \<Rightarrow> exn + string" where
  "checksum_address E a =
     (if 0 \<le> a \<and> a < 2 ^ 160 then Inr (checksum E a) else Inl (ValueError ''not an address''))"

section \<open>EVM nonces\<close>

text \<open>The nonce of an account by the EVM node, or by the account contract on Starknet.\<close>

definition ask_evm_nonce :: "env \<Rightarrow> kk_env \<Rightarrow> account \<Rightarrow> ('m kk_world_scheme, int) py" where
  "ask_evm_nonce E K account =
     (if web3_connected K
      then bnd (get_option AttributeError (ac_evm account)) (\<lambda>evm.
           ask (Web3Nonce evm) (\<lambda>h. o_web3_nonce K h evm))
      else bnd (get_contract E ''account_contract'' (Some (ac_address account)) None) (\<lambda>c.
           bnd (abi_call E c ''get_nonce'' []) felt_output))"

definition get_evm_nonce :: "env \<Rightarrow> kk_env \<Rightarrow> account \<Rightarrow> ('m kk_world_scheme, int) py" where
  "get_evm_nonce E K account =
     next_nonce evm_nonces store_evm_nonce (ask_evm_nonce E K account)
       (emit (Sleep (PFloat (rnd (1 / 10))))) (ac_address account)"

text \<open>The last answer, whichever way it was asked for.\<close>

definition evm_answered :: "env \<Rightarrow> kk_env \<Rightarrow> account \<Rightarrow> 'm kk_world_scheme \<Rightarrow> int \<Rightarrow> bool" where
  "evm_answered E K account s n \<longleftrightarrow>
     (if web3_connected K
      then \<exists>evm. ac_evm account = Some evm \<and> o_web3_nonce K (trace s) evm = Inr n
      else \<exists>a rest. o_abi_call E (trace s) a ''get_nonce'' [] = Inr (Felt n # rest) \<and>
        last (trace s) = AbiCall ''account_contract'' a ''get_nonce'' [])"

definition same_evm_nonces :: "'m kk_world_scheme \<Rightarrow> 'm kk_world_scheme \<Rightarrow> bool" where
  "same_evm_nonces s t \<longleftrightarrow> evm_nonces t = evm_nonces s"

interpretation same_evm_nonces: step_relation same_evm_nonces
  by unfold_locales (auto simp: same_evm_nonces_def)

lemma same_evm_nonces_pieces [frame]:
  "rel_py same_evm_nonces (ask ev oracle)" "rel_py same_evm_nonces (emit ev)"
  "rel_py same_evm_nonces (felt_output r)" "rel_py same_evm_nonces get_deployments"
  "rel_py same_evm_nonces (modify (\<lambda>s. s\<lparr>contract_cache := f s\<rparr>))"
  "rel_py same_evm_nonces (get_contract E name a p)"
  by (auto simp: rel_py_def same_evm_nonces_def py_run felt_output_def get_deployments_def
      get_contract_def Let_def split: option.split sum.split list.split arg.split outcome.split)

lemma ask_evm_nonce_frame: "rel_py same_evm_nonces (ask_evm_nonce E K account)"
  unfolding ask_evm_nonce_def abi_call_def
  by (auto intro!: same_evm_nonces.rules same_evm_nonces.lookups same_evm_nonces_pieces)

lemma get_contract_name: "get_contract E name a p s = Ret c t \<Longrightarrow> ct_name c = name"
  by (auto simp: get_contract_def Let_def py_run split: option.splits sum.splits outcome.splits if_splits)

lemma get_contract_total: "get_contract E name a p s \<noteq> Diverge"
  by (auto simp: get_contract_def Let_def py_run get_deployments_def
      split: option.splits sum.splits outcome.splits if_splits)

lemma ask_evm_nonce_answered:
  assumes "ask_evm_nonce E K account s = Ret n t"
  shows "evm_answered E K account t n"
proof (cases "web3_connected K")
  case True
  with assms show ?thesis
    by (auto simp: ask_evm_nonce_def evm_answered_def py_run split: option.splits sum.splits)
next
  case False
  then have "(bnd (get_contract E ''account_contract'' (Some (ac_address account)) None) (\<lambda>c.
           bnd (abi_call E c ''get_nonce'' []) felt_output)) s = Ret n t"
    using assms by (simp add: ask_evm_nonce_def)
  then obtain c u out where "get_contract E ''account_contract'' (Some (ac_address account)) None s = Ret c u"
    and "abi_call E c ''get_nonce'' [] u = Ret out t" and "\<exists>rest. out = Felt n # rest"
    by (auto simp: felt_output_def ret_def raise_def split: list.splits arg.splits elim!: bnd_RetE)
  then show ?thesis using False get_contract_name
    by (auto simp: evm_answered_def abi_call_def ask_cases Let_def split: sum.splits)
qed

interpretation kk_nonce: nonce_counter evm_nonces store_evm_nonce "ask_evm_nonce E K account"
    "emit (Sleep d)" "evm_answered E K account" for E K account d
proof
  fix k n s m
  show "evm_nonces (store_evm_nonce k n s) = (evm_nonces s)(k \<mapsto> n)"
    by (simp add: store_evm_nonce_def)
  show "rel_py (\<lambda>s t. evm_nonces t = evm_nonces s) (ask_evm_nonce E K account)"
    using ask_evm_nonce_frame unfolding same_evm_nonces_def .
  show "rel_py (\<lambda>s t. evm_nonces t = evm_nonces s) (emit (Sleep d))"
    using same_evm_nonces_pieces(2) unfolding same_evm_nonces_def .
  show "ask_evm_nonce E K account s = Ret n t \<Longrightarrow> evm_answered E K account t n" for t
    by (rule ask_evm_nonce_answered)
  show "evm_answered E K account (store_evm_nonce k n s) m = evm_answered E K account s m"
    by (simp add: evm_answered_def store_evm_nonce_def)
  show "ask_evm_nonce E K account s \<noteq> Diverge"
    by (auto simp: ask_evm_nonce_def abi_call_def felt_output_def py_run get_contract_total
        split: option.splits sum.splits outcome.splits list.splits arg.splits)
  show "emit (Sleep d) s \<noteq> Diverge"
    by (simp add: emit_def modify_def)
qed

lemma get_evm_nonce_looks: "rel_py looks (get_evm_nonce E K account)"
proof -
  have "rel_py looks (ask_evm_nonce E K account)"
    unfolding ask_evm_nonce_def
    by (auto intro!: looks.rules looks.lookups ask_looks get_contract_looks abi_call_looks looks_pieces)
  then show ?thesis
    unfolding get_evm_nonce_def
    by (rule looks.next_nonce_rel)
      (simp_all add: rel_py_def py_run looks_def store_evm_nonce_def)
qed

text \<open>EVM transactions get the nonce the network reported last, from the EVM node when it is
  connected and from the account contract otherwise; the EVM nonce dictionary is left one ahead
  for that account, and the Starknet nonces are untouched.\<close>

theorem get_evm_nonce_spec:
  assumes "get_evm_nonce E K account s = Ret n t"
  shows "evm_nonces t = (evm_nonces s)(ac_address account \<mapsto> n + 1) \<and>
    evm_answered E K account t n \<and> nonces t = nonces s"
proof -
  have "looks s t" by (rule rel_pyD_Ret [OF get_evm_nonce_looks assms])
  then show ?thesis
    using kk_nonce.next_nonce_Ret [OF assms [unfolded get_evm_nonce_def]] by (simp add: looks_def)
qed

end
