(* ===== verification/KakarotTx.thy ===== *)
theory KakarotTx
  imports KakarotWorld
begin

text \<open>
  Sending transactions through \<^verbatim>\<open>kakarot_scripts/utils/kakarot.py\<close>: the addresses of EVM accounts, their
  funding and deployment, \<^verbatim>\<open>send_starknet_transaction\<close> with its polling for the receipt and its
  parsing of the execution event, \<^verbatim>\<open>eth_send_transaction\<close>, and the pre-EIP-155 transactions.
\<close>

section \<open>Addresses and balances\<close>

definition get_starknet_address :: "env \<Rightarrow> addr_arg \<Rightarrow> ('m world_scheme, int) py" where
  "get_starknet_address E address =
     bnd (lift_sum (address_int address)) (\<lambda>evm_address.
     bnd (get_contract E ''kakarot'' None None) (\<lambda>c.
     bnd (abi_call E c ''get_starknet_address'' [Felt evm_address]) felt_output))"

definition eth_balance_of :: "env \<Rightarrow> addr_arg \<Rightarrow> ('m world_scheme, int) py" where
  "eth_balance_of E address =
     bnd (get_starknet_address E address) (\<lambda>a. get_balance E (AddrInt a) None)"

definition eth_get_code :: "env \<Rightarrow> addr_arg \<Rightarrow> ('m world_scheme, byte list) py" where
  "eth_get_code E address =
     bnd (get_starknet_address E address) (\<lambda>a.
     bnd (call_fn E (ByName ''account_contract'') ''bytecode'' [] (Some a)) (\<lambda>r.
       case r of Felts ns # _ \<Rightarrow> lift_sum (bytes_of_ints ns) | _ \<Rightarrow> raise AttributeError))"

text \<open>The nonce of an account that may not be deployed: the error that says so counts as 0.\<close>

definition eth_get_transaction_count :: "env \<Rightarrow> kk_env \<Rightarrow> int \<Rightarrow> ('m world_scheme, int) py" where
  "eth_get_transaction_count E K evm_address =
     bnd (bnd (call_fn E (ByName ''kakarot'') ''get_starknet_address'' [Felt evm_address] None) felt_output)
       (\<lambda>starknet_address.
     try_except
       (bnd (call_fn E (ByName ''kakarot'') ''eth_get_transaction_count'' [Felt evm_address] None) felt_output)
       (\<lambda>e. case exn_data K e of
            None \<Rightarrow> raise AttributeError
          | Some d \<Rightarrow>
              if contains (''Requested contract address 0x'' @ fmt_hex 64 starknet_address @ '' is not deployed'') d
              then ret 0 else raise e))"

definition eth_chain_id :: "env \<Rightarrow> ('m world_scheme, int) py" where
  "eth_chain_id E = bnd (call_fn E (ByName ''kakarot'') ''eth_chain_id'' [] None) felt_output"

section \<open>Funding and deploying EVM accounts\<close>

definition kk_fund_address :: "env \<Rightarrow> addr_arg \<Rightarrow> pynum \<Rightarrow> ('m world_scheme, unit) py" where
  "kk_fund_address E address amount =
     bnd (get_starknet_address E address) (\<lambda>a. fund_address E (AddrInt a) amount None None)"

definition contract_exists :: "env \<Rightarrow> int \<Rightarrow> ('m world_scheme, bool) py" where
  "contract_exists E address =
     try_except (seq (ask_class_hash_at E address) (ret True))
       (\<lambda>e. if is_client_error e then ret False else raise e)"

definition deploy_and_fund_evm_address :: "env \<Rightarrow> int \<Rightarrow> pynum \<Rightarrow> ('m world_scheme, int) py" where
  "deploy_and_fund_evm_address E evm_address amount =
     bnd (get_starknet_address E (AddrInt evm_address)) (\<lambda>starknet_address.
     bnd (eth_balance_of E (AddrInt evm_address)) (\<lambda>account_balance.
     seq (py_when (PInt account_balance < amount)
            (kk_fund_address E (AddrInt evm_address) (num_sub amount (PInt account_balance))))
    (bnd (contract_exists E starknet_address) (\<lambda>deployed.
     seq (py_when (\<not> deployed)
            (bnd (get_relayer E evm_address) (\<lambda>relayer.
             seq (invoke E (ByName ''kakarot'') ''deploy_externally_owned_account'' [Felt evm_address]
                    None (Some relayer))
                 (ret ()))))
         (ret starknet_address)))))"

definition get_eoa :: "env \<Rightarrow> kk_env \<Rightarrow> int option \<Rightarrow> pynum \<Rightarrow> ('m world_scheme, account) py" where
  "get_eoa E K private_key amount =
     (let key = (case private_key of Some k \<Rightarrow> k | None \<Rightarrow> evm_private_key K);
          evm_address = evm_address_of K key
      in bnd (deploy_and_fund_evm_address E evm_address amount) (\<lambda>starknet_address.
         bnd (gets next_ref) (\<lambda>r.
         seq (modify (\<lambda>s. s\<lparr>next_ref := Suc r\<rparr>))
             (ret \<lparr>ac_ref = r, ac_address = starknet_address, ac_private_key = key,
                   ac_public_key = evm_address, ac_evm = Some evm_address\<rparr>))))"

section \<open>The execution event\<close>

text \<open>\<^verbatim>\<open>event.keys[0]\<close> fails on an event of the account without keys.\<close>

fun executed_events :: "int \<Rightarrow> int \<Rightarrow> sn_event list \<Rightarrow> exn + sn_event list" where
  "executed_events key address [] = Inr []"
| "executed_events key address (ev # evs) =
     (if ev_from ev = address
      then (case ev_keys ev of
              [] \<Rightarrow> Inl IndexError
            | k # _ \<Rightarrow> bind_sum (executed_events key address evs) (\<lambda>r. Inr (if k = key then ev # r else r)))
      else executed_events key address evs)"

text \<open>\<^verbatim>\<open>(response_len, *response, success, gas_used) = data\<close>, then the check of the length.\<close>

definition unpack_executed :: "int list \<Rightarrow> exn + int list \<times> int \<times> int" where
  "unpack_executed data =
     (if length data < 3 then Inl (ValueError ''not enough values to unpack'')
      else let response = butlast (butlast (tl data))
           in if hd data \<noteq> int (length response) then Inl (ValueError ''Not able to parse event data'')
              else Inr (response, last (butlast data), last data))"

section \<open>Sending\<close>

definition ask_receipt :: "env \<Rightarrow> int option \<Rightarrow> ('m world_scheme, receipt) py" where
  "ask_receipt E tx_hash =
     (case tx_hash of
        None \<Rightarrow> raise (OtherException ''no transaction hash'')
      | Some h \<Rightarrow> ask (GetReceipt h) (\<lambda>hist. o_receipt E hist h))"

fun poll_receipt :: "env \<Rightarrow> int option \<Rightarrow> int \<Rightarrow> nat \<Rightarrow> ('m world_scheme, receipt) py" where
  "poll_receipt E tx_hash check_interval 0 =
     raise (case tx_hash of None \<Rightarrow> TypeError | Some _ \<Rightarrow> ValueError ''Transaction not found'')"
| "poll_receipt E tx_hash check_interval (Suc attempts) =
     bnd (try_except (bnd (ask_receipt E tx_hash) (\<lambda>r. ret (Some r)))
            (\<lambda>_. seq (emit (Sleep (PInt check_interval))) (ret None))) (\<lambda>r.
     case r of Some receipt \<Rightarrow> ret receipt
     | None \<Rightarrow> poll_receipt E tx_hash check_interval attempts)"

definition bytes_of_text :: "string \<Rightarrow> byte list" where
  "bytes_of_text = map of_char"

definition outside_execution :: "int \<Rightarrow> (string \<times> int) list" where
  "outside_execution timestamp =
     [(''caller'', from_bytes_big (bytes_of_text ''ANY_CALLER'')), (''nonce'', 0),
      (''execute_after'', timestamp - 60 * 60), (''execute_before'', timestamp + 60 * 60)]"

definition outside_args :: "int \<Rightarrow> int list \<Rightarrow> int \<Rightarrow> int \<Rightarrow> int \<Rightarrow> arg list" where
  "outside_args timestamp packed r s v =
     [Struct [outside_execution timestamp],
      Struct [[(''to'', 0xDEAD), (''selector'', 0xDEAD), (''data_offset'', 0),
               (''data_len'', int (length packed))]],
      Felts packed,
      Felts [fst (int_to_uint256 r), snd (int_to_uint256 r), fst (int_to_uint256 s),
             snd (int_to_uint256 s), v]]"

definition release_evm_nonce :: "int \<Rightarrow> ('m kk_world_scheme, unit) py" where
  "release_evm_nonce a = bnd (lookup_key evm_nonces a) (\<lambda>n. modify (store_evm_nonce a (n - 1)))"

definition receipt_attempts :: "env \<Rightarrow> exn + int \<times> nat" where
  "receipt_attempts E =
     (let check_interval = math_ceil (nw_check_interval (network E))
      in bind_sum (num_floordiv (nw_max_wait (network E)) (PInt check_interval)) (\<lambda>attempts.
         bind_sum (py_range attempts) (\<lambda>n. Inr (check_interval, n))))"

definition settle_receipt :: "env \<Rightarrow> account \<Rightarrow> receipt \<Rightarrow> ('m kk_world_scheme, evm_result) py" where
  "settle_receipt E account rc =
     bnd (lift_sum (executed_events (starknet_keccak E (bytes_of_text ''transaction_executed''))
            (ac_address account) (rc_events rc))) (\<lambda>transaction_events.
     if rc_reverted rc
     then seq (release_evm_nonce (ac_address account))
              (raise (StarknetTransactionError (rc_revert_reason rc)))
     else case transaction_events of
            [ev] \<Rightarrow> bnd (lift_sum (unpack_executed (ev_data ev))) (\<lambda>(response, success, gas_used).
                    ret (SnReceipt rc, response, success, gas_used))
          | _ \<Rightarrow> raise (ValueError ''Cannot locate the single event giving the actual tx status''))"

definition send_starknet_transaction ::
    "env \<Rightarrow> account \<Rightarrow> int \<Rightarrow> int \<Rightarrow> int \<Rightarrow> int list \<Rightarrow> ('m kk_world_scheme, evm_result) py" where
  "send_starknet_transaction E evm_account r s v packed =
     bnd (get_relayer E (ac_address evm_account)) (\<lambda>relayer.
     bnd (ask GetBlock (o_block_timestamp E)) (\<lambda>timestamp.
     bnd (invoke E (ByName ''account_contract'') ''execute_from_outside''
            (outside_args timestamp packed r s v) (Some (ac_address evm_account)) (Some relayer)) (\<lambda>tx_hash.
     bnd (lift_sum (receipt_attempts E)) (\<lambda>(check_interval, attempts).
     bnd (poll_receipt E tx_hash check_interval attempts) (settle_receipt E evm_account)))))"

text \<open>The target is \<open>None\<close> for a \<^verbatim>\<open>to\<close> that Python takes for false, the number 0; the text of the zero address
  is a target.\<close>

definition eth_send_transaction ::
    "env \<Rightarrow> kk_env \<Rightarrow> int option \<Rightarrow> byte list \<Rightarrow> int \<Rightarrow> int \<Rightarrow> account option \<Rightarrow> int \<Rightarrow>
       ('m kk_world_scheme, evm_result) py" where
  "eth_send_transaction E K to data gas value caller_eoa gas_price =
     bnd (case caller_eoa of Some a \<Rightarrow> ret a | None \<Rightarrow> get_eoa E K None (PInt 0)) (\<lambda>evm_account.
     bnd (if web3_connected K
          then bnd (get_option AttributeError (ac_evm evm_account)) (\<lambda>evm.
               ask (Web3Nonce evm) (\<lambda>h. o_web3_nonce K h evm))
          else get_evm_nonce E K evm_account) (\<lambda>nonce.
     let payload = \<lparr>ep_chain_id = nw_chain_id (network E), ep_nonce = nonce, ep_gas = gas,
           ep_gas_price = gas_price, ep_to = to, ep_value = value, ep_data = data\<rparr>
     in bnd (lift_sum (sign_evm K (ac_private_key evm_account) payload)) (\<lambda>(r, s, v, raw).
        if web3_connected K
        then bnd (ask (Web3Send raw) (\<lambda>h. o_web3_send K h raw)) (\<lambda>receipt.
             ret (Web3Receipt receipt, [], wr_status receipt, wr_gas_used receipt))
        else bnd (lift_sum (rlp_typed K payload)) (\<lambda>encoded.
             bnd (lift_sum (pack_calldata (1 # encoded))) (\<lambda>packed.
             send_starknet_transaction E evm_account r s v packed)))))"

section \<open>Pre-EIP-155 transactions\<close>

text \<open>The table of \<^verbatim>\<open>data/pre_eip155_txs.py\<close>.  The signed transactions are long; of them it takes the first bytes, as
  far as the gas limit, and the rest is an argument.\<close>

definition pre_eip155_head :: "string \<Rightarrow> string" where
  "pre_eip155_head name =
     (if name = ''Multicall3'' then ''f90f538085174876e800830f4240''
      else if name = ''ArachnidProxy'' then ''f8a58085174876e800830186a0''
      else ''f92f698085174876e800832dc6c0'')"

definition signed_tx :: "(string \<Rightarrow> byte list) \<Rightarrow> string \<Rightarrow> byte list" where
  "signed_tx rest name = (case fromhex (pre_eip155_head name) of Inr bs \<Rightarrow> bs @ rest name | Inl _ \<Rightarrow> [])"

definition PRE_EIP155_TX :: "(string \<Rightarrow> byte list) \<Rightarrow> (string \<times> pre_tx) list" where
  "PRE_EIP155_TX rest =
     [(''Multicall3'',
       \<lparr>pt_deployer = 0x05f32b3cc3888453ff71b01135b34ff8e41263f2, pt_signed = signed_tx rest ''Multicall3'',
        pt_address = 0xcA11bde05977b3631167028862bE2a173976CA11, pt_required = PFloat (rnd (1 / 10))\<rparr>),
      (''ArachnidProxy'',
       \<lparr>pt_deployer = 0x3fab184622dc19b6109349b94811493bf2a45362, pt_signed = signed_tx rest ''ArachnidProxy'',
        pt_address = 0x4e59b44847b379578588920ca78fbf26c0b4956c, pt_required = PFloat (rnd (1 / 10))\<rparr>),
      (''CreateX'',
       \<lparr>pt_deployer = 0xeD456e05CaAb11d66C4c797dD6c1D6f9A7F352b5, pt_signed = signed_tx rest ''CreateX'',
        pt_address = 0xba5Ed099633D3B313e4D5F7bdc1305d3c28ba5Ed, pt_required = PFloat (rnd (3 / 10))\<rparr>)]"

definition pre_tx_of :: "kk_env \<Rightarrow> string \<Rightarrow> ('s, pre_tx) py" where
  "pre_tx_of K name = get_option KeyError (map_of (PRE_EIP155_TX (pre_rest K)) name)"

text \<open>\<^verbatim>\<open>PRE_EIP155_TX[name].get("should_deploy", False)\<close>\<close>

definition wants_deploy :: "string \<Rightarrow> 'm kk_world_scheme \<Rightarrow> bool" where
  "wants_deploy name s = (case should_deploy s name of Some b \<Rightarrow> b | None \<Rightarrow> False)"

definition set_should_deploy :: "string \<Rightarrow> bool \<Rightarrow> ('m kk_world_scheme, unit) py" where
  "set_should_deploy name b = modify (\<lambda>s. s\<lparr>should_deploy := (should_deploy s)(name \<mapsto> b)\<rparr>)"

text \<open>\<^verbatim>\<open>rlp_decoded[:-3]\<close>\<close>

definition unsigned_items :: "byte list list \<Rightarrow> byte list list" where
  "unsigned_items items = take (length items - 3) items"

definition deploy_pre_eip155_sender :: "env \<Rightarrow> kk_env \<Rightarrow> string \<Rightarrow> ('m kk_world_scheme, unit) py" where
  "deploy_pre_eip155_sender E K name =
     bnd (pre_tx_of K name) (\<lambda>tx.
     bnd (lift_sum (rlp_items K (pt_signed tx))) (\<lambda>items.
     bnd (get_option IndexError (case unsigned_items items of [] \<Rightarrow> None | x # _ \<Rightarrow> Some x)) (\<lambda>first.
     bnd (eth_get_transaction_count E K (pt_deployer tx)) (\<lambda>nonce.
     if nonce \<noteq> from_bytes_big first then set_should_deploy name False
     else seq (deploy_and_fund_evm_address E (pt_deployer tx) (pt_required tx))
              (set_should_deploy name True)))))"

definition whitelist_pre_eip155_tx :: "env \<Rightarrow> kk_env \<Rightarrow> string \<Rightarrow> ('m kk_world_scheme, unit) py" where
  "whitelist_pre_eip155_tx E K name =
     bnd (pre_tx_of K name) (\<lambda>tx.
     bnd (gets (wants_deploy name)) (\<lambda>wanted.
     if \<not> wanted then ret ()
     else bnd (lift_sum (rlp_items K (pt_signed tx))) (\<lambda>items.
          let msg_hash = from_bytes_big (keccak K (rlp_list K (unsigned_items items)))
          in seq (invoke E (ByName ''kakarot'') ''set_authorized_pre_eip155_tx''
                    [Felt (pt_deployer tx), Felt msg_hash] None None)
                 (ret ()))))"

definition send_pre_eip155_transaction ::
    "env \<Rightarrow> kk_env \<Rightarrow> string \<Rightarrow> ('m kk_world_scheme, evm_result option) py" where
  "send_pre_eip155_transaction E K name =
     bnd (pre_tx_of K name) (\<lambda>tx.
     bnd (get_starknet_address E (AddrInt (pt_deployer tx))) (\<lambda>deployer_starknet_address.
     bnd (gets (wants_deploy name)) (\<lambda>wanted.
     if \<not> wanted then ret None
     else if web3_connected K
     then bnd (ask (Web3Send (pt_signed tx)) (\<lambda>h. o_web3_send K h (pt_signed tx))) (\<lambda>receipt.
          ret (Some (Web3Receipt receipt, [], wr_status receipt, wr_gas_used receipt)))
     else
       bnd (gets next_ref) (\<lambda>ref.
       seq (modify (\<lambda>s. s\<lparr>next_ref := Suc ref\<rparr>))
      (let sender = \<lparr>ac_ref = ref, ac_address = deployer_starknet_address, ac_private_key = 0x10,
             ac_public_key = 0x20, ac_evm = None\<rparr>
       in bnd (lift_sum (rlp_items K (pt_signed tx))) (\<lambda>items.
          case drop (length items - 3) items of
            [v, r, s] \<Rightarrow>
              bnd (lift_sum (pack_calldata (rlp_list K (unsigned_items items)))) (\<lambda>packed.
              bnd (send_starknet_transaction E sender (from_bytes_big r) (from_bytes_big s)
                     (from_bytes_big v) packed) (\<lambda>x. ret (Some x)))
          | _ \<Rightarrow> raise (ValueError ''not enough values to unpack'')))))))"

end
