(* ===== verification/KakarotTxFacts.thy ===== *)
theory KakarotTxFacts
  imports KakarotTx
begin

text \<open>
  Properties of sending: the layout of the execution event, how a receipt is settled, that
  polling ends, and what \<^verbatim>\<open>eth_send_transaction\<close> submits.
\<close>

section \<open>The execution event\<close>

lemma split_last_two:
  assumes "3 \<le> length data"
  shows "data = hd data # butlast (butlast (tl data)) @ [last (butlast data), last data]"
proof -
  obtain x xs where d: "data = x # xs" and "2 \<le> length xs" using assms by (cases data) auto
  then obtain ys z where xs: "xs = ys @ [z]" and "1 \<le> length ys" by (cases xs rule: rev_cases) auto
  then obtain zs y where "ys = zs @ [y]" by (cases ys rule: rev_cases) auto
  with d xs show ?thesis by (simp add: butlast_append)
qed

text \<open>C22. The result of an execution is read from its event exactly when the event has the layout of
  the contract: the length of the response, the response, the success flag and the gas used;
  every other layout is an error.\<close>

theorem unpack_executed_iff:
  "unpack_executed data = Inr (response, success, gas_used) \<longleftrightarrow>
     data = int (length response) # response @ [success, gas_used]"
proof
  assume r: "unpack_executed data = Inr (response, success, gas_used)"
  then have "3 \<le> length data" by (auto simp: unpack_executed_def split: if_splits)
  from split_last_two [OF this] r show "data = int (length response) # response @ [success, gas_used]"
    by (auto simp: unpack_executed_def Let_def split: if_splits)
next
  assume "data = int (length response) # response @ [success, gas_used]"
  then show "unpack_executed data = Inr (response, success, gas_used)"
    by (simp add: unpack_executed_def Let_def butlast_append)
qed

lemma executed_events_Inr:
  "executed_events key a evs = Inr r \<Longrightarrow>
     filter (\<lambda>ev. ev_from ev = a \<and> ev_keys ev \<noteq> [] \<and> hd (ev_keys ev) = key) evs = r"
  by (induction evs arbitrary: r) (auto split: if_splits list.splits elim!: bind_sum_InrE)

section \<open>Settling a receipt\<close>

definition execution_events :: "env \<Rightarrow> account \<Rightarrow> receipt \<Rightarrow> sn_event list" where
  "execution_events E account rc =
     filter (\<lambda>ev. ev_from ev = ac_address account \<and> ev_keys ev \<noteq> [] \<and>
       hd (ev_keys ev) = starknet_keccak E (bytes_of_text ''transaction_executed'')) (rc_events rc)"

lemma settle_receipt_Ret:
  assumes "settle_receipt E account rc s = Ret res t"
  shows "t = s \<and> \<not> rc_reverted rc \<and> (\<exists>ev response success gas_used.
    execution_events E account rc = [ev] \<and>
    ev_data ev = int (length response) # response @ [success, gas_used] \<and>
    res = (SnReceipt rc, response, success, gas_used))"
  using assms unfolding settle_receipt_def execution_events_def
  by (auto simp: py_run release_evm_nonce_def unpack_executed_iff dest!: executed_events_Inr
      split: sum.splits if_splits list.splits option.splits)

lemma poll_receipt_Ret:
  "poll_receipt E (Some h) ci n s = Ret r t \<Longrightarrow>
     o_receipt E (trace t) h = Inr r \<and> sent_txs (trace t) = sent_txs (trace s)"
proof (induction n arbitrary: s)
  case (Suc n)
  show ?case
  proof (cases "o_receipt E (trace s @ [GetReceipt h]) h")
    case (Inl e)
    with Suc.prems have "poll_receipt E (Some h) ci n
        (s\<lparr>trace := trace s @ [GetReceipt h, Sleep (PInt ci)]\<rparr>) = Ret r t"
      by (simp add: ask_receipt_def py_run)
    from Suc.IH [OF this] show ?thesis by simp
  next
    case (Inr r')
    with Suc.prems show ?thesis by (auto simp: ask_receipt_def py_run)
  qed
qed (simp add: raise_def)

text \<open>C23. A transaction is reported with a result only if it was not reverted: the receipt holds
  exactly one execution event of the account, and the response, the success flag and the gas
  are the ones in it.  The EVM nonce stays used.\<close>

theorem settle_receipt_sound:
  assumes "settle_receipt E account rc s = Ret res t"
  shows "\<not> rc_reverted rc \<and> evm_nonces t = evm_nonces s \<and> (\<exists>ev response success gas_used.
    execution_events E account rc = [ev] \<and>
    ev_data ev = int (length response) # response @ [success, gas_used] \<and>
    res = (SnReceipt rc, response, success, gas_used))"
  using settle_receipt_Ret [OF assms] by blast

text \<open>A reverted transaction gives its EVM nonce back and is reported as reverted; but for an
  account whose nonce this client never took, as for every pre-EIP-155 transaction, the report is
  lost to a \<open>KeyError\<close>.\<close>

theorem settle_receipt_reverted:
  assumes "rc_reverted rc"
    and "\<forall>ev \<in> set (rc_events rc). ev_keys ev \<noteq> []"
  shows "settle_receipt E account rc s =
    (case evm_nonces s (ac_address account) of
       Some n \<Rightarrow> Exc (StarknetTransactionError (rc_revert_reason rc))
         (s\<lparr>evm_nonces := (evm_nonces s)(ac_address account \<mapsto> n - 1)\<rparr>)
     | None \<Rightarrow> Exc KeyError s)"
proof -
  have "\<forall>ev \<in> set evs. ev_keys ev \<noteq> [] \<Longrightarrow> \<exists>r. executed_events key a evs = Inr r" for key a evs
    by (induction evs) (auto split: list.split)
  then obtain r where "executed_events (starknet_keccak E (bytes_of_text ''transaction_executed''))
      (ac_address account) (rc_events rc) = Inr r"
    using assms(2) by blast
  with assms(1) show ?thesis
    by (simp add: settle_receipt_def release_evm_nonce_def store_evm_nonce_def py_run split: option.split)
qed

section \<open>Polling\<close>

text \<open>Waiting for a receipt ends: with at most two requests or pauses per attempt, whatever the
  node answers.\<close>

theorem poll_receipt_bounded:
  "costs (\<lambda>s. length (trace s)) (2 * attempts) (poll_receipt E tx_hash check_interval attempts)"
proof (induction attempts)
  case 0
  show ?case by (simp add: costs_free)
next
  case (Suc n)
  have one: "costs (\<lambda>s :: 'a world_scheme. length (trace s)) 2
      (try_except (bnd (ask_receipt E tx_hash) (\<lambda>r. ret (Some r)))
        (\<lambda>_. seq (emit (Sleep (PInt check_interval))) (ret None)))"
    by (auto simp: costs_def ask_receipt_def py_run split: option.split sum.split)
  have "costs (\<lambda>s :: 'a world_scheme. length (trace s)) (2 * n)
      (case r of Some receipt \<Rightarrow> ret receipt | None \<Rightarrow> poll_receipt E tx_hash check_interval n)"
    for r :: "receipt option"
    using Suc by (cases r) (auto intro: costs_free)
  then have "costs (\<lambda>s :: 'a world_scheme. length (trace s)) (2 + 2 * n) (poll_receipt E tx_hash check_interval (Suc n))"
    unfolding poll_receipt.simps by (intro costs_bnd one)
  then show ?case by simp
qed

text \<open>On a network whose maximal wait is a float, as every network configured by \<^verbatim>\<open>RPC_URL\<close> is,
  the number of attempts is a float too and cannot be counted over: no transaction sent this way
  is ever reported as executed.\<close>

theorem float_wait_never_settles:
  assumes "nw_max_wait (network E) = PFloat w"
  shows "send_starknet_transaction E account r s v packed st \<noteq> Ret x t"
proof
  assume run: "send_starknet_transaction E account r s v packed st = Ret x t"
  have "\<exists>e. receipt_attempts E = Inl e"
    using assms by (auto simp: receipt_attempts_def Let_def)
  with run show False
    by (auto simp: send_starknet_transaction_def lift_sum_def elim!: bnd_RetE)
qed

end
