(* ===== verification/KakarotSend.thy ===== *)
theory KakarotSend
  imports KakarotTxFacts
begin

text \<open>
  The whole path of an EVM transaction, from \<^verbatim>\<open>eth_send_transaction\<close> to the call a relayer submits,
  and the amounts of \<^verbatim>\<open>deploy_and_fund_evm_address\<close>.
\<close>

section \<open>What is submitted\<close>

lemma get_contract_handles [frame]: "keeps handles_ok (get_contract E n a p)"
  by (auto simp: rel_py_def get_contract_def Let_def py_run handles_ok_def get_deployments_def
      split: option.split sum.split outcome.split)

lemma handles_pieces [frame]:
  "keeps handles_ok (felt_output r)" "keeps handles_ok (emit ev)"
  "keeps handles_ok (modify (store_evm_nonce k n) :: ('m kk_world_scheme, unit) py)"
  by (auto simp: rel_py_def py_run felt_output_def handles_ok_def store_evm_nonce_def
      split: list.split arg.split)

lemma get_evm_nonce_handles: "keeps handles_ok (get_evm_nonce E K account)"
proof -
  have "keeps handles_ok (ask_evm_nonce E K account)"
    unfolding ask_evm_nonce_def abi_call_def
    by (auto intro!: invariant_step.rules invariant_step.lookups ask_handles get_contract_handles handles_pieces)
  then show ?thesis
    unfolding get_evm_nonce_def
    by (rule invariant_step.next_nonce_rel) (rule handles_pieces)+
qed

lemma get_relayer_pool:
  assumes "relayer_pool s = Some pool" and "pool \<noteq> []"
  shows "get_relayer E salt s = Ret (pool ! nat (salt mod int (length pool))) s"
  using assms by (simp add: get_relayer_def py_run)

lemma send_starknet_transaction_submits:
  assumes "send_starknet_transaction E account r s v packed st = Ret res t"
    and "relayer_pool st = Some pool" and "pool \<noteq> []"
    and "\<not> lazy_accounts st (ac_address relayer)" and "\<not> multisig_accounts st (ac_address relayer)"
    and "relayer = pool ! nat (ac_address account mod int (length pool))"
    and "handles_ok st" and "ac_address account \<noteq> 0"
  obtains timestamp cd where
    "serialize E ''account_contract'' ''execute_from_outside'' (outside_args timestamp packed r s v) = Inr cd"
    and "submitted t = submitted st @ [(ac_address relayer,
      [\<lparr>c_to = ac_address account, c_selector = selector_of E ''execute_from_outside'', c_calldata = cd\<rparr>])]"
proof -
  have run: "(bnd (ask GetBlock (o_block_timestamp E)) (\<lambda>timestamp.
     bnd (invoke E (ByName ''account_contract'') ''execute_from_outside''
            (outside_args timestamp packed r s v) (Some (ac_address account)) (Some relayer)) (\<lambda>tx_hash.
     bnd (lift_sum (receipt_attempts E)) (\<lambda>(check_interval, attempts).
     bnd (poll_receipt E tx_hash check_interval attempts) (settle_receipt E account))))) st = Ret res t"
    using assms(1,6)
    by (simp add: send_starknet_transaction_def
        bnd_Ret [where m = "get_relayer E (ac_address account)", OF get_relayer_pool [OF assms(2,3)]])
  then obtain timestamp u where
    ts: "ask GetBlock (o_block_timestamp E) st = Ret timestamp u"
    and run2: "(bnd (invoke E (ByName ''account_contract'') ''execute_from_outside''
            (outside_args timestamp packed r s v) (Some (ac_address account)) (Some relayer)) (\<lambda>tx_hash.
     bnd (lift_sum (receipt_attempts E)) (\<lambda>(check_interval, attempts).
     bnd (poll_receipt E tx_hash check_interval attempts) (settle_receipt E account)))) u = Ret res t"
    by (rule bnd_RetE)
  from run2 obtain h w where
    inv: "invoke E (ByName ''account_contract'') ''execute_from_outside''
        (outside_args timestamp packed r s v) (Some (ac_address account)) (Some relayer) u = Ret h w"
    and rest: "(bnd (lift_sum (receipt_attempts E)) (\<lambda>(check_interval, attempts).
        bnd (poll_receipt E h check_interval attempts) (settle_receipt E account))) w = Ret res t"
    by (rule bnd_RetE)
  have "looks st u" using ts by (rule rel_pyD_Ret [OF ask_looks, rotated]) simp
  moreover have "handles_ok u" using ts assms(7) by (auto simp: ask_cases Let_def handles_ok_def split: sum.splits)
  ultimately obtain cd where cd: "serialize E ''account_contract'' ''execute_from_outside''
        (outside_args timestamp packed r s v) = Inr cd"
    and sub: "submitted w = submitted u @ [(ac_address relayer,
      [\<lparr>c_to = ac_address account, c_selector = selector_of E ''execute_from_outside'', c_calldata = cd\<rparr>])]"
    using invoke_by_name_at [OF inv] assms(4,5,8) by (auto simp: looks_def)
  obtain ci n rc where p: "poll_receipt E h ci n w = Ret rc t"
    using rest by (auto simp: lift_sum_def split: sum.splits elim!: bnd_RetE dest!: settle_receipt_Ret)
  have "h \<noteq> None"
  proof
    assume "h = None"
    have "poll_receipt E None ci n w \<noteq> Ret rc t" for w :: "'a kk_world_scheme"
      by (induction n arbitrary: w) (auto simp: ask_receipt_def py_run)
    with p \<open>h = None\<close> show False by blast
  qed
  then obtain y where "h = Some y" by blast
  then have "submitted t = submitted w"
    using conjunct2 [OF poll_receipt_Ret [OF p [unfolded \<open>h = Some y\<close>]]] by (simp add: submitted_def)
  with sub cd looks_submitted [OF \<open>looks st u\<close>] that show thesis by simp
qed

text \<open>C1. An EVM transaction that is reported as executed was submitted once, by the relayer that the
  address of its account selects, as one call of \<open>execute_from_outside\<close> on that account.  It was
  signed with the nonce the network reported, and the calldata holds its encoding so that the
  contract's unpacking gives back the type byte and the encoded fields.\<close>

theorem eth_send_transaction_submits:
  assumes "eth_send_transaction E K to data gas value (Some account) gas_price s = Ret res t"
    and "\<not> web3_connected K"
    and "relayer_pool s = Some pool" and "pool \<noteq> []"
    and "relayer = pool ! nat (ac_address account mod int (length pool))"
    and "\<not> lazy_accounts s (ac_address relayer)" and "\<not> multisig_accounts s (ac_address relayer)"
    and "handles_ok s" and "ac_address account \<noteq> 0"
  shows "\<exists>u nonce payload sr ss sv raw encoded packed timestamp cd.
    looks s u \<and> evm_answered E K account u nonce \<and>
    payload = \<lparr>ep_chain_id = nw_chain_id (network E), ep_nonce = nonce, ep_gas = gas,
      ep_gas_price = gas_price, ep_to = to, ep_value = value, ep_data = data\<rparr> \<and>
    sign_evm K (ac_private_key account) payload = Inr (sr, ss, sv, raw) \<and>
    rlp_typed K payload = Inr encoded \<and>
    load_packed_bytes packed (length encoded + 1) = Inr (1 # encoded) \<and>
    serialize E ''account_contract'' ''execute_from_outside''
      (outside_args timestamp (int (length encoded + 1) # packed) sr ss sv) = Inr cd \<and>
    submitted t = submitted s @ [(ac_address relayer,
      [\<lparr>c_to = ac_address account, c_selector = selector_of E ''execute_from_outside'', c_calldata = cd\<rparr>])]"
proof -
  let ?p = "\<lambda>nonce. \<lparr>ep_chain_id = nw_chain_id (network E), ep_nonce = nonce, ep_gas = gas,
      ep_gas_price = gas_price, ep_to = to, ep_value = value, ep_data = data\<rparr>"
  obtain nonce u where n: "get_evm_nonce E K account s = Ret nonce u"
    using assms(1,2) unfolding eth_send_transaction_def by (auto simp: Let_def elim!: bnd_RetE)
  obtain sr ss sv raw encoded packed where sig: "sign_evm K (ac_private_key account) (?p nonce) = Inr (sr, ss, sv, raw)"
    and enc: "rlp_typed K (?p nonce) = Inr encoded" and pack: "pack_calldata (1 # encoded) = Inr packed"
    and run: "send_starknet_transaction E account sr ss sv packed u = Ret res t"
    using assms(1,2) n unfolding eth_send_transaction_def
    by (auto simp: Let_def bnd_def ret_def lift_sum_def split: sum.splits)
  obtain words where words: "pack_calldata (1 # encoded) = Inr (int (length encoded + 1) # words)"
    "load_packed_bytes words (length encoded + 1) = Inr (1 # encoded)"
    using pack_load_words [of "1 # encoded"] by auto
  have l: "looks s u" by (rule rel_pyD_Ret [OF get_evm_nonce_looks n])
  have "handles_ok u" using rel_pyD_Ret [OF get_evm_nonce_handles n] assms(8) by blast
  then obtain ts cd where "serialize E ''account_contract'' ''execute_from_outside''
      (outside_args ts packed sr ss sv) = Inr cd"
    and "submitted t = submitted u @ [(ac_address relayer,
      [\<lparr>c_to = ac_address account, c_selector = selector_of E ''execute_from_outside'', c_calldata = cd\<rparr>])]"
    using send_starknet_transaction_submits [OF run _ assms(4) _ _ assms(5) _ assms(9)] assms(3,6,7) l
    by (auto simp: looks_def)
  moreover have "packed = int (length encoded + 1) # words" using pack words(1) by simp
  moreover have "evm_answered E K account u nonce"
    using kk_nonce.next_nonce_Ret(2) [OF n [unfolded get_evm_nonce_def]] .
  ultimately have cd: "serialize E ''account_contract'' ''execute_from_outside''
      (outside_args ts (int (length encoded + 1) # words) sr ss sv) = Inr cd"
    and sub: "submitted t = submitted s @ [(ac_address relayer,
      [\<lparr>c_to = ac_address account, c_selector = selector_of E ''execute_from_outside'', c_calldata = cd\<rparr>])]"
    and ans: "evm_answered E K account u nonce"
    using looks_submitted [OF l] by simp_all
  show ?thesis
    by (rule exI [of _ u], rule exI [of _ nonce], rule exI [of _ "?p nonce"], rule exI [of _ sr],
        rule exI [of _ ss], rule exI [of _ sv], rule exI [of _ raw], rule exI [of _ encoded],
        rule exI [of _ words], rule exI [of _ ts], rule exI [of _ cd],
        intro conjI l ans refl sig enc words(2) cd sub)
qed

section \<open>A concrete transaction\<close>

text \<open>Account 9 sends through the second of two relayers; the network reports nonce 3.\<close>

definition node_env :: env where
  "node_env = dev_env\<lparr>build_files := [''account_contract.json''],
     o_abi_call := (\<lambda>h a f args. Inr [Felt 3]),
     starknet_keccak := (\<lambda>bs. 11),
     o_receipt := (\<lambda>h x. Inr \<lparr>rc_events = [\<lparr>ev_from = 9, ev_keys = [11], ev_data = [1, 42, 1, 21000]\<rparr>],
       rc_reverted = False, rc_revert_reason = []\<rparr>)\<rparr>"

lemma node_env_sel [simp]:
  "network node_env = dev_network" "o_abi_call node_env = (\<lambda>h a f args. Inr [Felt 3])"
  "starknet_keccak node_env = (\<lambda>bs. 11)" "build_files node_env = [''account_contract.json'']"
  "abi_text node_env = (\<lambda>p. Inr ())" "serialize node_env = (\<lambda>c f args. Inr [])"
  "o_receipt node_env = (\<lambda>h x. Inr \<lparr>rc_events = [\<lparr>ev_from = 9, ev_keys = [11], ev_data = [1, 42, 1, 21000]\<rparr>],
       rc_reverted = False, rc_revert_reason = []\<rparr>)"
  "o_cairo_version node_env = (\<lambda>h a. Inr 1)" "o_pending_nonce node_env = o_pending_nonce dev_env"
  "o_wait_for_tx node_env = (\<lambda>h x. Inr ())"
  "o_add_invoke node_env = (\<lambda>h tx. Inr (100 + int (length (sent_txs h))))"
  "o_block_timestamp node_env = (\<lambda>h. Inr (int (length h)))"
  by (simp_all add: node_env_def dev_env_def)

definition node_kk :: kk_env where
  "node_kk = \<lparr>web3_connected = False, evm_private_key = 1, evm_address_of = (\<lambda>k. k + 100),
     sign_evm = (\<lambda>k p. Inr (1, 2, 0, [])), rlp_typed = (\<lambda>p. Inr [192]),
     rlp_items = (\<lambda>bs. Inr [[], [], [], []]), rlp_list = concat, keccak = id,
     foundry_src = [], compilations = [], sol_sources = [], constructor_data = (\<lambda>app name code args. Inr []), exn_data = (\<lambda>e. None), pre_rest = (\<lambda>name. []),
     o_web3_nonce = (\<lambda>h a. Inr 0),
     o_web3_send = (\<lambda>h raw. Inr \<lparr>wr_status = 1, wr_gas_used = 21000, wr_contract_address = None, wr_to = None, wr_logs = []\<rparr>),
     o_web3_call = (\<lambda>h. Inr [])\<rparr>"

lemma node_kk_sel [simp]:
  "\<not> web3_connected node_kk" "sign_evm node_kk = (\<lambda>k p. Inr (1, 2, 0, []))"
  "rlp_typed node_kk = (\<lambda>p. Inr [192])"
  by (simp_all add: node_kk_def)

definition node_world :: kk_world where
  "node_world = world.extend dev_world \<lparr>evm_nonces = Map.empty, library_cache = Map.empty,
       kakarot_file = None, should_deploy = Map.empty\<rparr>
     \<lparr>relayer_pool := Some [dev_account 1, dev_account 2]\<rparr>"

lemma node_world_sel [simp]:
  "trace node_world = []" "nonces node_world = Map.empty" "logs node_world = []"
  "lazy_accounts node_world = (\<lambda>_. False)" "multisig_accounts node_world = (\<lambda>_. False)"
  "contract_cache node_world = Map.empty" "evm_nonces node_world = Map.empty"
  "relayer_pool node_world = Some [dev_account 1, dev_account 2]"
  by (simp_all add: node_world_def world.defs dev_world_def)

lemma account_contract_files:
  "filter (fn_match (zero_pattern ''account_contract'')) [''account_contract.json''] = [''account_contract.json'']"
  by code_simp

lemma node_abi: "get_abi node_env ''account_contract'' = Inr [''build'', ''account_contract.json'']"
  "get_cairo_version node_env ''account_contract'' = Inr False"
  using account_contract_files by (simp_all add: get_abi_def get_cairo_version_def get_artifact_def del: filter.simps)

lemma node_pack: "pack_calldata [1, 192] = Inr [2, 448]"
  by code_simp

lemma node_nonce:
  "get_evm_nonce node_env node_kk (dev_account 9) node_world = Ret 3 (node_world
     \<lparr>contract_cache := [(''account_contract'', Some 9, None) \<mapsto> 9],
      trace := [AbiCall ''account_contract'' 9 ''get_nonce'' [], AbiCall ''account_contract'' 9 ''get_nonce'' []],
      evm_nonces := [9 \<mapsto> 4]\<rparr>)"
  by (simp add: get_evm_nonce_def next_nonce_def ask_evm_nonce_def get_contract_def node_abi abi_call_def
      felt_output_def store_evm_nonce_def py_run Let_def eval_nat_numeral)

lemma node_attempts: "receipt_attempts node_env = Inr (1, 30)"
  by (simp add: receipt_attempts_def Let_def)

lemma get_evm_nonce_spec_witness:
  "\<exists>t. get_evm_nonce node_env node_kk (dev_account 9) node_world = Ret 3 t \<and> evm_nonces t = [9 \<mapsto> 4] \<and>
     nonces t = Map.empty"
  using get_evm_nonce_spec [OF node_nonce] node_nonce by simp

lemma node_settle:
  "settle_receipt node_env (dev_account 9) \<lparr>rc_events = [\<lparr>ev_from = 9, ev_keys = [11], ev_data = [1, 42, 1, 21000]\<rparr>],
       rc_reverted = False, rc_revert_reason = []\<rparr> s =
   Ret (SnReceipt \<lparr>rc_events = [\<lparr>ev_from = 9, ev_keys = [11], ev_data = [1, 42, 1, 21000]\<rparr>],
       rc_reverted = False, rc_revert_reason = []\<rparr>, [42], 1, 21000) s"
  by (simp add: settle_receipt_def unpack_executed_def py_run Let_def)

lemma poll_nonce_10:
  "poll_nonce cached query pause k n 10 = bnd (lookup_key cached k) (\<lambda>expected.
     if n \<noteq> expected then seq pause (bnd query (\<lambda>n. poll_nonce cached query pause k n 9)) else ret (n, 10))"
proof -
  have ten: "(10 :: nat) = Suc 9" by simp
  show ?thesis unfolding ten by (simp only: poll_nonce.simps)
qed

lemma node_poll:
  "poll_receipt node_env (Some h) 1 30 s =
     Ret \<lparr>rc_events = [\<lparr>ev_from = 9, ev_keys = [11], ev_data = [1, 42, 1, 21000]\<rparr>],
       rc_reverted = False, rc_revert_reason = []\<rparr> (s\<lparr>trace := trace s @ [GetReceipt h]\<rparr>)"
proof -
  have "poll_receipt node_env (Some h) 1 (Suc 29) s =
     Ret \<lparr>rc_events = [\<lparr>ev_from = 9, ev_keys = [11], ev_data = [1, 42, 1, 21000]\<rparr>],
       rc_reverted = False, rc_revert_reason = []\<rparr> (s\<lparr>trace := trace s @ [GetReceipt h]\<rparr>)"
    unfolding poll_receipt.simps by (simp add: ask_receipt_def py_run)
  then show ?thesis by simp
qed

lemma node_run:
  "\<exists>rc t. eth_send_transaction node_env node_kk None [] 21000 0 (Some (dev_account 9)) 1 node_world =
     Ret (SnReceipt rc, [42], 1, 21000) t"
  by (simp add: eth_send_transaction_def
      bnd_Ret [where m = "get_evm_nonce node_env node_kk (dev_account 9)", OF node_nonce])
    (simp add: node_pack send_starknet_transaction_def get_relayer_def invoke_def
      get_contract_def node_abi get_selector_from_name_def prepare_invoke_def execute_v1_def
      execute_v1_wrapped_def get_nonce_def next_nonce_def poll_nonce_10 ask_nonce_def store_nonce_def
      wait_for_transaction_def node_attempts node_poll node_settle
      response_hash_def py_run Let_def)

lemma eth_send_transaction_submits_witness:
  "\<exists>rc t. eth_send_transaction node_env node_kk None [] 21000 0 (Some (dev_account 9)) 1 node_world =
     Ret (SnReceipt rc, [42], 1, 21000) t \<and> map fst (submitted t) = [2]"
proof -
  obtain rc t where run: "eth_send_transaction node_env node_kk None [] 21000 0 (Some (dev_account 9)) 1 node_world =
     Ret (SnReceipt rc, [42], 1, 21000) t"
    using node_run by blast
  have p: "relayer_pool node_world = Some [dev_account 1, dev_account 2]" by simp
  have "handles_ok node_world" by (simp add: handles_ok_def)
  then have "map fst (submitted t) = [2]"
    using eth_send_transaction_submits [OF run _ p _ refl] by (auto simp: submitted_def)
  with run show ?thesis by (intro exI conjI)
qed

lemma settle_receipt_sound_witness:
  "settle_receipt node_env (dev_account 9) \<lparr>rc_events = [\<lparr>ev_from = 9, ev_keys = [11], ev_data = [1, 42, 1, 21000]\<rparr>],
       rc_reverted = False, rc_revert_reason = []\<rparr> node_world =
   Ret (SnReceipt \<lparr>rc_events = [\<lparr>ev_from = 9, ev_keys = [11], ev_data = [1, 42, 1, 21000]\<rparr>],
       rc_reverted = False, rc_revert_reason = []\<rparr>, [42], 1, 21000) node_world \<and>
   length (execution_events node_env (dev_account 9)
     \<lparr>rc_events = [\<lparr>ev_from = 9, ev_keys = [11], ev_data = [1, 42, 1, 21000]\<rparr>],
       rc_reverted = False, rc_revert_reason = []\<rparr>) = 1"
  using settle_receipt_sound [OF node_settle, of node_world] node_settle by auto

text \<open>The sender of a pre-EIP-155 transaction: nothing is known of its nonce.\<close>

lemma settle_receipt_reverted_witness:
  "settle_receipt node_env (dev_account 9) \<lparr>rc_events = [], rc_reverted = True, rc_revert_reason = ''oog''\<rparr> node_world =
     Exc KeyError node_world \<and>
   settle_receipt node_env (dev_account 9) \<lparr>rc_events = [], rc_reverted = True, rc_revert_reason = ''oog''\<rparr>
     (node_world\<lparr>evm_nonces := [9 \<mapsto> 4]\<rparr>) =
     Exc (StarknetTransactionError ''oog'') (node_world\<lparr>evm_nonces := [9 \<mapsto> 3]\<rparr>)"
proof -
  let ?rc = "\<lparr>rc_events = [], rc_reverted = True, rc_revert_reason = ''oog''\<rparr>"
  have r: "rc_reverted ?rc" "\<forall>ev \<in> set (rc_events ?rc). ev_keys ev \<noteq> []" by simp_all
  show ?thesis
    using settle_receipt_reverted [OF r, of node_env "dev_account 9" node_world]
      settle_receipt_reverted [OF r, of node_env "dev_account 9" "node_world\<lparr>evm_nonces := [9 \<mapsto> 4]\<rparr>"]
    by simp
qed

lemma float_wait_never_settles_witness:
  "\<not> (\<exists>x t. send_starknet_transaction
     (node_env\<lparr>network := dev_network\<lparr>nw_check_interval := PFloat (rnd (1 / 10)), nw_max_wait := PFloat 30\<rparr>\<rparr>)
     (dev_account 9) 1 2 0 [] node_world = Ret x t)"
  using float_wait_never_settles [of
      "node_env\<lparr>network := dev_network\<lparr>nw_check_interval := PFloat (rnd (1 / 10)), nw_max_wait := PFloat 30\<rparr>\<rparr>" 30
      "dev_account 9" 1 2 0 "[]" node_world]
  by simp

section \<open>Funding an EVM account\<close>

text \<open>The amount of \<open>deploy_and_fund_evm_address\<close> is documented in ETH but is compared with a
  balance in wei: an account that holds as many wei as ETH were asked for, say 100 wei for 100 ETH,
  is taken to be funded, and if it is deployed nothing is sent at all.\<close>

theorem fund_compares_wei_with_eth:
  assumes "get_starknet_address E (AddrInt evm) s = Ret a u"
    and "eth_balance_of E (AddrInt evm) u = Ret wei v"
    and "n \<le> wei"
    and "contract_exists E a v = Ret True w"
  shows "deploy_and_fund_evm_address E evm (PInt n) s = Ret a w"
proof -
  have "\<not> PInt wei < PInt n" using assms(3) by (simp add: less_pynum_def)
  with assms show ?thesis
    by (simp add: deploy_and_fund_evm_address_def bnd_def seq_def py_when_def ret_def)
qed

definition wei_env :: env where
  "wei_env = dev_env\<lparr>build_files := [''ERC20.json'', ''kakarot.json''],
     o_abi_call := (\<lambda>h a f args. Inr [Felt 100]), o_class_hash_at := (\<lambda>h a. Inr 1)\<rparr>"

lemma wei_env_sel [simp]:
  "o_abi_call wei_env = (\<lambda>h a f args. Inr [Felt 100])" "o_class_hash_at wei_env = (\<lambda>h a. Inr 1)"
  "build_files wei_env = [''ERC20.json'', ''kakarot.json'']" "abi_text wei_env = (\<lambda>p. Inr ())"
  "eth_token_address wei_env = 73"
  by (simp_all add: wei_env_def)

lemma wei_files:
  "filter (fn_match (zero_pattern ''ERC20'')) [''ERC20.json'', ''kakarot.json''] = [''ERC20.json'']"
  "filter (fn_match (zero_pattern ''kakarot'')) [''ERC20.json'', ''kakarot.json''] = [''kakarot.json'']"
  by code_simp+

lemma wei_abi:
  "get_abi wei_env ''ERC20'' = Inr [''build'', ''ERC20.json'']"
  "get_abi wei_env ''kakarot'' = Inr [''build'', ''kakarot.json'']"
  "get_cairo_version wei_env ''kakarot'' = Inr False"
  using wei_files by (simp_all add: get_abi_def get_cairo_version_def get_artifact_def del: filter.simps)

definition wei_world :: world where
  "wei_world = dev_world\<lparr>deployments_file := Some (hex_entries [(''kakarot'', 500)]),
     account_cache := [(NoAddr, None) \<mapsto> dev_account 9]\<rparr>"

lemma wei_steps:
  "\<exists>u v w. get_starknet_address wei_env (AddrInt 7) wei_world = Ret 100 u \<and>
     eth_balance_of wei_env (AddrInt 7) u = Ret 100 v \<and> contract_exists wei_env 100 v = Ret True w \<and>
     sent_txs (trace w) = []"
  by (simp add: wei_world_def get_starknet_address_def eth_balance_of_def address_int_def get_contract_def
      get_deployments_def int_hex_entries wei_abi abi_call_def felt_output_def get_balance_def
      get_eth_contract_def poor_main_again [where a = "dev_account 9"] balance_of_def contract_exists_def
      ask_class_hash_at_def py_run Let_def)

lemma fund_compares_wei_with_eth_witness:
  "\<exists>t. deploy_and_fund_evm_address wei_env 7 (PInt 100) wei_world = Ret 100 t \<and> sent_txs (trace t) = []"
proof -
  obtain u v w where "get_starknet_address wei_env (AddrInt 7) wei_world = Ret 100 u"
    and "eth_balance_of wei_env (AddrInt 7) u = Ret 100 v"
    and "contract_exists wei_env 100 v = Ret True w" and sent: "sent_txs (trace w) = []"
    using wei_steps by blast
  from fund_compares_wei_with_eth [OF this(1,2) _ this(3), of 100] sent show ?thesis by auto
qed

end
