(* ===== verification/KakarotLogs.thy ===== *)
theory KakarotLogs
  imports KakarotSend "HOL-Library.AList"
begin

text \<open>
  Reading results back in \<^verbatim>\<open>kakarot_scripts/utils/kakarot.py\<close>: \<^verbatim>\<open>get_log_receipts\<close>, which turns Starknet
  events into EVM logs, the file of EVM deployments, and \<^verbatim>\<open>store_bytecode\<close>, which writes init code that
  returns a given bytecode; its meaning is given by a small interpreter for the opcodes it uses.
\<close>

section \<open>Logs\<close>

fun pair_topics :: "int list \<Rightarrow> exn + byte list list" where
  "pair_topics [] = Inr []"
| "pair_topics [lo] = Inl IndexError"
| "pair_topics (lo # hi # keys) =
     bind_sum (fromhex (fmt_hex 64 (lo + 2 ^ 128 * hi))) (\<lambda>t.
     bind_sum (pair_topics keys) (\<lambda>ts. Inr (t # ts)))"

text \<open>The filter \<^verbatim>\<open>event.from_address == kakarot_address and event.keys[0] < 2**160\<close>.\<close>

fun kakarot_events :: "int \<Rightarrow> sn_event list \<Rightarrow> exn + sn_event list" where
  "kakarot_events kakarot [] = Inr []"
| "kakarot_events kakarot (ev # evs) =
     (if ev_from ev \<noteq> kakarot then kakarot_events kakarot evs
      else (case ev_keys ev of
              [] \<Rightarrow> Inl IndexError
            | k # _ \<Rightarrow> bind_sum (kakarot_events kakarot evs) (\<lambda>r. Inr (if k < 2 ^ 160 then ev # r else r))))"

definition log_receipt_of :: "env \<Rightarrow> nat \<times> sn_event \<Rightarrow> exn + log_receipt" where
  "log_receipt_of E p =
     (case p of (log_index, ev) \<Rightarrow>
        bind_sum (bytes_of_ints (ev_data ev)) (\<lambda>data.
        bind_sum (pair_topics (tl (ev_keys ev))) (\<lambda>topics.
        Inr \<lparr>lr_address = checksum E (hd (ev_keys ev)), lr_data = data, lr_index = log_index,
             lr_topics = topics\<rparr>)))"

definition read_logs :: "env \<Rightarrow> int \<Rightarrow> receipt \<Rightarrow> exn + log_receipt list" where
  "read_logs E kakarot rc =
     bind_sum (kakarot_events kakarot (rc_events rc)) (\<lambda>evs.
     map_sum_list (log_receipt_of E) (zip [0..<length evs] evs))"

text \<open>Which form of receipt is expected depends on whether the EVM node is connected; the other has no such
  attribute.\<close>

definition get_log_receipts :: "env \<Rightarrow> kk_env \<Rightarrow> any_receipt \<Rightarrow> ('m world_scheme, log_receipt list) py" where
  "get_log_receipts E K tx_receipt =
     (if web3_connected K
      then get_option AttributeError (case tx_receipt of Web3Receipt rc \<Rightarrow> Some (wr_logs rc) | SnReceipt _ \<Rightarrow> None)
      else bnd get_deployments (\<lambda>deployments.
           bnd (get_option KeyError (map_of deployments ''kakarot'')) (\<lambda>kakarot.
           case tx_receipt of
             SnReceipt rc \<Rightarrow> lift_sum (read_logs E kakarot rc)
           | Web3Receipt _ \<Rightarrow> raise AttributeError)))"

text \<open>\<^verbatim>\<open>parse_events\<close>: the logs that decode as an event of the contract, under its signature.  Decoding is
  web3's: no value stands for the three errors that say that a log is of another event.\<close>

fun matching_logs :: "(log_receipt \<Rightarrow> exn + 'd option) \<Rightarrow> log_receipt list \<Rightarrow> exn + 'd list" where
  "matching_logs decode [] = Inr []"
| "matching_logs decode (l # log_receipts) =
     bind_sum (decode l) (\<lambda>event_data.
     bind_sum (matching_logs decode log_receipts) (\<lambda>r.
     Inr (case event_data of Some args \<Rightarrow> args # r | None \<Rightarrow> r)))"

definition parse_events ::
    "env \<Rightarrow> kk_env \<Rightarrow> (string \<times> (log_receipt \<Rightarrow> exn + 'd option)) list \<Rightarrow> any_receipt \<Rightarrow>
       ('m world_scheme, (string \<times> 'd list) list) py" where
  "parse_events E K events tx_receipt =
     bnd (get_log_receipts E K tx_receipt) (\<lambda>log_receipts.
     bnd (lift_sum (map_sum_list (\<lambda>(signature, decode).
            bind_sum (matching_logs decode log_receipts) (\<lambda>logs. Inr (signature, logs))) events)) (\<lambda>entries.
     ret (fold (\<lambda>(signature, logs). AList.update signature logs) entries [])))"

text \<open>The contracts of \<^verbatim>\<open>l1.py\<close> get the same \<^verbatim>\<open>parse_events\<close>, whatever chain their receipts come from: without an
  EVM node the events of an L1 transaction cannot be read.\<close>

lemma l1_receipts_unreadable:
  "\<not> web3_connected K \<Longrightarrow> parse_events E K events (Web3Receipt rc) s \<noteq> Ret parsed t"
  by (auto simp: parse_events_def get_log_receipts_def Ret_iff)

lemma matching_logs_map:
  "\<forall>l \<in> set ls. decode l = Inr (f l) \<Longrightarrow> matching_logs decode ls = Inr (List.map_filter f ls)"
  by (induction ls) (auto simp: map_filter_simps)

text \<open>The event by which Kakarot emits an EVM log: the emitting contract, then every topic as its
  low and high halves.\<close>

definition event_of_log :: "int \<Rightarrow> int \<Rightarrow> byte list list \<Rightarrow> byte list \<Rightarrow> sn_event" where
  "event_of_log kakarot emitter topics data =
     \<lparr>ev_from = kakarot,
      ev_keys = emitter # concat (map (\<lambda>t. case int_to_uint256 (from_bytes_big t) of (lo, hi) \<Rightarrow> [lo, hi]) topics),
      ev_data = map byte_val data\<rparr>"

lemma topic_hex:
  assumes "length t = 32"
  shows "fromhex (fmt_hex 64 (fst (int_to_uint256 (from_bytes_big t)) +
      2 ^ 128 * snd (int_to_uint256 (from_bytes_big t)))) = Inr t"
proof -
  have n: "fst (int_to_uint256 (from_bytes_big t)) + 2 ^ 128 * snd (int_to_uint256 (from_bytes_big t)) =
      from_bytes_big t"
    by (simp add: int_to_uint256_mod)
  have "0 \<le> from_bytes_big t" and "from_bytes_big t < 16 ^ 64"
    using from_bytes_bounds [of t] assms by simp_all
  then have "fmt_hex 64 (from_bytes_big t) = hex_digits 64 (from_bytes_big t)"
    by (intro fmt_hex_fits) simp_all
  also have "\<dots> = bytes_hex t" using assms by (simp add: bytes_hex_number)
  finally show ?thesis by (simp only: n fromhex_bytes_hex)
qed

lemma pair_topics_roundtrip:
  "\<forall>t \<in> set topics. length t = 32 \<Longrightarrow>
     pair_topics (concat (map (\<lambda>t. case int_to_uint256 (from_bytes_big t) of (lo, hi) \<Rightarrow> [lo, hi]) topics)) = Inr topics"
proof (induction topics)
  case (Cons t topics)
  then show ?case using topic_hex [of t] by (simp add: Let_def split_beta)
qed simp

lemma kakarot_events_logs:
  assumes "\<forall>(e, ts, d) \<in> set emitted. e < 2 ^ 160"
  shows "kakarot_events kakarot (map (\<lambda>(e, ts, d). event_of_log kakarot e ts d) emitted) =
     Inr (map (\<lambda>(e, ts, d). event_of_log kakarot e ts d) emitted)"
  using assms by (induction emitted) (auto simp: event_of_log_def)

lemma map_sum_list_zip:
  assumes "length xs = length ys" and "\<forall>i < length xs. f (xs ! i) = Inr (ys ! i)"
  shows "map_sum_list f xs = Inr ys"
  using assms by (induction xs ys rule: list_induct2) (fastforce, force)

lemma kakarot_events_filter:
  "kakarot_events kakarot (filter (\<lambda>ev. ev_from ev = kakarot) evs) = kakarot_events kakarot evs"
  by (induction evs) (simp_all split: list.split)



section \<open>The file of EVM deployments\<close>

record kk_deployment =
  kd_address :: int
  kd_starknet_address :: int

definition kk_dump_deployments :: "env \<Rightarrow> (string \<times> kk_deployment) list \<Rightarrow> ('m kk_world_scheme, unit) py" where
  "kk_dump_deployments E deployments =
     bnd (lift_sum (map_sum_list (\<lambda>(name, d). bind_sum (checksum_address E (kd_address d)) (\<lambda>a.
            Inr (name, \<lparr>ke_address = a, ke_starknet_address = py_hex (kd_starknet_address d)\<rparr>))) deployments)) (\<lambda>entries.
     seq (emit (FileWrite ''kakarot_deployments.json''))
         (modify (\<lambda>s. s\<lparr>kakarot_file := Some entries\<rparr>)))"

definition read_entry :: "kk_entry \<Rightarrow> exn + kk_deployment" where
  "read_entry e =
     bind_sum (int16 (ke_address e)) (\<lambda>a.
     bind_sum (int16 (ke_starknet_address e)) (\<lambda>sa.
     Inr \<lparr>kd_address = a, kd_starknet_address = sa\<rparr>))"

definition kk_get_deployments :: "('m kk_world_scheme, (string \<times> kk_deployment) list) py" where
  "kk_get_deployments =
     bnd (gets kakarot_file) (\<lambda>f.
       case f of
         None \<Rightarrow> ret []
       | Some entries \<Rightarrow>
           lift_sum (map_sum_list (\<lambda>(name, t). bind_sum (read_entry t) (\<lambda>d. Inr (name, d))) entries))"

text \<open>EVM deployments survive their file, provided the checksummed form of an address denotes it:
  checksumming only changes the case of hexadecimal letters.\<close>

theorem kk_deployments_roundtrip:
  assumes "\<forall>(name, d) \<in> set ds. 0 \<le> kd_address d \<and> kd_address d < 2 ^ 160 \<and>
      int16 (checksum E (kd_address d)) = Inr (kd_address d)"
  shows "\<exists>t. seq (kk_dump_deployments E ds) kk_get_deployments s = Ret ds t"
proof -
  let ?enc = "\<lambda>d. \<lparr>ke_address = checksum E (kd_address d), ke_starknet_address = py_hex (kd_starknet_address d)\<rparr>"
  have "map_sum_list (\<lambda>(name, d). bind_sum (checksum_address E (kd_address d)) (\<lambda>a.
      Inr (name, \<lparr>ke_address = a, ke_starknet_address = py_hex (kd_starknet_address d)\<rparr>))) ds =
      Inr (map (\<lambda>(n, d). (n, ?enc d)) ds)"
    using assms by (induction ds) (auto simp: checksum_address_def)
  moreover have "map_sum_list (\<lambda>(name, t). bind_sum (read_entry t) (\<lambda>d. Inr (name, d))) (map (\<lambda>(n, d). (n, ?enc d)) ds) = Inr ds"
    using assms by (induction ds) (auto simp: read_entry_def int16_py_hex)
  ultimately show ?thesis
    by (simp add: kk_dump_deployments_def kk_get_deployments_def py_run)
qed

definition kk_dev_world :: kk_world where
  "kk_dev_world = world.extend dev_world \<lparr>evm_nonces = Map.empty, library_cache = Map.empty,
       kakarot_file = None, should_deploy = Map.empty\<rparr>"

lemma kk_deployments_roundtrip_witness:
  "\<exists>t. seq (kk_dump_deployments dev_env [(''WETH9'', \<lparr>kd_address = 5, kd_starknet_address = 9\<rparr>)]) kk_get_deployments
     kk_dev_world = Ret [(''WETH9'', \<lparr>kd_address = 5, kd_starknet_address = 9\<rparr>)] t"
  by (rule kk_deployments_roundtrip) (simp add: dev_env_def int16_py_hex)

section \<open>Storing a bytecode\<close>

text \<open>\<^verbatim>\<open>s.replace(old, new)\<close>\<close>

fun str_replace :: "string \<Rightarrow> string \<Rightarrow> string \<Rightarrow> string" where
  "str_replace old new [] = (if old = [] then new else [])"
| "str_replace old new (c # s) =
     (if old = [] then new @ c # str_replace old new s
      else if prefix old (c # s) then new @ str_replace old new (drop (length old - 1) s)
      else c # str_replace old new s)"

definition bytecode_of_text :: "string \<Rightarrow> exn + byte list" where
  "bytecode_of_text t = fromhex (str_replace ''0x'' [] t)"

text \<open>The hexadecimal text of the init code, line breaks and blanks included.\<close>

definition init_text :: "byte list \<Rightarrow> string" where
  "init_text bytecode =
     (let nl = char_of (10 :: nat) # ''    ''; len = fmt_hex 4 (int (length bytecode))
      in nl @ ''61 '' @ len @ nl @ ''60 0e'' @ nl @ ''60 00'' @ nl @ ''39'' @ nl @
         ''61 '' @ len @ nl @ ''60 00'' @ nl @ ''f3'' @ nl @ bytes_hex bytecode)"

definition init_code :: "byte list \<Rightarrow> exn + byte list" where
  "init_code bytecode = fromhex (init_text bytecode)"

definition store_bytecode ::
    "env \<Rightarrow> kk_env \<Rightarrow> byte list \<Rightarrow> int \<Rightarrow> account option \<Rightarrow> ('m kk_world_scheme, int) py" where
  "store_bytecode E K bytecode gas caller_eoa =
     bnd (lift_sum (init_code bytecode)) (\<lambda>deploy_bytecode.
     bnd (eth_send_transaction E K None deploy_bytecode gas 0 caller_eoa 1) (\<lambda>(_, response, success, _).
     if success = 0 then raise AssertionError
     else case response of
            [_, evm_address] \<Rightarrow>
              bnd (eth_get_code E (AddrInt evm_address)) (\<lambda>stored.
              if stored \<noteq> bytecode then raise AssertionError else ret evm_address)
          | _ \<Rightarrow> raise (ValueError ''unpack'')))"

text \<open>
  The EVM, as far as the init code goes: a program counter, a stack and a memory; running off the
  code stops, \<open>RETURN\<close> yields a slice of memory.
\<close>

record evm =
  evm_stack :: "int list"
  evm_memory :: "byte list"

definition mem_slice :: "byte list \<Rightarrow> nat \<Rightarrow> nat \<Rightarrow> byte list" where
  "mem_slice m offset len = take len (drop offset (m @ replicate (offset + len) 0))"

definition mem_write :: "byte list \<Rightarrow> nat \<Rightarrow> byte list \<Rightarrow> byte list" where
  "mem_write m offset bs =
     (let m' = m @ replicate (offset + length bs - length m) 0
      in take offset m' @ bs @ drop (offset + length bs) m')"

fun evm_run :: "nat \<Rightarrow> byte list \<Rightarrow> nat \<Rightarrow> evm \<Rightarrow> byte list option" where
  "evm_run 0 code pc st = None"
| "evm_run (Suc fuel) code pc st =
     (if length code \<le> pc then Some []
      else let op = byte_val (code ! pc)
      in if op = 0x60
         then evm_run fuel code (pc + 2) (st\<lparr>evm_stack := from_bytes_big (take 1 (drop (pc + 1) code)) # evm_stack st\<rparr>)
         else if op = 0x61
         then evm_run fuel code (pc + 3) (st\<lparr>evm_stack := from_bytes_big (take 2 (drop (pc + 1) code)) # evm_stack st\<rparr>)
         else if op = 0x39
         then (case evm_stack st of
                 dest # offset # len # below \<Rightarrow>
                   evm_run fuel code (pc + 1) \<lparr>evm_stack = below,
                     evm_memory = mem_write (evm_memory st) (nat dest) (mem_slice code (nat offset) (nat len))\<rparr>
               | _ \<Rightarrow> None)
         else if op = 0xf3
         then (case evm_stack st of
                 offset # len # below \<Rightarrow> Some (mem_slice (evm_memory st) (nat offset) (nat len))
               | _ \<Rightarrow> None)
         else None)"

definition init_header :: "nat \<Rightarrow> byte list" where
  "init_header n = [0x61, word_of_nat (n div 256), word_of_nat n, 0x60, 0x0e, 0x60, 0, 0x39,
     0x61, word_of_nat (n div 256), word_of_nat n, 0x60, 0, 0xf3]"

lemma fromhex_blank: "fromhex (char_of (10 :: nat) # s) = fromhex s" "fromhex (CHR '' '' # s) = fromhex s"
proof -
  have "is_space (char_of (10 :: nat))" and "is_space (CHR '' '')" by code_simp+
  then show "fromhex (char_of (10 :: nat) # s) = fromhex s" and "fromhex (CHR '' '' # s) = fromhex s"
    by simp_all
qed

lemma opcode_digits:
  "''61'' = hex_digits 2 0x61" "''60'' = hex_digits 2 0x60" "''39'' = hex_digits 2 0x39"
  "''0e'' = hex_digits 2 0x0e" "''00'' = hex_digits 2 0" "''f3'' = hex_digits 2 0xf3"
  by code_simp+

lemma fromhex_ops:
  "fromhex (CHR ''6'' # CHR ''1'' # s) = bind_sum (fromhex s) (\<lambda>bs. Inr (0x61 # bs))"
  "fromhex (CHR ''6'' # CHR ''0'' # s) = bind_sum (fromhex s) (\<lambda>bs. Inr (0x60 # bs))"
  "fromhex (CHR ''3'' # CHR ''9'' # s) = bind_sum (fromhex s) (\<lambda>bs. Inr (0x39 # bs))"
  "fromhex (CHR ''0'' # CHR ''e'' # s) = bind_sum (fromhex s) (\<lambda>bs. Inr (0x0e # bs))"
  "fromhex (CHR ''0'' # CHR ''0'' # s) = bind_sum (fromhex s) (\<lambda>bs. Inr (0 # bs))"
  "fromhex (CHR ''f'' # CHR ''3'' # s) = bind_sum (fromhex s) (\<lambda>bs. Inr (0xf3 # bs))"
  using fromhex_two [where n = "0x61" and s = s] fromhex_two [where n = "0x60" and s = s]
    fromhex_two [where n = "0x39" and s = s] fromhex_two [where n = "0x0e" and s = s]
    fromhex_two [where n = "0" and s = s] fromhex_two [where n = "0xf3" and s = s]
  unfolding opcode_digits [symmetric] by simp_all

lemma size_digits:
  assumes "n < 2 ^ 16"
  shows "fmt_hex 4 (int n) = hex_digits 2 (int (n div 256)) @ hex_digits 2 (int (n mod 256))"
proof -
  have "fmt_hex 4 (int n) = hex_digits (2 + 2) (int n)"
    using fmt_hex_fits [of "int n" 4] assms by simp
  also have "\<dots> = hex_digits (2 + 2) (int (n div 256) * 16 ^ 2 + int (n mod 256))"
  proof (rule arg_cong [where f = "hex_digits (2 + 2)"])
    show "int n = int (n div 256) * 16 ^ 2 + int (n mod 256)" by (simp add: zdiv_int zmod_int)
  qed
  also have "hex_digits (2 + 2) (int (n div 256) * 16 ^ 2 + int (n mod 256)) =
      hex_digits 2 (int (n div 256)) @ hex_digits 2 (int (n mod 256))"
    by (rule hex_digits_add) simp_all
  finally show ?thesis .
qed

lemma init_code_bytes:
  assumes "length bytecode < 2 ^ 16"
  shows "init_code bytecode = Inr (init_header (length bytecode) @ bytecode)"
proof -
  let ?n = "length bytecode"
  have hi: "int (?n div 256) < 256" using assms by simp
  have two: "fromhex (fmt_hex 4 (int ?n) @ s) =
      bind_sum (fromhex s) (\<lambda>bs. Inr (word_of_nat (?n div 256) # word_of_nat ?n # bs))" for s
  proof -
    have "(word_of_int (int (?n mod 256)) :: byte) = word_of_nat ?n"
      by (simp add: word_of_nat_eq_iff take_bit_eq_mod)
    then show ?thesis
      using hi by (simp add: size_digits [OF assms] fromhex_two) (cases "fromhex s"; simp)
  qed
  show ?thesis
    unfolding init_code_def init_text_def Let_def
    by (simp add: fromhex_blank two fromhex_ops init_header_def del: fromhex.simps)
qed

lemma size_bytes:
  assumes "n < 2 ^ 16"
  shows "from_bytes_big [word_of_nat (n div 256), word_of_nat n] = int n"
proof -
  have "n div 256 < 256" using assms by simp
  then have "byte_val (word_of_nat (n div 256)) = int (n div 256)"
    and "byte_val (word_of_nat n) = int (n mod 256)"
    by (simp_all add: byte_val_def unsigned_of_nat take_bit_eq_mod zmod_int)
  then show ?thesis by (simp add: from_bytes_big_def of_digits_def zdiv_int zmod_int)
qed

lemma evm_run_init:
  assumes "length bytecode < 2 ^ 16"
  shows "evm_run (Suc (Suc (Suc (Suc (Suc (Suc (Suc fuel)))))))
      (init_header (length bytecode) @ bytecode) 0 \<lparr>evm_stack = [], evm_memory = []\<rparr> = Some bytecode"
  using size_bytes [OF assms]
  by (simp add: init_header_def byte_val_def from_bytes_big_def of_digits_def mem_slice_def
      mem_write_def Let_def)

text \<open>C25. The init code of \<open>store_bytecode\<close> does what its comment says, for every bytecode shorter than
  64 KiB: its text is valid hexadecimal, and running it on the EVM returns the bytecode itself,
  which is what Kakarot then stores.\<close>

theorem store_bytecode_returns_it:
  assumes "length bytecode < 2 ^ 16" and "7 \<le> fuel"
  shows "\<exists>code. init_code bytecode = Inr code \<and>
    evm_run fuel code 0 \<lparr>evm_stack = [], evm_memory = []\<rparr> = Some bytecode"
proof -
  obtain k where "fuel = 7 + k" using assms(2) le_Suc_ex by blast
  then have "fuel = Suc (Suc (Suc (Suc (Suc (Suc (Suc k))))))" by simp
  with init_code_bytes [OF assms(1)] evm_run_init [OF assms(1)] show ?thesis by simp
qed

lemma store_bytecode_returns_it_witness:
  "\<exists>code. init_code [0x60, 0x2a] = Inr code \<and> length code = 16 \<and>
     evm_run 7 code 0 \<lparr>evm_stack = [], evm_memory = []\<rparr> = Some [0x60, 0x2a]"
  using store_bytecode_returns_it [of "[0x60, 0x2a]" 7] init_code_bytes [of "[0x60, 0x2a]"]
  by (auto simp: init_header_def)

end
