(* ===== verification/SolidityArtifacts.thy ===== *)
theory SolidityArtifacts
  imports KakarotWorld
begin

text \<open>
  \<^verbatim>\<open>get_solidity_artifacts\<close> of \<^verbatim>\<open>kakarot_scripts/utils/kakarot.py\<close>: the compilation output that is taken for a
  contract, and its link references brought from the files that hold the libraries to the
  applications that \<^verbatim>\<open>get_or_deploy_library\<close> deploys them from.  Reading \<^verbatim>\<open>foundry.toml\<close>, listing the
  directories and parsing the outputs are the fields of the environment.
\<close>

section \<open>Choosing the compilation output\<close>

text \<open>\<^verbatim>\<open>(\.[\d.]+)?$\<close> after the name, or a given version as a pattern, whose dots match any character.\<close>

definition is_digit_dot :: "char \<Rightarrow> bool" where
  "is_digit_dot c \<longleftrightarrow> c = CHR ''.'' \<or> (48 \<le> (of_char c :: nat) \<and> (of_char c :: nat) \<le> 57)"

definition version_matches :: "string option \<Rightarrow> string \<Rightarrow> bool" where
  "version_matches version t =
     (case version of
        None \<Rightarrow> t = [] \<or> (hd t = CHR ''.'' \<and> tl t \<noteq> [] \<and> list_all is_digit_dot (tl t))
      | Some v \<Rightarrow> list_all2 (\<lambda>p c. p = CHR ''.'' \<or> p = c) v t)"

definition stem_matches :: "string \<Rightarrow> string option \<Rightarrow> string \<Rightarrow> bool" where
  "stem_matches name version stem \<longleftrightarrow>
     prefix name stem \<and> version_matches version (drop (length name) stem)"

definition select_from :: "compilation list \<Rightarrow> string list \<Rightarrow> string option \<Rightarrow> exn + compilation" where
  "select_from outputs sol_files version =
     (case outputs of
        [c] \<Rightarrow> Inr c
      | _ \<Rightarrow>
          (case sol_files of
             [target] \<Rightarrow>
               (let matching = filter (\<lambda>c. target \<in> set (cp_targets c)) outputs
                in if length matching \<noteq> 1 \<and> version \<noteq> None
                   then Inl (ValueError ''Cannot locate a unique compilation output'')
                   else case matching of [] \<Rightarrow> Inl IndexError | c # _ \<Rightarrow> Inr c)
           | _ \<Rightarrow> Inl (ValueError ''Cannot locate a unique contract'')))"

text \<open>\<^verbatim>\<open>version if version else ...\<close> takes the empty version for none; the test further down does not.\<close>

definition select_output ::
    "compilation list \<Rightarrow> string list \<Rightarrow> string \<Rightarrow> string option \<Rightarrow> exn + compilation" where
  "select_output files sol_files name version =
     select_from (filter (\<lambda>c. stem_matches name (if version = Some [] then None else version) (cp_stem c)) files)
       sol_files version"

text \<open>\<^verbatim>\<open>(src_path / contract_app).glob(f"**/{contract_name}.sol")\<close>, as texts.\<close>

definition sol_files_of :: "kk_env \<Rightarrow> string \<Rightarrow> string \<Rightarrow> string list" where
  "sol_files_of K app name =
     map (join_with (CHR ''/''))
       (filter (\<lambda>p. strict_prefix (foundry_src K @ [app]) p \<and> last p = name @ ''.sol'') (sol_sources K))"

lemma select_from_sound:
  assumes "select_from outputs sol_files version = Inr c"
  shows "c \<in> set outputs \<and>
    (length outputs \<noteq> 1 \<longrightarrow> (\<exists>target. sol_files = [target] \<and> target \<in> set (cp_targets c)))"
proof (cases "length outputs = 1")
  case True
  with assms show ?thesis by (auto simp: select_from_def length_Suc_conv)
next
  case False
  obtain target m where t: "sol_files = [target]"
    and m: "filter (\<lambda>c. target \<in> set (cp_targets c)) outputs = c # m"
    using assms False
    by (cases outputs; cases "tl outputs"; auto simp: select_from_def Let_def split: list.splits if_splits)
  from m have "c \<in> set (filter (\<lambda>c. target \<in> set (cp_targets c)) outputs)"
    by (metis list.set_intros(1))
  with t show ?thesis by simp
qed

section \<open>Link references\<close>

text \<open>Writing into a \<^verbatim>\<open>defaultdict\<close>: an entry that is missing starts as \<open>d\<close>, after the others.\<close>

fun alter_entry :: "'v \<Rightarrow> 'k \<Rightarrow> ('v \<Rightarrow> 'v) \<Rightarrow> ('k \<times> 'v) list \<Rightarrow> ('k \<times> 'v) list" where
  "alter_entry d k f [] = [(k, f d)]"
| "alter_entry d k f ((k', v) # rest) =
     (if k' = k then (k', f v) # rest else (k', v) # alter_entry d k f rest)"

text \<open>\<^verbatim>\<open>Path(file_path).relative_to(src_path).parts[0]\<close>\<close>

definition app_of_path :: "string list \<Rightarrow> string list \<Rightarrow> exn + string" where
  "app_of_path src path =
     (if \<not> prefix src path then Inl (ValueError ''not in the subpath'')
      else case drop (length src) path of [] \<Rightarrow> Inl IndexError | p # _ \<Rightarrow> Inr p)"

text \<open>\<^verbatim>\<open>result[relative_path][library_name].extend(references)\<close>\<close>

definition add_references ::
    "string \<Rightarrow> string \<times> (nat \<times> nat) list \<Rightarrow> string links \<Rightarrow> string links" where
  "add_references app reference result =
     (case reference of (library_name, references) \<Rightarrow>
        alter_entry [] app (alter_entry [] library_name (\<lambda>refs. refs @ references)) result)"

fun process_link_references :: "string list \<Rightarrow> string list links \<Rightarrow> string links \<Rightarrow> exn + string links" where
  "process_link_references src [] result = Inr result"
| "process_link_references src ((path, libraries) # links) result =
     bind_sum (app_of_path src path) (\<lambda>app.
     process_link_references src links (fold (add_references app) libraries result))"

definition get_solidity_artifacts :: "kk_env \<Rightarrow> string \<Rightarrow> string \<Rightarrow> string option \<Rightarrow> exn + sol_artifact" where
  "get_solidity_artifacts K app name version =
     bind_sum (select_output (compilations K) (sol_files_of K app name) name version) (\<lambda>output.
     bind_sum (process_link_references (foundry_src K) (cp_links output) []) (\<lambda>links.
     bind_sum (process_link_references (foundry_src K) (cp_runtime_links output) []) (\<lambda>runtime_links.
     Inr \<lparr>sa_object = cp_object output, sa_links = links, sa_runtime = cp_runtime output,
          sa_runtime_links = runtime_links, sa_abi = cp_abi output\<rparr>)))"

text \<open>The references of a library in an artifact, and those that the files of its application list.\<close>

definition refs_of :: "string links \<Rightarrow> string \<Rightarrow> string \<Rightarrow> (nat \<times> nat) list" where
  "refs_of links app library =
     (case map_of links app of None \<Rightarrow> []
      | Some libraries \<Rightarrow> (case map_of libraries library of None \<Rightarrow> [] | Some refs \<Rightarrow> refs))"

definition listed_refs :: "string list \<Rightarrow> string list links \<Rightarrow> string \<Rightarrow> string \<Rightarrow> (nat \<times> nat) list" where
  "listed_refs src links app library =
     concat (map (\<lambda>(path, libraries).
       if app_of_path src path = Inr app
       then concat (map snd (filter (\<lambda>(name, refs). name = library) libraries)) else []) links)"

lemma map_of_alter:
  "map_of (alter_entry d k f al) k' =
     (if k' = k then Some (f (case map_of al k of None \<Rightarrow> d | Some v \<Rightarrow> v)) else map_of al k')"
  by (induction al) (auto split: option.split)

lemma refs_of_add:
  "refs_of (add_references app (name, refs) links) app' library =
     refs_of links app' library @ (if app' = app \<and> library = name then refs else [])"
  by (auto simp: add_references_def refs_of_def map_of_alter split: option.split)

lemma refs_of_fold:
  "refs_of (fold (add_references app) libraries links) app' library =
     refs_of links app' library @
     (if app' = app then concat (map snd (filter (\<lambda>(name, refs). name = library) libraries)) else [])"
  by (induction libraries arbitrary: links) (auto simp: refs_of_add)

lemma process_links_spec:
  "process_link_references src raw links = Inr links' \<Longrightarrow>
     refs_of links' app library = refs_of links app library @ listed_refs src raw app library"
  by (induction src raw links rule: process_link_references.induct)
    (auto simp: listed_refs_def refs_of_fold elim!: bind_sum_InrE)

text \<open>The artifact of a contract is a compilation output of that name, and of the one source file of that name
  if several outputs have it; and no reference to a library is lost, moved or doubled: what is linked for a
  library of an application is what the files of that application list for it, in their order.\<close>

theorem solidity_artifacts_sound:
  assumes "get_solidity_artifacts K app name None = Inr a"
  shows "\<exists>c \<in> set (compilations K). stem_matches name None (cp_stem c) \<and>
    sa_object a = cp_object c \<and> sa_runtime a = cp_runtime c \<and> sa_abi a = cp_abi c \<and>
    (length (filter (\<lambda>d. stem_matches name None (cp_stem d)) (compilations K)) \<noteq> 1 \<longrightarrow>
       (\<exists>target. sol_files_of K app name = [target] \<and> target \<in> set (cp_targets c))) \<and>
    (\<forall>lapp library.
       refs_of (sa_links a) lapp library = listed_refs (foundry_src K) (cp_links c) lapp library \<and>
       refs_of (sa_runtime_links a) lapp library = listed_refs (foundry_src K) (cp_runtime_links c) lapp library)"
proof -
  obtain c links runtime_links where c: "select_output (compilations K) (sol_files_of K app name) name None = Inr c"
    and links: "process_link_references (foundry_src K) (cp_links c) [] = Inr links"
    and runtime: "process_link_references (foundry_src K) (cp_runtime_links c) [] = Inr runtime_links"
    and a: "a = \<lparr>sa_object = cp_object c, sa_links = links, sa_runtime = cp_runtime c,
      sa_runtime_links = runtime_links, sa_abi = cp_abi c\<rparr>"
    using assms unfolding get_solidity_artifacts_def by (auto elim!: bind_sum_InrE)
  from select_from_sound [OF c [unfolded select_output_def]] process_links_spec [OF links] process_links_spec [OF runtime]
  show ?thesis by (intro bexI [of _ c]) (auto simp: a refs_of_def)
qed

end
