(* ===== verification/KakarotLink.thy ===== *)
theory KakarotLink
  imports KakarotLogs SolidityArtifacts
begin

text \<open>
  Solidity contracts in \<^verbatim>\<open>kakarot_scripts/utils/kakarot.py\<close>: the linking of library addresses into
  bytecode, \<^verbatim>\<open>get_contract\<close> and \<^verbatim>\<open>deploy\<close>.  A library
  is deployed by \<^verbatim>\<open>deploy\<close> itself, so the recursion through libraries carries fuel: the depth to
  which libraries may need libraries; running out is not coming back, as for a cycle of libraries.
\<close>

section \<open>Linking\<close>

text \<open>One library: the text at every reference is replaced wherever it occurs.\<close>

fun link_refs :: "string \<Rightarrow> string \<Rightarrow> (nat \<times> nat) list \<Rightarrow> string" where
  "link_refs address code [] = code"
| "link_refs address code ((start, len) # refs) =
     link_refs address (str_replace (take (2 * len) (drop (2 * start) code)) address code) refs"

text \<open>The two nested loops go through the libraries application by application.\<close>

definition link_order :: "string links \<Rightarrow> ((string \<times> string) \<times> (nat \<times> nat) list) list" where
  "link_order links =
     concat (map (\<lambda>(app, libraries). map (\<lambda>(name, refs). ((app, name), refs)) libraries) links)"

fun link_code ::
    "(string \<times> string \<Rightarrow> ('s, string) py) \<Rightarrow> string \<Rightarrow> ((string \<times> string) \<times> (nat \<times> nat) list) list \<Rightarrow>
       ('s, string) py" where
  "link_code library code [] = ret code"
| "link_code library code ((key, refs) # links) =
     bnd (library key) (\<lambda>address. link_code library (link_refs (map lower (drop 2 address)) code refs) links)"

definition link_libraries ::
    "(string \<times> string \<Rightarrow> ('s, string) py) \<Rightarrow> sol_artifact \<Rightarrow> ('s, string \<times> string) py" where
  "link_libraries library a =
     bnd (link_code library (drop 2 (sa_object a)) (link_order (sa_links a))) (\<lambda>bytecode.
     bnd (link_code library (drop 2 (sa_runtime a)) (link_order (sa_runtime_links a))) (\<lambda>runtime.
     ret (bytecode, runtime)))"

section \<open>Deploying a Solidity contract\<close>

text \<open>A contract handle: the functions of its ABI are attached to it as wrappers, for the account it was made
  for.  A deployed contract has the address on Starknet besides.\<close>

record kk_contract =
  kc_address :: "int option"
  kc_bytecode :: string
  kc_runtime :: "byte list"
  kc_abi :: abi
  kc_caller :: "account option"

record deployed =
  dp_contract :: kk_contract
  dp_address :: int
  dp_starknet_address :: int

text \<open>The events that announce the new contract.\<close>

definition deployed_events :: "env \<Rightarrow> receipt \<Rightarrow> ('m world_scheme, sn_event list) py" where
  "deployed_events E rc =
     bnd (comprehend (\<lambda>ev.
            bnd (get_selector_from_name E ''evm_contract_deployed'') (\<lambda>sel.
            if ev_keys ev = [sel]
            then bnd get_deployments (\<lambda>d.
                 bnd (get_option KeyError (map_of d ''kakarot'')) (\<lambda>kakarot.
                 ret (ev, ev_from ev = kakarot)))
            else ret (ev, False))) (rc_events rc)) (\<lambda>flags.
     ret (map fst (filter snd flags)))"

definition event_addresses :: "sn_event \<Rightarrow> exn + int \<times> int" where
  "event_addresses ev =
     (case ev_data ev of [a, b] \<Rightarrow> Inr (a, b) | _ \<Rightarrow> Inl (ValueError ''unpack''))"

text \<open>\<^verbatim>\<open>HexBytes\<close> pads a text of odd length.\<close>

definition hexbytes :: "string \<Rightarrow> exn + byte list" where
  "hexbytes t =
     (let h = (if take 2 t = ''0x'' then drop 2 t else t)
      in fromhex (if odd (length h) then CHR ''0'' # h else h))"

definition locate_deployed ::
    "env \<Rightarrow> byte list \<Rightarrow> sn_event list \<Rightarrow> ('m world_scheme, int \<times> int) py" where
  "locate_deployed E runtime evs =
     (case evs of
        [ev] \<Rightarrow> lift_sum (event_addresses ev)
      | _ \<Rightarrow>
          bnd (comprehend (\<lambda>ev.
                 bnd (get_option IndexError (case ev_data ev of [] \<Rightarrow> None | a # _ \<Rightarrow> Some a)) (\<lambda>a.
                 eth_get_code E (AddrInt a))) evs) (\<lambda>codes.
          case filter (\<lambda>(ev, code). length code = length runtime) (zip evs codes) of
            [(ev, _)] \<Rightarrow> lift_sum (event_addresses ev)
          | _ \<Rightarrow> raise (EvmTransactionError [])))"

definition transaction_gas_limit :: int where
  "transaction_gas_limit = 7000000"

text \<open>\<^verbatim>\<open>get_or_deploy_library\<close> with its cache, and the code of \<^verbatim>\<open>get_contract\<close>: the linked bytecode and the
  bytes of the linked runtime code.\<close>

definition get_or_deploy_library ::
    "env \<Rightarrow> (string \<Rightarrow> string \<Rightarrow> ('m kk_world_scheme, deployed) py) \<Rightarrow> string \<times> string \<Rightarrow>
       ('m kk_world_scheme, string) py" where
  "get_or_deploy_library E deploy_library key =
     bnd (gets (\<lambda>s. library_cache s key)) (\<lambda>cached.
     case cached of
       Some a \<Rightarrow> ret (checksum E a)
     | None \<Rightarrow>
         bnd (deploy_library (fst key) (snd key)) (\<lambda>d.
         seq (modify (\<lambda>s. s\<lparr>library_cache := (library_cache s)(key \<mapsto> dp_address d)\<rparr>))
             (ret (checksum E (dp_address d)))))"

text \<open>\<^verbatim>\<open>int(address, 16) if isinstance(address, str) else address\<close>, which may be missing, and its checksum.\<close>

definition contract_address :: "env \<Rightarrow> addr_arg \<Rightarrow> exn + int option" where
  "contract_address E address =
     (case address of
        NoAddr \<Rightarrow> Inr None
      | AddrInt n \<Rightarrow> Inr (Some n)
      | AddrStr t \<Rightarrow> bind_sum (int16 t) (\<lambda>n. Inr (Some n)))"

definition check_contract_address :: "env \<Rightarrow> int option \<Rightarrow> exn + unit" where
  "check_contract_address E address =
     (case address of None \<Rightarrow> Inr () | Some a \<Rightarrow> bind_sum (checksum_address E a) (\<lambda>_. Inr ()))"

definition solidity_contract ::
    "env \<Rightarrow> kk_env \<Rightarrow> (string \<Rightarrow> string \<Rightarrow> ('m kk_world_scheme, deployed) py) \<Rightarrow> string \<Rightarrow> string \<Rightarrow> addr_arg \<Rightarrow>
       account option \<Rightarrow> ('m kk_world_scheme, kk_contract) py" where
  "solidity_contract E K deploy_library app name address caller_eoa =
     bnd (lift_sum (get_solidity_artifacts K app name None)) (\<lambda>artifacts.
     bnd (lift_sum (contract_address E address)) (\<lambda>address.
     bnd (link_libraries (get_or_deploy_library E deploy_library) artifacts) (\<lambda>(bytecode, bytecode_runtime).
     seq (lift_sum (check_contract_address E address))
    (seq (lift_sum (hexbytes bytecode))
    (bnd (lift_sum (hexbytes bytecode_runtime)) (\<lambda>runtime.
     ret \<lparr>kc_address = address, kc_bytecode = bytecode, kc_runtime = runtime, kc_abi = sa_abi artifacts,
          kc_caller = caller_eoa\<rparr>))))))"

definition deployed_at ::
    "env \<Rightarrow> byte list \<Rightarrow> any_receipt \<Rightarrow> ('m world_scheme, int \<times> int) py" where
  "deployed_at E runtime receipt =
     (case receipt of
        Web3Receipt rc \<Rightarrow>
          bnd (get_option TypeError (case wr_contract_address rc of Some a \<Rightarrow> Some a | None \<Rightarrow> wr_to rc)) (\<lambda>a.
          bnd (call_fn E (ByName ''kakarot'') ''get_starknet_address'' [Felt a] None) (\<lambda>r.
          bnd (felt_output r) (\<lambda>sa. ret (a, sa))))
      | SnReceipt rc \<Rightarrow> bnd (deployed_events E rc) (locate_deployed E runtime))"

fun deploy_contract ::
    "nat \<Rightarrow> env \<Rightarrow> kk_env \<Rightarrow> string \<Rightarrow> string \<Rightarrow> arg list \<Rightarrow> account option \<Rightarrow> int \<Rightarrow>
       ('m kk_world_scheme, deployed) py" where
  "deploy_contract 0 E K app name args caller_eoa wei = (\<lambda>_. Diverge)"
| "deploy_contract (Suc fuel) E K app name args caller_eoa wei =
     bnd (solidity_contract E K (\<lambda>lapp lname. deploy_contract fuel E K lapp lname [] None 0) app name NoAddr caller_eoa)
       (\<lambda>contract.
     bnd (lift_sum (constructor_data K app name (kc_bytecode contract) args)) (\<lambda>data.
     bnd (eth_send_transaction E K None data transaction_gas_limit wei caller_eoa 1)
       (\<lambda>(receipt, response, success, _).
     if success = 0
     then bnd (lift_sum (bytes_of_ints response)) (\<lambda>_. raise (EvmTransactionError response))
     else bnd (deployed_at E (kc_runtime contract) receipt) (\<lambda>(evm_address, starknet_address).
          seq (lift_sum (checksum_address E evm_address))
         (ret \<lparr>dp_contract = contract\<lparr>kc_address := Some evm_address\<rparr>, dp_address = evm_address,
               dp_starknet_address = starknet_address\<rparr>)))))"

text \<open>A contract without libraries needs no fuel beyond its own.\<close>

lemma link_libraries_none:
  "sa_links a = [] \<Longrightarrow> sa_runtime_links a = [] \<Longrightarrow>
     link_libraries library a = ret (drop 2 (sa_object a), drop 2 (sa_runtime a))"
  by (simp add: link_libraries_def link_order_def)

lemma deploy_contract_fuel:
  assumes "\<And>a. get_solidity_artifacts K app name None = Inr a \<Longrightarrow> sa_links a = [] \<and> sa_runtime_links a = []"
  shows "deploy_contract (Suc fuel) E K app name args caller wei =
    (deploy_contract (Suc fuel') E K app name args caller wei :: ('m kk_world_scheme, deployed) py)"
proof -
  have same: "solidity_contract E K lib app name NoAddr caller =
      (solidity_contract E K lib' app name NoAddr caller :: ('m kk_world_scheme, kk_contract) py)" for lib lib'
    using assms by (cases "get_solidity_artifacts K app name None")
      (auto simp: solidity_contract_def link_libraries_none lift_sum_def bnd_def fun_eq_iff)
  show ?thesis
    unfolding deploy_contract.simps by (rule fun_cong [OF arg_cong [where f = bnd, OF same]])
qed

end
