(* ===== verification/Sequencing.thy ===== *)
theory Sequencing
  imports Batch
begin

text \<open>
  Which nonces the submitted transactions carry: the accounting of one execution, the numbering
  of all transactions of an account on a network that counts them, and the cost of asking for a
  nonce.
\<close>

section \<open>One execution\<close>

lemma execute_v1_wrapped_RetE:
  assumes "execute_v1_wrapped E account calls s = Ret r t"
    and "\<not> multisig_accounts s (ac_address account)"
  obtains version s1 nonce s2 h st tx where
    "ask (CairoVersion (ac_address account)) (\<lambda>h. o_cairo_version E h (ac_address account)) s =
       Ret version s1"
    and "get_nonce E account s1 = Ret nonce s2"
    and "tx = \<lparr>tx_sender = ac_address account, tx_calls = calls, tx_cairo_version = version,
      tx_nonce = nonce, tx_max_fee = max_fee_default E,
      tx_signature = sign_invoke E (ac_private_key account) (ac_address account) calls version
        (max_fee_default E) (nw_chain_id (network E)) nonce\<rparr>"
    and "wait_for_transaction E h (Some account) (s2\<lparr>trace := trace s2 @ [AddInvoke tx]\<rparr>) = Ret st t"
    and "quiet s s2" and "r = SentTx h"
proof -
  let ?a = "ac_address account"
  obtain version s1 where v: "ask (CairoVersion ?a) (\<lambda>h. o_cairo_version E h ?a) s = Ret version s1"
    using assms(1) unfolding execute_v1_wrapped_def Let_def by (auto elim!: bnd_RetE)
  moreover obtain nonce s2 where n: "get_nonce E account s1 = Ret nonce s2"
    using assms(1) v unfolding execute_v1_wrapped_def Let_def by (auto simp: bnd_Ret elim!: bnd_RetE)
  have "rel_py quiet (ask (CairoVersion ?a) (\<lambda>h. o_cairo_version E h ?a))"
    by (rule ask_quiet) simp
  then have "quiet s s1" using v by (rule rel_pyD_Ret)
  moreover have "quiet s1 s2" by (rule rel_pyD_Ret [OF get_nonce_quiet n])
  ultimately have q: "quiet s s2" by (blast intro: quiet.R_trans)
  then have m: "\<not> multisig_accounts s2 ?a" using assms(2) by (simp add: quiet_globals)
  show thesis
    using assms(1) v n m q
    by (auto simp: execute_v1_wrapped_def Let_def gets_def ask_cases ret_def bnd_def
        split: outcome.splits sum.splits intro: that)
qed

text \<open>Whether the wait for a transaction ended with the network rejecting it.\<close>

definition wait_rejected :: "env \<Rightarrow> int \<Rightarrow> 'm world_scheme \<Rightarrow> bool" where
  "wait_rejected E h t =
     (case num_truediv (nw_max_wait (network E)) (nw_check_interval (network E)) of
        Inl _ \<Rightarrow> False
      | Inr _ \<Rightarrow> (case o_wait_for_tx E (trace t) h of Inl e \<Rightarrow> is_rejected e | Inr _ \<Rightarrow> False))"

lemma truediv_Inl: "num_truediv x y = Inl e \<Longrightarrow> e = ZeroDivisionError"
  by (cases x; cases y) (auto split: if_splits)

lemma wait_accounting:
  assumes "wait_for_transaction E h (Some acc) s = Ret st t"
    and "nonces s (ac_address acc) = Some n"
  shows "nonces t = (nonces s)(ac_address acc \<mapsto> (if wait_rejected E h t then n - 1 else n))"
proof (cases "num_truediv (nw_max_wait (network E)) (nw_check_interval (network E))")
  case (Inl e)
  with truediv_Inl [OF Inl] assms show ?thesis
    by (auto simp: wait_for_transaction_def py_run wait_rejected_def fun_upd_idem is_rejected_def)
next
  case (Inr q)
  with wait_for_transaction_nonces [OF assms(1) Inr assms(2)] show ?thesis
    by (auto simp: wait_rejected_def split: sum.splits)
qed

text \<open>C8. One plain execution submits exactly one transaction, with the calls it was given, signed
  for the nonce it carries, and settles the account of nonces: the dictionary ends one ahead of
  that nonce, or at it when the network rejected the transaction; other accounts keep theirs.\<close>

theorem execute_v1_accounting:
  assumes "execute_v1_wrapped E account calls s = Ret r t"
    and "\<not> multisig_accounts s (ac_address account)"
  shows "\<exists>tx h. r = SentTx h \<and> sent_txs (trace t) = sent_txs (trace s) @ [tx] \<and>
    tx_sender tx = ac_address account \<and> tx_calls tx = calls \<and>
    tx_signature tx = sign_invoke E (ac_private_key account) (tx_sender tx) (tx_calls tx)
      (tx_cairo_version tx) (tx_max_fee tx) (nw_chain_id (network E)) (tx_nonce tx) \<and>
    nonces t = (nonces s)(ac_address account \<mapsto>
      (if wait_rejected E h t then tx_nonce tx else tx_nonce tx + 1))"
proof -
  let ?a = "ac_address account"
  obtain version s1 nonce s2 h st tx where
    v: "ask (CairoVersion ?a) (\<lambda>h. o_cairo_version E h ?a) s = Ret version s1"
    and n: "get_nonce E account s1 = Ret nonce s2"
    and tx: "tx = \<lparr>tx_sender = ?a, tx_calls = calls, tx_cairo_version = version,
      tx_nonce = nonce, tx_max_fee = max_fee_default E,
      tx_signature = sign_invoke E (ac_private_key account) ?a calls version
        (max_fee_default E) (nw_chain_id (network E)) nonce\<rparr>"
    and w: "wait_for_transaction E h (Some account) (s2\<lparr>trace := trace s2 @ [AddInvoke tx]\<rparr>) = Ret st t"
    and q: "quiet s s2" and r: "r = SentTx h"
    using execute_v1_wrapped_RetE [OF assms] .
  have n1: "nonces s1 = nonces s" using v by (auto simp: ask_cases Let_def split: sum.splits)
  have n2: "nonces s2 = (nonces s)(?a \<mapsto> nonce + 1)"
    using sn_nonce.next_nonce_Ret(1) [OF n [unfolded get_nonce_def]] n1 by simp
  then have "nonces t = (nonces s)(?a \<mapsto> (if wait_rejected E h t then nonce else nonce + 1))"
    using wait_accounting [OF w, of "nonce + 1"] by simp
  moreover have "sent_txs (trace t) = sent_txs (trace s) @ [tx]"
    by (rule submit_step(3) [OF q refl rel_pyD_Ret [OF wait_for_transaction_quiet w]])
  ultimately show ?thesis using r tx by (intro exI [of _ tx] exI [of _ h]) simp
qed

lemma dev_run:
  "\<exists>t. execute_v1_wrapped dev_env (dev_account 9) [] dev_world = Ret (SentTx 101) t"
  by (simp add: execute_v1_wrapped_def get_nonce_def next_nonce_def ask_nonce_def store_nonce_def
      wait_for_transaction_def py_run Let_def eval_nat_numeral)

lemma execute_v1_accounting_witness:
  "\<exists>t tx. execute_v1_wrapped dev_env (dev_account 9) [] dev_world = Ret (SentTx 101) t \<and>
     sent_txs (trace t) = [tx] \<and> nonces t = [9 \<mapsto> tx_nonce tx + 1]"
proof -
  obtain t where run: "execute_v1_wrapped dev_env (dev_account 9) [] dev_world = Ret (SentTx 101) t"
    using dev_run by blast
  from execute_v1_accounting [OF run] run show ?thesis
    by (auto simp: wait_rejected_def)
qed

section \<open>Numbering\<close>

definition sent_by :: "int \<Rightarrow> 'm world_scheme \<Rightarrow> invoke_tx list" where
  "sent_by a s = filter (\<lambda>tx. tx_sender tx = a) (sent_txs (trace s))"

text \<open>The network counts the transactions it is sent.\<close>

definition counts_transactions :: "env \<Rightarrow> (int \<Rightarrow> int) \<Rightarrow> bool" where
  "counts_transactions E base \<longleftrightarrow> (\<forall>h a. o_pending_nonce E h a =
     Inr (base a + int (length (filter (\<lambda>tx. tx_sender tx = a) (sent_txs h)))))"

definition numbered :: "(int \<Rightarrow> int) \<Rightarrow> 'm world_scheme \<Rightarrow> bool" where
  "numbered base s \<longleftrightarrow>
     (\<forall>a. map tx_nonce (sent_by a s) = map (\<lambda>i. base a + int i) [0..<length (sent_by a s)])"

lemma sent_by_quiet: "quiet s t \<Longrightarrow> sent_by a t = sent_by a s"
  by (simp add: sent_by_def quiet_sent)

lemma numbered_quiet: "quiet s t \<Longrightarrow> numbered base s \<Longrightarrow> numbered base t"
  by (simp add: numbered_def sent_by_quiet)

lemma rel_py_quiet_numbered: "rel_py quiet m \<Longrightarrow> keeps (numbered base) m"
  by (erule rel_py_mono) (blast intro: numbered_quiet)

lemma numbered_submit:
  assumes "numbered base s" and "tx_nonce tx = base (tx_sender tx) + int (length (sent_by (tx_sender tx) s))"
  shows "numbered base (s\<lparr>trace := trace s @ [AddInvoke tx]\<rparr>)"
proof -
  have "sent_by a (s\<lparr>trace := trace s @ [AddInvoke tx]\<rparr>) =
      sent_by a s @ (if tx_sender tx = a then [tx] else [])" for a
    by (simp add: sent_by_def)
  then show ?thesis using assms by (simp add: numbered_def)
qed

lemma get_nonce_counted:
  assumes "get_nonce E account s = Ret n t" and "counts_transactions E base"
  shows "n = base (ac_address account) + int (length (sent_by (ac_address account) t))"
  using sn_nonce.next_nonce_Ret(2) [OF assms(1) [unfolded get_nonce_def]] assms(2)
  by (simp add: counts_transactions_def sent_by_def)

lemma execute_multisig_numbered: "keeps (numbered base) (execute_multisig E account calls tx)"
  by (rule rel_py_quiet_numbered [OF execute_multisig_quiet])

lemma wait_for_transaction_numbered: "keeps (numbered base) (wait_for_transaction E h acc)"
  by (rule rel_py_quiet_numbered [OF wait_for_transaction_quiet])

text \<open>A nonce just answered is still right when its transaction is submitted next.\<close>

lemma submit_numbered:
  assumes "counts_transactions E base"
  shows "keeps (numbered base) (bnd (get_nonce E account) (\<lambda>nonce.
           let transaction = \<lparr>tx_sender = ac_address account, tx_calls = calls, tx_cairo_version = version,
               tx_nonce = nonce, tx_max_fee = fee, tx_signature = sig nonce\<rparr>
           in bnd (gets (\<lambda>s. multisig_accounts s (ac_address account))) (\<lambda>multisig.
              if multisig then execute_multisig E account calls transaction
              else bnd (ask (AddInvoke transaction) (\<lambda>h. o_add_invoke E h transaction)) (\<lambda>tx_hash.
                   bnd (wait_for_transaction E tx_hash (Some account)) (\<lambda>_. ret (SentTx tx_hash))))))"
    (is "keeps _ (bnd _ ?rest)")
proof -
  let ?a = "ac_address account"
  let ?got = "\<lambda>n t. numbered base t \<and> n = base ?a + int (length (sent_by ?a t))"
  have got: "triple (numbered base) (get_nonce E account) ?got (numbered base)"
    unfolding triple_def
    by (auto split: outcome.split intro: numbered_quiet get_nonce_counted [OF _ assms]
        dest: rel_pyD_Ret [OF get_nonce_quiet] rel_pyD_Exc [OF get_nonce_quiet])
  have rest: "triple (?got n) (?rest n) (\<lambda>_. numbered base) (numbered base)" for n
  proof -
    let ?tx = "\<lparr>tx_sender = ?a, tx_calls = calls, tx_cairo_version = version,
               tx_nonce = n, tx_max_fee = fee, tx_signature = sig n\<rparr>"
    have "triple (?got n) (ask (AddInvoke ?tx) (\<lambda>h. o_add_invoke E h ?tx)) (\<lambda>_. numbered base) (numbered base)"
      by (auto simp: triple_def ask_cases Let_def intro: numbered_submit split: sum.split)
    then have "triple (?got n) (bnd (ask (AddInvoke ?tx) (\<lambda>h. o_add_invoke E h ?tx)) (\<lambda>tx_hash.
        bnd (wait_for_transaction E tx_hash (Some account)) (\<lambda>_. ret (SentTx tx_hash)))) (\<lambda>_. numbered base) (numbered base)"
      by (rule triple_bnd) (intro triple_keeps [THEN iffD2] invariant_step.rules wait_for_transaction_numbered)
    moreover have "triple (?got n) (execute_multisig E account calls ?tx) (\<lambda>_. numbered base) (numbered base)"
      by (rule triple_weaken [OF triple_keeps [THEN iffD2, OF execute_multisig_numbered]]) simp_all
    ultimately show ?thesis by (auto simp: triple_def bnd_def gets_def Let_def)
  qed
  from triple_bnd [OF got rest] show ?thesis by (simp add: triple_keeps)
qed

lemma execute_v1_wrapped_numbered:
  assumes "counts_transactions E base"
  shows "keeps (numbered base) (execute_v1_wrapped E account calls)"
  unfolding execute_v1_wrapped_def Let_def [of "ac_address account"]
  by (rule invariant_step.bnd_rule [OF rel_py_quiet_numbered [OF ask_quiet] submit_numbered [OF assms]])
    simp

lemma logs_update_numbered: "keeps (numbered base) (modify (\<lambda>s. s\<lparr>logs := f s\<rparr>))"
  by (simp add: rel_py_def modify_def numbered_def sent_by_def)

text \<open>On a network that counts transactions, the transactions of every account carry
  consecutive nonces with no gap and no reuse; executing, lazily or not, through a multisig or
  not, and flushing keep it so, whatever exceptions occur on the way.\<close>

theorem nonces_consecutive:
  assumes "counts_transactions E base"
  shows "keeps (numbered base) (execute_v1 E account calls) \<and>
    keeps (numbered base) (execute_calls E)"
proof
  show "keeps (numbered base) (execute_v1 E account calls)"
    unfolding execute_v1_def
    by (intro invariant_step.rules logs_update_numbered execute_v1_wrapped_numbered assms)
  show "keeps (numbered base) (execute_calls E)"
    unfolding execute_calls_def
    by (intro invariant_step.bnd_rule invariant_step.pure invariant_step.seq_rule
        invariant_step.for_each_rule logs_update_numbered)
      (auto intro!: invariant_step.rules execute_v1_wrapped_numbered assms split: prod.split)
qed

lemma dev_counts: "counts_transactions dev_env (\<lambda>_. 0)"
  by (simp add: counts_transactions_def)

lemma nonces_consecutive_witness:
  "numbered (\<lambda>_. 0) dev_world \<and> keeps (numbered (\<lambda>_. 0)) (execute_v1 dev_env (dev_account 9) []) \<and>
   (\<exists>t tx. execute_v1 dev_env (dev_account 9) [] dev_world = Ret (SentTx 101) t \<and>
     sent_by 9 t = [tx] \<and> tx_nonce tx = 0)"
proof -
  have start: "numbered (\<lambda>_. 0) dev_world" by (simp add: numbered_def sent_by_def)
  note keep = conjunct1 [OF nonces_consecutive [OF dev_counts, of "dev_account 9" "[]"]]
  obtain t where run: "execute_v1_wrapped dev_env (dev_account 9) [] dev_world = Ret (SentTx 101) t"
    using dev_run by blast
  then have run': "execute_v1 dev_env (dev_account 9) [] dev_world = Ret (SentTx 101) t"
    by (simp add: execute_v1_def bnd_def gets_def)
  have "length (sent_by 9 t) = 1"
    using execute_v1_wrapped_cases [of dev_world "dev_account 9" "[]" dev_env] run
    by (auto simp: submitted_def sent_by_def map_eq_Cons_conv)
  moreover have "numbered (\<lambda>_. 0) t" using rel_pyD_Ret [OF keep run'] start by blast
  ultimately have "\<exists>tx. sent_by 9 t = [tx] \<and> tx_nonce tx = 0"
    by (auto simp: numbered_def length_Suc_conv dest: spec [of _ 9])
  with start keep run' show ?thesis by blast
qed

section \<open>The cost of a nonce\<close>

text \<open>C18. Asking for a nonce always comes back: whatever the network answers, it makes at most
  twelve questions and ten pauses before it returns or raises.\<close>

theorem get_nonce_bounded: "costs (\<lambda>s. length (trace s)) 22 (get_nonce E account)"
  unfolding get_nonce_def
  by (rule next_nonce_costs)
    (auto simp: costs_def ask_nonce_def store_nonce_def py_run split: sum.split)

end
