(* ===== verification/Numbering.thy ===== *)
theory Numbering
  imports Sequencing
begin

text \<open>
  The nonces of an account on a network that is late.  The nonce dictionary, the polling of
  \<^verbatim>\<open>get_nonce\<close> and the step back of \<^verbatim>\<open>wait_for_transaction\<close> exist because the pending nonce a node
  reports may not yet count the last transactions.  Here the network is allowed to lag: its answers
  are never ahead of the transactions it accepted, and they are exact only before the first
  transaction of the account and after the ten pauses of \<^verbatim>\<open>get_nonce\<close>.  Transactions may be refused,
  and a rejected one is not counted.
\<close>

section \<open>A network that is late\<close>

text \<open>The account and the nonce of a request that uses one.\<close>

fun nonce_use :: "event \<Rightarrow> (int \<times> int) option" where
  "nonce_use (AddInvoke tx) = Some (tx_sender tx, tx_nonce tx)"
| "nonce_use (DeclareV2 a name n) = Some (a, n)"
| "nonce_use (DeclareV1 a name n) = Some (a, n)"
| "nonce_use ev = None"

definition uses_nonce_of :: "int \<Rightarrow> event \<Rightarrow> bool" where
  "uses_nonce_of a ev \<longleftrightarrow> map_option fst (nonce_use ev) = Some a"

text \<open>How many of the requests the network accepted; whether it accepts one may depend on the whole
  history that ends with it.\<close>

definition accepted_count :: "(event list \<Rightarrow> bool) \<Rightarrow> int \<Rightarrow> event list \<Rightarrow> nat" where
  "accepted_count acc a h =
     length (filter (\<lambda>i. uses_nonce_of a (h ! i) \<and> acc (take (Suc i) h)) [0..<length h])"

definition nonce_pause :: event where
  "nonce_pause = Sleep (PFloat (rnd (1 / 10)))"

definition pauses_since :: "int \<Rightarrow> event list \<Rightarrow> nat" where
  "pauses_since a h =
     length (filter (\<lambda>ev. ev = nonce_pause) (takeWhile (\<lambda>ev. \<not> uses_nonce_of a ev) (rev h)))"

definition settled_for :: "int \<Rightarrow> event list \<Rightarrow> bool" where
  "settled_for a h \<longleftrightarrow> list_all (\<lambda>ev. \<not> uses_nonce_of a ev) h \<or> 10 \<le> pauses_since a h"

definition lagging_network :: "env \<Rightarrow> int \<Rightarrow> (event list \<Rightarrow> bool) \<Rightarrow> int \<Rightarrow> bool" where
  "lagging_network E base acc a \<longleftrightarrow>
     (\<forall>h n. o_pending_nonce E h a = Inr n \<longrightarrow> n \<le> base + int (accepted_count acc a h)) \<and>
     (\<forall>h n. settled_for a h \<longrightarrow> o_pending_nonce E h a = Inr n \<longrightarrow> n = base + int (accepted_count acc a h)) \<and>
     (\<forall>h tx x h' e. tx_sender tx = a \<longrightarrow> o_add_invoke E (h @ [AddInvoke tx]) tx = Inr x \<longrightarrow>
        o_wait_for_tx E h' x = Inl e \<longrightarrow> is_rejected e \<longrightarrow> \<not> acc (h @ [AddInvoke tx])) \<and>
     (\<forall>h ev name n ch x h' e. ev = DeclareV2 a name n \<or> ev = DeclareV1 a name n \<longrightarrow>
        o_declare E (h @ [ev]) name n = Inr (ch, x) \<longrightarrow>
        o_wait_for_tx E h' x = Inl e \<longrightarrow> is_rejected e \<longrightarrow> \<not> acc (h @ [ev]))"

lemma accepted_count_Nil [simp]: "accepted_count acc a [] = 0"
  by (simp add: accepted_count_def)

lemma accepted_count_snoc:
  "accepted_count acc a (h @ [ev]) =
     accepted_count acc a h + (if uses_nonce_of a ev \<and> acc (h @ [ev]) then 1 else 0)"
proof -
  have "filter (\<lambda>i. uses_nonce_of a ((h @ [ev]) ! i) \<and> acc (take (Suc i) (h @ [ev]))) [0..<length h] =
      filter (\<lambda>i. uses_nonce_of a (h ! i) \<and> acc (take (Suc i) h)) [0..<length h]"
    by (rule filter_cong) (auto simp: nth_append)
  then show ?thesis by (simp add: accepted_count_def)
qed

lemma accepted_count_append:
  "\<forall>ev \<in> set evs. \<not> uses_nonce_of a ev \<Longrightarrow> accepted_count acc a (h @ evs) = accepted_count acc a h"
  by (induction evs rule: rev_induct) (simp_all add: accepted_count_snoc flip: append_assoc)

lemma pauses_since_append:
  assumes "\<forall>ev \<in> set evs. \<not> uses_nonce_of a ev"
  shows "length (filter (\<lambda>ev. ev = nonce_pause) evs) \<le> pauses_since a (h @ evs)"
proof -
  have "takeWhile (\<lambda>ev. \<not> uses_nonce_of a ev) (rev evs @ rev h) =
      rev evs @ takeWhile (\<lambda>ev. \<not> uses_nonce_of a ev) (rev h)"
    using assms by (intro takeWhile_append2) simp
  then show ?thesis by (simp add: pauses_since_def flip: rev_filter)
qed

section \<open>Being on track\<close>

text \<open>Every use of a nonce carries the number of requests accepted before it.\<close>

definition numbered_right :: "int \<Rightarrow> (event list \<Rightarrow> bool) \<Rightarrow> int \<Rightarrow> event list \<Rightarrow> bool" where
  "numbered_right base acc a h \<longleftrightarrow>
     (\<forall>i < length h. \<forall>n. nonce_use (h ! i) = Some (a, n) \<longrightarrow> n = base + int (accepted_count acc a (take i h)))"

text \<open>And the dictionary is not behind the network; without an entry nothing was used yet.\<close>

definition on_track :: "int \<Rightarrow> (event list \<Rightarrow> bool) \<Rightarrow> int \<Rightarrow> 'm world_scheme \<Rightarrow> bool" where
  "on_track base acc a s \<longleftrightarrow> numbered_right base acc a (trace s) \<and>
     (case nonces s a of
        None \<Rightarrow> list_all (\<lambda>ev. \<not> uses_nonce_of a ev) (trace s)
      | Some c \<Rightarrow> base + int (accepted_count acc a (trace s)) \<le> c)"

text \<open>A nonce in hand: it is right for the request that comes next.\<close>

definition in_hand :: "int \<Rightarrow> (event list \<Rightarrow> bool) \<Rightarrow> int \<Rightarrow> int \<Rightarrow> 'm world_scheme \<Rightarrow> bool" where
  "in_hand base acc a n s \<longleftrightarrow> numbered_right base acc a (trace s) \<and> nonces s a = Some (n + 1) \<and>
     n = base + int (accepted_count acc a (trace s))"

lemma in_hand_on_track: "in_hand base acc a n s \<Longrightarrow> on_track base acc a s"
  by (simp add: in_hand_def on_track_def)

definition untouched :: "int \<Rightarrow> 'm world_scheme \<Rightarrow> 'm world_scheme \<Rightarrow> bool" where
  "untouched a s t \<longleftrightarrow> nonces t a = nonces s a \<and>
     (\<exists>evs. trace t = trace s @ evs \<and> (\<forall>ev \<in> set evs. \<not> uses_nonce_of a ev))"

interpretation untouched: step_relation "untouched a" for a
proof
  fix s :: "'m world_scheme"
  show "untouched a s s" by (simp add: untouched_def)
next
  fix s t u :: "'m world_scheme"
  assume "untouched a s t" and "untouched a t u"
  then show "untouched a s u" by (fastforce simp: untouched_def)
qed

lemma numbered_right_append:
  assumes "\<forall>ev \<in> set evs. \<not> uses_nonce_of a ev"
  shows "numbered_right base acc a (h @ evs) \<longleftrightarrow> numbered_right base acc a h"
proof -
  have "nonce_use ((h @ evs) ! i) \<noteq> Some (a, n)" if "length h \<le> i" and "i < length (h @ evs)" for i n
  proof -
    have "(h @ evs) ! i \<in> set evs" using that by (simp add: nth_append)
    with assms show ?thesis by (force simp: uses_nonce_of_def)
  qed
  then show ?thesis
    unfolding numbered_right_def by (auto simp: nth_append)
qed

lemma untouched_on_track: "untouched a s t \<Longrightarrow> on_track base acc a s \<Longrightarrow> on_track base acc a t"
  by (auto simp: untouched_def on_track_def numbered_right_append accepted_count_append list_all_iff
      split: option.splits)

lemma untouched_in_hand: "untouched a s t \<Longrightarrow> in_hand base acc a n s \<Longrightarrow> in_hand base acc a n t"
  by (auto simp: untouched_def in_hand_def numbered_right_append accepted_count_append)

lemma rel_untouched_keeps: "rel_py (untouched a) m \<Longrightarrow> keeps (on_track base acc a) m"
  by (erule rel_py_mono) (blast intro: untouched_on_track)

lemma ask_untouched: "\<not> uses_nonce_of a ev \<Longrightarrow> rel_py (untouched a) (ask ev oracle)"
  by (auto simp: rel_py_def ask_cases Let_def untouched_def split: sum.split)

lemma emit_untouched: "\<not> uses_nonce_of a ev \<Longrightarrow> rel_py (untouched a) (emit ev)"
  by (auto simp: rel_py_def py_run untouched_def)

lemma modify_untouched:
  "(\<And>s. trace (f s) = trace s) \<Longrightarrow> (\<And>s. nonces (f s) a = nonces s a) \<Longrightarrow> rel_py (untouched a) (modify f)"
  by (auto simp: rel_py_def modify_def untouched_def)

section \<open>The nonce of the next request\<close>

definition nonce_pauses :: "'m world_scheme \<Rightarrow> nat" where
  "nonce_pauses s = length (filter (\<lambda>ev. ev = nonce_pause) (trace s))"

interpretation sn_paced: paced_counter nonces store_nonce "ask_nonce E a" "emit nonce_pause"
    "\<lambda>s n. o_pending_nonce E (trace s) a = Inr n" nonce_pauses for E a
  by unfold_locales
    (auto simp: store_nonce_def ask_nonce_def rel_py_def py_run nonce_pauses_def nonce_pause_def split: sum.splits)

lemma get_nonce_paced: "get_nonce E account =
    next_nonce nonces store_nonce (ask_nonce E (ac_address account)) (emit nonce_pause) (ac_address account)"
  by (simp add: get_nonce_def nonce_pause_def)

definition no_use :: "int \<Rightarrow> 'm world_scheme \<Rightarrow> 'm world_scheme \<Rightarrow> bool" where
  "no_use a s t \<longleftrightarrow> (\<exists>evs. trace t = trace s @ evs \<and> (\<forall>ev \<in> set evs. \<not> uses_nonce_of a ev))"

interpretation no_use: step_relation "no_use a" for a
  by unfold_locales (auto simp: no_use_def)

lemma get_nonce_no_use: "rel_py (no_use a) (get_nonce E account)"
  unfolding get_nonce_def
  by (rule no_use.next_nonce_rel)
    (auto simp: rel_py_def ask_nonce_def store_nonce_def py_run no_use_def uses_nonce_of_def split: sum.split)

lemma get_nonce_in_hand:
  assumes run: "get_nonce E account s = Ret n t" and a: "ac_address account = a"
    and net: "lagging_network E base acc a" and s: "on_track base acc a s"
  shows "in_hand base acc a n t"
proof -
  note nn = sn_paced.next_nonce_Ret [OF run [unfolded get_nonce_paced a]]
  obtain evs where evs: "trace t = trace s @ evs" and free: "\<forall>ev \<in> set evs. \<not> uses_nonce_of a ev"
    using rel_pyD_Ret [OF get_nonce_no_use [where a = a] run] unfolding no_use_def by blast
  have count: "accepted_count acc a (trace t) = accepted_count acc a (trace s)"
    unfolding evs by (rule accepted_count_append [OF free])
  have le: "n \<le> base + int (accepted_count acc a (trace t))"
    using net nn(2) unfolding lagging_network_def by blast
  have exact: "n = base + int (accepted_count acc a (trace t))" if "settled_for a (trace t)"
    using net nn(2) that unfolding lagging_network_def by blast
  have "n = base + int (accepted_count acc a (trace t))"
  proof (cases "nonces s a")
    case None
    with s have "list_all (\<lambda>ev. \<not> uses_nonce_of a ev) (trace s)" by (simp add: on_track_def)
    with free show ?thesis by (intro exact) (auto simp: settled_for_def evs list_all_iff)
  next
    case (Some c)
    with s have c: "base + int (accepted_count acc a (trace s)) \<le> c" by (simp add: on_track_def)
    from sn_paced.next_nonce_expected [OF run [unfolded get_nonce_paced a] Some]
    show ?thesis
    proof
      assume "n = c"
      with c le count show ?thesis by simp
    next
      assume "nonce_pauses t = nonce_pauses s + 10"
      then have "10 \<le> pauses_since a (trace t)"
        using pauses_since_append [OF free, of "trace s"] by (simp add: nonce_pauses_def evs)
      then show ?thesis by (intro exact) (simp add: settled_for_def)
    qed
  qed
  moreover have "numbered_right base acc a (trace t)"
    using s unfolding evs numbered_right_append [OF free] by (simp add: on_track_def)
  ultimately show ?thesis using nn(1) by (simp add: in_hand_def)
qed

lemma get_nonce_Exc_on_track:
  assumes run: "get_nonce E account s = Exc e t" and a: "ac_address account = a"
    and net: "lagging_network E base acc a" and s: "on_track base acc a s"
  shows "on_track base acc a t"
proof -
  obtain evs where evs: "trace t = trace s @ evs" and free: "\<forall>ev \<in> set evs. \<not> uses_nonce_of a ev"
    using rel_pyD_Exc [OF get_nonce_no_use [where a = a] run] unfolding no_use_def by blast
  have "case nonces t a of None \<Rightarrow> list_all (\<lambda>ev. \<not> uses_nonce_of a ev) (trace t)
      | Some c \<Rightarrow> base + int (accepted_count acc a (trace t)) \<le> c"
    using sn_paced.next_nonce_Exc [OF run [unfolded get_nonce_paced a]]
  proof
    assume "nonces t = nonces s"
    with s free show ?thesis
      by (auto simp: on_track_def evs accepted_count_append list_all_iff split: option.splits)
  next
    assume "nonces s a = None \<and> (\<exists>n u. ask_nonce E a s = Ret n u \<and> nonces t = (nonces s)(a \<mapsto> n))"
    then obtain n u where none: "nonces s a = None" and ask: "ask_nonce E a s = Ret n u"
      and t: "nonces t = (nonces s)(a \<mapsto> n)" by blast
    from none s have old: "list_all (\<lambda>ev. \<not> uses_nonce_of a ev) (trace s)" by (simp add: on_track_def)
    then have "settled_for a (trace s @ [PendingNonce a])"
      by (simp add: settled_for_def uses_nonce_of_def)
    then have "n = base + int (accepted_count acc a (trace s @ [PendingNonce a]))"
      using net ask unfolding lagging_network_def ask_nonce_def ask_Ret by blast
    then have "n = base + int (accepted_count acc a (trace s))"
      by (simp add: accepted_count_snoc uses_nonce_of_def)
    with t free show ?thesis by (simp add: evs accepted_count_append)
  qed
  with s free show ?thesis by (simp add: on_track_def evs numbered_right_append)
qed

lemma get_nonce_other:
  assumes "ac_address account \<noteq> a"
  shows "rel_py (untouched a) (get_nonce E account)"
proof (rule rel_pyI)
  fix s :: "'m world_scheme" and n t
  assume run: "get_nonce E account s = Ret n t"
  have "no_use a s t" by (rule rel_pyD_Ret [OF get_nonce_no_use run])
  with sn_paced.next_nonce_Ret(1) [OF run [unfolded get_nonce_paced]] assms
  show "untouched a s t" by (simp add: untouched_def no_use_def)
next
  fix s :: "'m world_scheme" and e t
  assume run: "get_nonce E account s = Exc e t"
  have "no_use a s t" by (rule rel_pyD_Exc [OF get_nonce_no_use run])
  with sn_paced.next_nonce_Exc [OF run [unfolded get_nonce_paced]] assms
  show "untouched a s t" by (auto simp: untouched_def no_use_def)
qed

section \<open>Submitting and waiting\<close>

text \<open>A request was sent with the right nonce: should it be rejected, the nonce can be given back.\<close>

definition releasable :: "env \<Rightarrow> int \<Rightarrow> (event list \<Rightarrow> bool) \<Rightarrow> int \<Rightarrow> int \<Rightarrow> 'm world_scheme \<Rightarrow> bool" where
  "releasable E base acc a tx_hash s \<longleftrightarrow> on_track base acc a s \<and>
     (\<forall>h e. o_wait_for_tx E h tx_hash = Inl e \<longrightarrow> is_rejected e \<longrightarrow>
        (\<exists>c. nonces s a = Some c \<and> base + int (accepted_count acc a (trace s)) \<le> c - 1))"

lemma numbered_right_snoc:
  assumes "numbered_right base acc a h"
    and "nonce_use ev = Some (a, base + int (accepted_count acc a h))"
  shows "numbered_right base acc a (h @ [ev])"
  unfolding numbered_right_def
proof (intro allI impI)
  fix i n assume i: "i < length (h @ [ev])" and n: "nonce_use ((h @ [ev]) ! i) = Some (a, n)"
  show "n = base + int (accepted_count acc a (take i (h @ [ev])))"
  proof (cases "i < length h")
    case True
    with n assms(1) show ?thesis by (simp add: numbered_right_def nth_append)
  next
    case False
    with i have "i = length h" by simp
    with n assms(2) show ?thesis by simp
  qed
qed

lemma submitted_on_track:
  assumes "in_hand base acc a n s" and "nonce_use ev = Some (a, n)"
  shows "on_track base acc a (s\<lparr>trace := trace s @ [ev]\<rparr>)"
proof -
  have "numbered_right base acc a (trace s @ [ev])"
    using assms by (intro numbered_right_snoc) (simp_all add: in_hand_def)
  with assms(1) show ?thesis by (simp add: in_hand_def on_track_def accepted_count_snoc)
qed

lemma submit_releasable:
  assumes "nonce_use ev = Some (a, n)"
    and "\<And>h x h' e. oracle (h @ [ev]) = Inr x \<Longrightarrow> o_wait_for_tx E h' (hash_of x) = Inl e \<Longrightarrow>
      is_rejected e \<Longrightarrow> \<not> acc (h @ [ev])"
  shows "triple (in_hand base acc a n) (ask ev oracle)
    (\<lambda>x. releasable E base acc a (hash_of x)) (on_track base acc a)"
proof -
  have "releasable E base acc a (hash_of x) (s\<lparr>trace := trace s @ [ev]\<rparr>)"
    if I: "in_hand base acc a n s" and x: "oracle (trace s @ [ev]) = Inr x" for s :: "'m world_scheme" and x
  proof -
    have "base + int (accepted_count acc a (trace s @ [ev])) \<le> n + 1 - 1"
      if "o_wait_for_tx E h (hash_of x) = Inl e" and "is_rejected e" for h e
      using assms(2) [OF x that] I by (simp add: accepted_count_snoc in_hand_def)
    with I submitted_on_track [OF I assms(1)] show ?thesis
      by (auto simp: releasable_def in_hand_def)
  qed
  then show ?thesis
    by (auto simp: triple_def ask_cases Let_def intro: submitted_on_track [OF _ assms(1)] split: sum.split)
qed

lemma wait_eq:
  "wait_for_transaction E tx_hash (Some account) s =
     (case num_truediv (nw_max_wait (network E)) (nw_check_interval (network E)) of
        Inl _ \<Rightarrow> Ret StatusFailed s
      | Inr q \<Rightarrow>
          let t = s\<lparr>trace := trace s @ [WaitForTx tx_hash (int_of_num q)]\<rparr>
          in case o_wait_for_tx E (trace t) tx_hash of
               Inr _ \<Rightarrow> Ret StatusOk t
             | Inl e \<Rightarrow>
                 if is_rejected e
                 then (case nonces s (ac_address account) of
                         None \<Rightarrow> Exc KeyError t
                       | Some n \<Rightarrow> Ret StatusFailed (store_nonce (ac_address account) (n - 1) t))
                 else Ret StatusFailed t)"
  by (auto simp: wait_for_transaction_def release_nonce_def py_run Let_def split: sum.splits option.splits
      dest: truediv_Inl)

lemma wait_on_track:
  "triple (releasable E base acc (ac_address account) tx_hash) (wait_for_transaction E tx_hash (Some account))
     (\<lambda>_. on_track base acc (ac_address account)) (on_track base acc (ac_address account))"
proof -
  let ?a = "ac_address account"
  have asked: "on_track base acc ?a (s\<lparr>trace := trace s @ [WaitForTx tx_hash k]\<rparr>)"
    if "on_track base acc ?a s" for s :: "'m world_scheme" and k
    using untouched_on_track [of ?a s "s\<lparr>trace := trace s @ [WaitForTx tx_hash k]\<rparr>"] that
    by (simp add: untouched_def uses_nonce_of_def)
  have released: "on_track base acc ?a (store_nonce ?a (c - 1) (s\<lparr>trace := trace s @ [WaitForTx tx_hash k]\<rparr>))"
    if "on_track base acc ?a s" and "base + int (accepted_count acc ?a (trace s)) \<le> c - 1"
    for s :: "'m world_scheme" and k c
    using asked [OF that(1), of k] that(2)
    by (simp add: on_track_def accepted_count_snoc uses_nonce_of_def store_nonce_def)
  show ?thesis
    unfolding triple_def releasable_def wait_eq
    by (auto simp: Let_def intro: asked released split: sum.split option.split)
qed

lemma wait_untouched:
  "map_option ac_address account \<noteq> Some a \<Longrightarrow> rel_py (untouched a) (wait_for_transaction E tx_hash account)"
  unfolding wait_for_transaction_def release_nonce_def
  by (auto intro!: untouched.rules untouched.lookups ask_untouched modify_untouched simp: store_nonce_def uses_nonce_of_def
      split: option.split)

lemma multisig_poll_untouched:
  assumes "multisig_poll E b tid content s = Some (r, t)"
  shows "untouched a s t"
proof (rule multisig_poll.raw_induct [where P = "\<lambda>E b tid content s (r, t). untouched a s t",
      OF _ assms, unfolded prod.case], goal_cases)
  case (1 poll E b tid content s rt)
  let ?u = "s\<lparr>trace := trace s @ [Sleep (PInt 5), MultisigGet b]\<rparr>"
  have u: "untouched a s ?u" by (simp add: untouched_def uses_nonce_of_def)
  show ?case
  proof (cases "ms_terminal (ms_state content)")
    case True
    with 1(2) show ?thesis by (auto intro: untouched.R_refl)
  next
    case False
    show ?thesis
    proof (cases "\<exists>all c cs. o_multisig_get E (trace ?u) b = Inr all \<and> filter (\<lambda>c. ms_id c = tid) all = c # cs")
      case True
      then obtain c where "poll E b tid c ?u = Some rt" using 1(2) False by (auto simp: ms_fetch_def Let_def)
      from 1(1) [OF this] u show ?thesis by (auto intro: untouched.R_trans)
    next
      case other: False
      with 1(2) False u show ?thesis
        by (auto simp: ms_fetch_def Let_def neq_Nil_conv split: sum.splits list.splits)
    qed
  qed
qed

lemma execute_multisig_untouched: "rel_py (untouched a) (execute_multisig E account calls tx)"
proof -
  have "rel_py (untouched a) (multisig_wait E b content)" for b content
    unfolding rel_py_def multisig_wait_def
    by (auto split: option.splits sum.splits dest!: multisig_poll_untouched)
  then show ?thesis
    unfolding execute_multisig_def multisig_post_def Let_def
    by (intro untouched.rules untouched.lookups ask_untouched emit_untouched) (simp_all add: uses_nonce_of_def)
qed

section \<open>Executing on a network that is late\<close>

lemma keeps_nonce_then:
  assumes "lagging_network E base acc (ac_address account)"
    and "\<And>n. triple (in_hand base acc (ac_address account) n) (f n)
      (\<lambda>_. on_track base acc (ac_address account)) (on_track base acc (ac_address account))"
  shows "keeps (on_track base acc (ac_address account)) (bnd (get_nonce E account) f)"
proof -
  let ?I = "on_track base acc (ac_address account)"
  have "triple ?I (get_nonce E account) (in_hand base acc (ac_address account)) ?I"
    unfolding triple_def
    by (auto intro: get_nonce_in_hand [OF _ refl assms(1)] get_nonce_Exc_on_track [OF _ refl assms(1)]
        split: outcome.split)
  then have "triple ?I (bnd (get_nonce E account) f) (\<lambda>_. ?I) ?I" by (rule triple_bnd) (rule assms(2))
  then show ?thesis by (simp add: triple_keeps)
qed

lemma triple_on_track:
  assumes "keeps (on_track base acc a) m"
  shows "triple (in_hand base acc a n) m (\<lambda>_. on_track base acc a) (on_track base acc a)"
  by (rule triple_weaken [OF iffD2 [OF triple_keeps assms]]) (auto intro: in_hand_on_track)

lemma invoke_releasable:
  assumes "lagging_network E base acc (tx_sender tx)"
  shows "triple (in_hand base acc (tx_sender tx) (tx_nonce tx)) (ask (AddInvoke tx) (\<lambda>h. o_add_invoke E h tx))
    (\<lambda>x. releasable E base acc (tx_sender tx) x) (on_track base acc (tx_sender tx))"
proof -
  have "\<not> acc (h @ [AddInvoke tx])"
    if "o_add_invoke E (h @ [AddInvoke tx]) tx = Inr x" and "o_wait_for_tx E h' x = Inl e" and "is_rejected e"
    for h x h' e
    using assms that unfolding lagging_network_def by blast
  then show ?thesis by (intro submit_releasable [where hash_of = "\<lambda>x. x"]) auto
qed

lemma execute_v1_wrapped_on_track:
  assumes "lagging_network E base acc a"
  shows "keeps (on_track base acc a) (execute_v1_wrapped E account calls)"
proof (cases "ac_address account = a")
  case a: True
  let ?send = "\<lambda>tx. bnd (gets (\<lambda>s. multisig_accounts s a)) (\<lambda>multisig.
     if multisig then execute_multisig E account calls tx
     else bnd (ask (AddInvoke tx) (\<lambda>h. o_add_invoke E h tx)) (\<lambda>tx_hash.
          bnd (wait_for_transaction E tx_hash (Some account)) (\<lambda>_. ret (SentTx tx_hash))))"
  have send: "triple (in_hand base acc a n) (?send tx) (\<lambda>_. on_track base acc a) (on_track base acc a)"
    if tx: "tx_sender tx = a" "tx_nonce tx = n" for tx n
  proof -
    have "triple (in_hand base acc a n) (ask (AddInvoke tx) (\<lambda>h. o_add_invoke E h tx))
        (\<lambda>x. releasable E base acc a x) (on_track base acc a)"
      using invoke_releasable [of E base acc tx] assms tx by simp
    moreover have "triple (releasable E base acc a h) (bnd (wait_for_transaction E h (Some account)) (\<lambda>_. ret (SentTx h)))
        (\<lambda>_. on_track base acc a) (on_track base acc a)" for h
      using wait_on_track [of E base acc account h] a by (auto intro!: triple_bnd triple_ret)
    ultimately have "triple (in_hand base acc a n) (bnd (ask (AddInvoke tx) (\<lambda>h. o_add_invoke E h tx)) (\<lambda>tx_hash.
          bnd (wait_for_transaction E tx_hash (Some account)) (\<lambda>_. ret (SentTx tx_hash))))
        (\<lambda>_. on_track base acc a) (on_track base acc a)" by (rule triple_bnd)
    moreover have "triple (in_hand base acc a n) (execute_multisig E account calls tx)
        (\<lambda>_. on_track base acc a) (on_track base acc a)"
      by (intro triple_on_track rel_untouched_keeps execute_multisig_untouched)
    ultimately show ?thesis by (auto simp: triple_def bnd_def gets_def)
  qed
  show ?thesis
    unfolding execute_v1_wrapped_def Let_def a
    by (intro invariant_step.bnd_rule rel_untouched_keeps [OF ask_untouched]
        keeps_nonce_then [of E base acc account, unfolded a, OF assms] send)
      (simp_all add: uses_nonce_of_def)
next
  case False
  have "rel_py (untouched a) (execute_v1_wrapped E account calls)"
    unfolding execute_v1_wrapped_def Let_def
    using False
    by (auto intro!: untouched.rules ask_untouched get_nonce_other execute_multisig_untouched wait_untouched
        simp: uses_nonce_of_def)
  then show ?thesis by (rule rel_untouched_keeps)
qed

lemma same_trace_on_track:
  "trace t = trace s \<Longrightarrow> nonces t = nonces s \<Longrightarrow> on_track base acc a s \<Longrightarrow> on_track base acc a t"
  unfolding on_track_def by (auto split: option.splits)

lemma logs_update_on_track: "keeps (on_track base acc a) (modify (\<lambda>s. s\<lparr>logs := f s\<rparr>))"
  by (auto simp: rel_py_def modify_def intro: same_trace_on_track)

text \<open>C2. The nonces are right on a network that is late.  The pending nonce a node reports may stay
  behind the transactions it accepted, and a transaction may be refused or rejected; as long as the
  node is never ahead, and exact before the first transaction and after ten pauses, every request of
  an account carries the number of its requests accepted so far: no gap, no reuse, and the nonce
  of a rejected transaction is used again.  Executing, lazily or not, through a multisig or not, and
  flushing keep it so, whatever exceptions occur on the way.\<close>

theorem nonces_on_late_network:
  assumes "lagging_network E base acc a"
  shows "keeps (on_track base acc a) (execute_v1 E account calls) \<and>
    keeps (on_track base acc a) (execute_calls E)"
proof
  show "keeps (on_track base acc a) (execute_v1 E account calls)"
    unfolding execute_v1_def
    by (intro invariant_step.rules logs_update_on_track execute_v1_wrapped_on_track assms)
  show "keeps (on_track base acc a) (execute_calls E)"
    unfolding execute_calls_def
    by (intro invariant_step.bnd_rule invariant_step.pure invariant_step.seq_rule
        invariant_step.for_each_rule logs_update_on_track)
      (auto intro!: invariant_step.rules execute_v1_wrapped_on_track assms split: prod.split)
qed

text \<open>A node that rejects the first transaction it is sent, and that needs three pauses to count
  one it accepted.\<close>

definition slow_acc :: "event list \<Rightarrow> bool" where
  "slow_acc h \<longleftrightarrow> length (sent_txs h) \<noteq> 1"

definition slow_env :: env where
  "slow_env = dev_env\<lparr>
     o_pending_nonce := (\<lambda>h a. Inr (let n = int (accepted_count slow_acc a h)
        in if list_all (\<lambda>ev. \<not> uses_nonce_of a ev) h \<or> 3 \<le> pauses_since a h then n else max 0 (n - 1))),
     o_wait_for_tx := (\<lambda>h x. if x = 101 then Inl (TransactionRejectedError ''rejected'') else Inr ())\<rparr>"

lemma slow_env_sel [simp]:
  "network slow_env = dev_network" "o_add_invoke slow_env = o_add_invoke dev_env"
  "o_cairo_version slow_env = o_cairo_version dev_env" "o_declare slow_env = o_declare dev_env"
  "o_wait_for_tx slow_env = (\<lambda>h x. if x = 101 then Inl (TransactionRejectedError ''rejected'') else Inr ())"
  "o_pending_nonce slow_env = (\<lambda>h a. Inr (let n = int (accepted_count slow_acc a h)
        in if list_all (\<lambda>ev. \<not> uses_nonce_of a ev) h \<or> 3 \<le> pauses_since a h then n else max 0 (n - 1)))"
  by (simp_all add: slow_env_def)

lemma slow_lags: "lagging_network slow_env 0 slow_acc a"
  unfolding lagging_network_def
  by (auto simp: settled_for_def Let_def slow_acc_def split: if_splits)

lemma slow_run:
  "\<exists>t. invoke_all slow_env (replicate 3 (dev_account 9, [])) dev_world = Ret () t \<and>
     map tx_nonce (sent_txs (trace t)) = [0, 0, 1] \<and> nonce_pauses t = 3"
  by (simp add: invoke_all_def execute_v1_def execute_v1_wrapped_def get_nonce_paced next_nonce_def
      ask_nonce_def store_nonce_def wait_for_transaction_def release_nonce_def py_run Let_def eval_nat_numeral
      accepted_count_def pauses_since_def uses_nonce_of_def nonce_pause_def slow_acc_def nonce_pauses_def)


lemma nonces_on_late_network_witness:
  "on_track 0 slow_acc 9 dev_world \<and>
   keeps (on_track 0 slow_acc 9) (execute_v1 slow_env (dev_account 9) [] :: (world, response) py) \<and>
   (\<exists>t. invoke_all slow_env (replicate 3 (dev_account 9, [])) dev_world = Ret () t \<and>
     map tx_nonce (sent_txs (trace t)) = [0, 0, 1] \<and> nonce_pauses t = 3 \<and> on_track 0 slow_acc 9 t)"
proof -
  have start: "on_track 0 slow_acc 9 dev_world" by (simp add: on_track_def numbered_right_def)
  note keep = conjunct1 [OF nonces_on_late_network [OF slow_lags, of 9, where account = "dev_account 9" and calls = "[]"]]
  have "keeps (on_track 0 slow_acc 9) (invoke_all slow_env (replicate 3 (dev_account 9, [])) :: (world, unit) py)"
    unfolding invoke_all_def by (intro invariant_step.for_each_rule) (auto intro!: invariant_step.rules keep)
  then have after: "on_track 0 slow_acc 9 t" if "invoke_all slow_env (replicate 3 (dev_account 9, [])) dev_world = Ret () t" for t
    using start that by (auto dest: rel_pyD_Ret)
  from slow_run obtain t where run: "invoke_all slow_env (replicate 3 (dev_account 9, [])) dev_world = Ret () t"
    and "map tx_nonce (sent_txs (trace t)) = [0, 0, 1] \<and> nonce_pauses t = 3" by (elim exE conjE) simp
  with start keep after [OF run] show ?thesis by (intro conjI exI [of _ t]) simp_all
qed

end
