(* ===== verification/ClientFrame.thy ===== *)
theory ClientFrame
  imports KakarotLink Numbering
begin

text \<open>
  What the client does to the state.  Everything it does to the history, the nonce dictionary and the cache
  of libraries is asking questions, executing calls and remembering a library that was not known, so a
  relation between states that allows these steps relates the state found to the state left, for every
  operation.  The locale proves it once for all such relations.
\<close>

named_theorems kept_ops \<open>operations that stay within the relation\<close>

locale client_relation = step_relation R
  for R :: "'m kk_world_scheme \<Rightarrow> 'm kk_world_scheme \<Rightarrow> bool" +
  fixes E :: env
  assumes question_kept: "nonce_use ev = None \<Longrightarrow> R s (s\<lparr>trace := trace s @ [ev]\<rparr>)"
    and rest_free: "trace t = trace s \<Longrightarrow> nonces t = nonces s \<Longrightarrow> library_cache t = library_cache s \<Longrightarrow> R s t"
    and library_kept: "R s t \<Longrightarrow> library_cache s key = None \<Longrightarrow>
      R s (t\<lparr>library_cache := (library_cache t)(key \<mapsto> a)\<rparr>)"
    and execution_kept: "rel_py R (execute_v1_wrapped E account calls)"
begin

lemma asks [kept_ops]: "nonce_use ev = None \<Longrightarrow> rel_py R (ask ev oracle)"
  by (auto simp: rel_py_def ask_cases Let_def question_kept split: sum.split)

lemma emits [kept_ops]: "nonce_use ev = None \<Longrightarrow> rel_py R (emit ev)"
  by (auto simp: rel_py_def py_run question_kept)

lemma modifies:
  "(\<And>s. trace (f s) = trace s) \<Longrightarrow> (\<And>s. nonces (f s) = nonces s) \<Longrightarrow> (\<And>s. library_cache (f s) = library_cache s) \<Longrightarrow>
     rel_py R (modify f)"
  by (auto simp: rel_py_def modify_def intro: rest_free)

lemma reads [kept_ops]: "rel_py R (lookup_key d k)" "rel_py R (get_option e x)"
  by (rule lookups)+

lemma pieces [kept_ops]:
  "rel_py R (get_selector_from_name E f)" "rel_py R get_deployments"
  "rel_py R get_declarations" "rel_py R (dump_deployments ds)"
  "rel_py R (felt_output r)" "rel_py R (new_account E a k)"
  "rel_py R (register_multisig_account a)" "rel_py R (py_assert b)"
  "rel_py R (register_lazy_account a)" "rel_py R (remove_lazy_account a)" "rel_py R (set_lazy a b)"
  "rel_py R (kk_dump_deployments E kds)" "rel_py R kk_get_deployments"
  "rel_py R (set_should_deploy name b)" "rel_py R (pre_tx_of K name)"
  unfolding get_selector_from_name_def Let_def get_deployments_def get_declarations_def dump_deployments_def
    felt_output_def new_account_def register_multisig_account_def py_assert_def register_lazy_account_def
    remove_lazy_account_def set_lazy_def kk_dump_deployments_def kk_get_deployments_def
    set_should_deploy_def pre_tx_of_def
  by (auto intro!: rules kept_ops modifies split: option.split list.split arg.split)

lemma updates [kept_ops]:
  "rel_py R (modify (\<lambda>s. s\<lparr>contract_cache := f1 s\<rparr>))" "rel_py R (modify (\<lambda>s. s\<lparr>next_ref := f2 s\<rparr>))"
  "rel_py R (modify (\<lambda>s. s\<lparr>relayer_pool := f3 s\<rparr>))" "rel_py R (modify (\<lambda>s. s\<lparr>logs := f4 s\<rparr>))"
  "rel_py R (modify (\<lambda>s. s\<lparr>account_cache := f5 s\<rparr>))"
  "rel_py R (modify (\<lambda>s. s\<lparr>evm_nonces := g1 s\<rparr>))" "rel_py R (modify (store_evm_nonce k n))"
  by (auto intro!: modifies simp: store_evm_nonce_def)

section \<open>Accounts, contracts and the relayer pool\<close>

lemma execute_kept [kept_ops]: "rel_py R (execute_v1 E account calls)" "rel_py R (execute_calls E)"
proof -
  show "rel_py R (execute_v1 E account calls)"
    unfolding execute_v1_def by (auto intro!: rules kept_ops execution_kept)
  show "rel_py R (execute_calls E)"
    unfolding execute_calls_def
    by (auto intro!: rules kept_ops execution_kept split: prod.split)
qed

lemma wait_kept [kept_ops]: "rel_py R (wait_for_transaction E h None)"
  unfolding wait_for_transaction_def by (auto intro!: rules kept_ops)

lemma probe_kept [kept_ops]: "rel_py R (probe_signers E a sels)"
  by (induction sels) (auto intro!: rules kept_ops)

lemma contract_kept [kept_ops]:
  "rel_py R (get_contract E name a p)" "rel_py R (abi_call E c f args)" "rel_py R (balance_of E c b)"
  unfolding get_contract_def abi_call_def balance_of_def Let_def
  by (auto intro!: rules kept_ops split: option.split)

lemma account_kept [kept_ops]:
  "rel_py R (get_starknet_account E a k)" "rel_py R (main_account E)" "rel_py R (get_eth_contract E p)"
  "rel_py R (get_balance E b c)" "rel_py R (call_fn E t f args d)" "rel_py R (call_contract E n f args d)"
proof -
  show account: "rel_py R (get_starknet_account E a k)" for a k
    unfolding get_starknet_account_def build_starknet_account_def check_signers_def
    by (auto intro!: rules kept_ops split: option.split)
  show main: "rel_py R (main_account E)" unfolding main_account_def by (rule account)
  show eth: "rel_py R (get_eth_contract E p)" for p
    unfolding get_eth_contract_def by (auto intro!: rules kept_ops account main split: option.split)
  show "rel_py R (get_balance E b c)"
    unfolding get_balance_def by (auto intro!: rules kept_ops eth split: option.split)
  show "rel_py R (call_fn E t f args d)"
    unfolding call_fn_def call_address_def call_contract_def
    by (cases t) (auto intro!: rules kept_ops main)
  show "rel_py R (call_contract E n f args d)"
    unfolding call_contract_def by (auto intro!: rules kept_ops)
qed

lemma invoke_kept [kept_ops]: "rel_py R (invoke E c f args a acc)" "rel_py R (fund_address E b amount acc d)"
  unfolding invoke_def fund_address_def Let_def
  by (auto intro!: rules kept_ops split: option.split target.split)

lemma relayer_parts_kept [kept_ops]:
  "rel_py R (fund_relayers E as amount)" "rel_py R (account_class_hash E c)" "rel_py R (ask_class_hash_at E x)"
  "rel_py R (get_class_hash_at E x)" "rel_py R (ask_deploy_account E x y n cd)"
  "rel_py R (approve_main E d x)" "rel_py R (compute_addresses E m)"
proof -
  show "rel_py R (fund_relayers E as amount)"
    by (induction "as" arbitrary: amount) (auto intro!: rules kept_ops split: option.split)
qed (auto intro!: rules kept_ops split: option.split
    simp: account_class_hash_def ask_class_hash_at_def get_class_hash_at_def ask_deploy_account_def
      approve_main_def compute_addresses_def Let_def)

lemma deploy_starknet_account_kept [kept_ops]: "rel_py R (deploy_starknet_account E c k amount salt)"
  unfolding deploy_starknet_account_def Let_def
  by (auto intro!: rules kept_ops split: prod.split)

lemma pool_kept [kept_ops]: "rel_py R (create_pool E n amount)" "rel_py R (get_relayer E salt)"
proof -
  show pool: "rel_py R (create_pool E n amount)" for n amount
    unfolding create_pool_def Let_def by (auto intro!: rules kept_ops)
  show "rel_py R (get_relayer E salt)"
    unfolding get_relayer_def default_pool_def
    by (auto intro!: rules kept_ops pool split: option.split)
qed

section \<open>The client of Kakarot\<close>

lemma addresses_kept [kept_ops]:
  "rel_py R (get_starknet_address E a)" "rel_py R (eth_balance_of E a)" "rel_py R (kk_fund_address E a amount)"
  "rel_py R (contract_exists E x)" "rel_py R (eth_get_transaction_count E K x)" "rel_py R (eth_get_code E y)"
  "rel_py R (eth_chain_id E)"
  unfolding get_starknet_address_def eth_balance_of_def kk_fund_address_def contract_exists_def
    eth_get_transaction_count_def eth_get_code_def eth_chain_id_def Let_def
  by (auto intro!: rules kept_ops split: option.split list.split arg.split)

lemma evm_nonce_kept [kept_ops]: "rel_py R (get_evm_nonce E K account)"
proof -
  have "rel_py R (ask_evm_nonce E K account)"
    unfolding ask_evm_nonce_def by (auto intro!: rules kept_ops)
  then show ?thesis
    unfolding get_evm_nonce_def by (rule next_nonce_rel) (auto intro!: kept_ops)
qed

lemma receipt_kept [kept_ops]: "rel_py R (poll_receipt E h ci n)" "rel_py R (settle_receipt E account rc)"
proof -
  show "rel_py R (poll_receipt E h ci n)"
    by (induction n) (auto intro!: rules kept_ops simp: ask_receipt_def split: option.split)
  show "rel_py R (settle_receipt E account rc)"
    unfolding settle_receipt_def release_evm_nonce_def
    by (auto intro!: rules kept_ops split: list.split)
qed

lemma send_kept [kept_ops]:
  "rel_py R (deploy_and_fund_evm_address E x amount)" "rel_py R (get_eoa E K k y)"
  "rel_py R (send_starknet_transaction E account r s v packed)"
  "rel_py R (eth_send_transaction E K to data gas wei caller gas_price)"
proof -
  show fund: "rel_py R (deploy_and_fund_evm_address E x amount)" for x amount
    unfolding deploy_and_fund_evm_address_def by (auto intro!: rules kept_ops)
  show eoa: "rel_py R (get_eoa E K k y)" for k y
    unfolding get_eoa_def Let_def by (auto intro!: rules kept_ops fund)
  show send: "rel_py R (send_starknet_transaction E account r s v packed)" for account r s v packed
    unfolding send_starknet_transaction_def by (auto intro!: rules kept_ops split: prod.split)
  show "rel_py R (eth_send_transaction E K to data gas wei caller gas_price)"
    unfolding eth_send_transaction_def Let_def
    by (auto intro!: rules kept_ops eoa send split: option.split prod.split)
qed

lemma link_kept [kept_ops]:
  "(\<And>key. rel_py R (library key)) \<Longrightarrow> rel_py R (link_code library code links)"
  by (induction library code links rule: link_code.induct) (auto intro!: rules kept_ops)

lemma library_kept_by:
  assumes "\<And>lapp lname. rel_py R (deploy_library lapp lname)"
  shows "rel_py R (get_or_deploy_library E' deploy_library key)"
proof (rule rel_pyI)
  fix s x t
  assume "get_or_deploy_library E' deploy_library key s = Ret x t"
  then show "R s t"
    using rel_pyD_Ret [OF assms] unfolding get_or_deploy_library_def
    by (auto simp: py_run R_refl intro: library_kept split: option.splits outcome.splits)
next
  fix s e t
  assume "get_or_deploy_library E' deploy_library key s = Exc e t"
  then show "R s t"
    using rel_pyD_Exc [OF assms] unfolding get_or_deploy_library_def
    by (auto simp: py_run split: option.splits outcome.splits)
qed

lemma solidity_contract_kept:
  assumes "\<And>lapp lname. rel_py R (deploy_library lapp lname)"
  shows "rel_py R (solidity_contract E K deploy_library app name address caller)"
  unfolding solidity_contract_def link_libraries_def
  by (auto intro!: rules kept_ops library_kept_by assms)

lemma deployed_at_kept [kept_ops]: "rel_py R (deployed_at E runtime receipt)"
proof -
  have events: "rel_py R (deployed_events E rc)" for rc
    unfolding deployed_events_def by (intro rules kept_ops)
  have locate: "rel_py R (locate_deployed E runtime evs)" for evs
  proof -
    have "rel_py R (case found of [] \<Rightarrow> raise e | (ev, code) # rest \<Rightarrow>
        (case rest of [] \<Rightarrow> lift_sum (event_addresses ev) | _ \<Rightarrow> raise e))" for e and found :: "(sn_event \<times> byte list) list"
      by (auto intro!: rules split: list.split)
    then show ?thesis
      unfolding locate_deployed_def by (auto intro!: rules kept_ops split: list.split)
  qed
  show ?thesis
    unfolding deployed_at_def
    by (cases receipt) (auto intro!: bnd_rule kept_ops pure events locate)
qed

lemma deploy_contract_kept [kept_ops]: "rel_py R (deploy_contract fuel E K app name args caller wei)"
proof (induction fuel arbitrary: app name args caller wei)
  case 0
  show ?case by (simp add: rel_py_def)
next
  case (Suc fuel)
  then show ?case by (auto intro!: rules kept_ops solidity_contract_kept)
qed

end

section \<open>The cache of libraries\<close>

text \<open>A library that was deployed once stays where it is, whatever is deployed later.\<close>

definition cache_grows :: "'m kk_world_scheme \<Rightarrow> 'm kk_world_scheme \<Rightarrow> bool" where
  "cache_grows s t \<longleftrightarrow> library_cache s \<subseteq>\<^sub>m library_cache t"

interpretation growing: step_relation cache_grows
  by unfold_locales (auto simp: cache_grows_def intro: map_le_trans)

lemma quiet_cache: "rel_py quiet m \<Longrightarrow> rel_py cache_grows m"
  by (erule rel_py_mono) (auto simp: quiet_def cache_grows_def)

lemma ask_cache: "rel_py cache_grows (ask ev oracle)"
  by (auto simp: rel_py_def ask_cases Let_def cache_grows_def split: sum.split)

interpretation cached: client_relation cache_grows E for E
proof
  fix s t :: "'m kk_world_scheme" and key and a :: int
  assume "cache_grows s t" and "library_cache s key = None"
  then show "cache_grows s (t\<lparr>library_cache := (library_cache t)(key \<mapsto> a)\<rparr>)"
    by (auto simp: cache_grows_def map_le_def)
next
  fix account calls
  show "rel_py cache_grows (execute_v1_wrapped E account calls)"
    unfolding execute_v1_wrapped_def Let_def
    by (intro growing.rules ask_cache quiet_cache [OF get_nonce_quiet] quiet_cache [OF execute_multisig_quiet]
        quiet_cache [OF wait_for_transaction_quiet])
qed (simp_all add: cache_grows_def)

end
