(* ===== verification/Linking.thy ===== *)
theory Linking
  imports ClientFrame
begin

text \<open>
  What linking does to the code of a contract: every library address ends up exactly where the compiler
  left the placeholder of that library, and nothing else changes.
\<close>

section \<open>Linking puts the addresses in their places\<close>

text \<open>Code with a placeholder between its segments, and the offsets of the placeholder.\<close>

fun splice :: "string \<Rightarrow> string list \<Rightarrow> string" where
  "splice p [] = []"
| "splice p [s] = s"
| "splice p (s # t # ss) = s @ p @ splice p (t # ss)"

fun offsets :: "nat \<Rightarrow> string list \<Rightarrow> nat list" where
  "offsets n [] = []"
| "offsets n [s] = []"
| "offsets n (s # t # ss) = length s # map (\<lambda>k. length s + n + k) (offsets n (t # ss))"

lemma splice_at_offset:
  "k \<in> set (offsets (length p) ss) \<Longrightarrow> take (length p) (drop k (splice p ss)) = p"
  by (induction p ss arbitrary: k rule: splice.induct) auto

lemma str_replace_skip:
  "p \<noteq> [] \<Longrightarrow> hd p \<notin> set s \<Longrightarrow> str_replace p a (s @ r) = s @ str_replace p a r"
  by (induction s) (auto simp: prefix_Cons neq_Nil_conv)

lemma str_replace_hit: "p \<noteq> [] \<Longrightarrow> str_replace p a (p @ r) = a @ str_replace p a r"
  by (cases p) auto

lemma str_replace_splice:
  "p \<noteq> [] \<Longrightarrow> \<forall>s \<in> set ss. hd p \<notin> set s \<Longrightarrow> str_replace p a (splice p ss) = splice a ss"
proof (induction p ss rule: splice.induct)
  case (2 p s)
  then show ?case using str_replace_skip [of p s a "[]"] by simp
next
  case (3 p s t ss)
  then show ?case by (simp add: str_replace_skip str_replace_hit)
qed simp

lemma str_replace_same: "a \<noteq> [] \<Longrightarrow> str_replace a a s = s"
proof (induction s rule: length_induct)
  case (1 s)
  show ?case
  proof (cases "prefix a s")
    case True
    then obtain r where s: "s = a @ r" by (auto simp: prefix_def)
    with 1 have "str_replace a a r = r" by simp
    with s 1(2) show ?thesis by (simp add: str_replace_hit)
  next
    case False
    with 1 show ?thesis by (cases s) auto
  qed
qed

lemma link_refs_linked:
  assumes "a \<noteq> []" and "\<forall>(start, len) \<in> set refs. 2 * len = length a \<and> 2 * start \<in> set (offsets (length a) ss)"
  shows "link_refs a (splice a ss) refs = splice a ss"
  using assms by (induction refs) (auto simp: splice_at_offset str_replace_same)

text \<open>Linking one library puts its address at every reference and changes nothing else: code whose
  segments are separated by the library's placeholder, with references that point at the
  placeholders, becomes the same segments separated by the address, however many references there
  are, as long as the placeholder's first character occurs in no segment and the address is as
  long as the placeholder.\<close>

theorem link_refs_spec:
  assumes "placeholder \<noteq> []" and "length address = length placeholder"
    and "\<forall>s \<in> set segments. hd placeholder \<notin> set s"
    and "refs \<noteq> []"
    and "\<forall>(start, len) \<in> set refs.
      2 * len = length placeholder \<and> 2 * start \<in> set (offsets (length placeholder) segments)"
  shows "link_refs address (splice placeholder segments) refs = splice address segments"
proof -
  obtain start len more_refs where r: "refs = (start, len) # more_refs"
    using assms(4) by (cases refs) auto
  have at: "take (2 * len) (drop (2 * start) (splice placeholder segments)) = placeholder"
    using assms(5) r splice_at_offset by auto
  have "link_refs address (splice placeholder segments) refs = link_refs address (splice address segments) more_refs"
    using r at assms(1,3) by (simp add: str_replace_splice)
  also have "\<dots> = splice address segments"
    by (rule link_refs_linked) (use assms r in auto)
  finally show ?thesis .
qed

lemma link_refs_spec_witness:
  "link_refs ''abcd'' (splice ''__$x'' [''6001'', ''52'', ''73'']) [(2, 2), (5, 2)] =
     splice ''abcd'' [''6001'', ''52'', ''73'']"
  by (rule link_refs_spec) simp_all

section \<open>Contracts with any number of libraries\<close>

text \<open>Compiled code is a sequence of hexadecimal text and holes for libraries; the compiler fills a hole with a
  placeholder of 40 characters around a hash of the library's name.\<close>

datatype 'k piece = Code string | Hole 'k

fun render :: "('k \<Rightarrow> string) \<Rightarrow> 'k piece list \<Rightarrow> string" where
  "render f [] = []"
| "render f (Code s # ps) = s @ render f ps"
| "render f (Hole k # ps) = f k @ render f ps"

fun holes :: "nat \<Rightarrow> 'k piece list \<Rightarrow> ('k \<times> nat) list" where
  "holes i [] = []"
| "holes i (Code s # ps) = holes (i + length s) ps"
| "holes i (Hole k # ps) = (k, i) # holes (i + 40) ps"

definition plain :: "string \<Rightarrow> bool" where
  "plain s \<longleftrightarrow> CHR ''_'' \<notin> set s \<and> CHR ''$'' \<notin> set s"

definition placeholder :: "string \<Rightarrow> string" where
  "placeholder h = ''__$'' @ h @ ''$__''"

definition compiled :: "('k \<Rightarrow> string) \<Rightarrow> 'k piece list \<Rightarrow> bool" where
  "compiled h ps \<longleftrightarrow> (\<forall>s. Code s \<in> set ps \<longrightarrow> plain s) \<and>
     (\<forall>k. Hole k \<in> set ps \<longrightarrow> plain (h k) \<and> length (h k) = 34) \<and> inj_on h {k. Hole k \<in> set ps}"

text \<open>A filling of the holes: some have their placeholder, the others an address.\<close>

definition filling :: "('k \<Rightarrow> string) \<Rightarrow> 'k piece list \<Rightarrow> ('k \<Rightarrow> string) \<Rightarrow> bool" where
  "filling h ps f \<longleftrightarrow>
     (\<forall>k. Hole k \<in> set ps \<longrightarrow> f k = placeholder (h k) \<or> plain (f k) \<and> length (f k) = 40)"

lemma render_cong: "(\<And>k. Hole k \<in> set ps \<Longrightarrow> f k = g k) \<Longrightarrow> render f ps = render g ps"
  by (induction f ps rule: render.induct) auto

lemma compiled_CodeD: "compiled h (Code s # ps) \<Longrightarrow> plain s \<and> compiled h ps"
  by (auto simp: compiled_def inj_on_def)

lemma compiled_HoleD: "compiled h (Hole k # ps) \<Longrightarrow> plain (h k) \<and> length (h k) = 34 \<and> compiled h ps"
  by (auto simp: compiled_def inj_on_def)

lemma compiled_inj: "compiled h ps \<Longrightarrow> Hole k \<in> set ps \<Longrightarrow> Hole k' \<in> set ps \<Longrightarrow> h k = h k' \<Longrightarrow> k = k'"
  by (auto simp: compiled_def inj_on_def)

lemma filling_simps [simp]:
  "filling h [] f" "filling h (Code s # ps) f \<longleftrightarrow> filling h ps f"
  "filling h (Hole k # ps) f \<longleftrightarrow> (f k = placeholder (h k) \<or> plain (f k) \<and> length (f k) = 40) \<and> filling h ps f"
  by (auto simp: filling_def)

lemma holes_Hole: "(k, i) \<in> set (holes j ps) \<Longrightarrow> Hole k \<in> set ps"
  by (induction j ps rule: holes.induct) auto

lemma hole_holes: "Hole k \<in> set ps \<Longrightarrow> \<exists>i. (k, i) \<in> set (holes j ps)"
  by (induction j ps rule: holes.induct) auto

lemma filling_length:
  "filling h ps f \<Longrightarrow> compiled h ps \<Longrightarrow> Hole k \<in> set ps \<Longrightarrow> length (f k) = 40"
  by (auto simp: filling_def compiled_def placeholder_def)

lemma render_at_hole:
  assumes "\<And>k. Hole k \<in> set ps \<Longrightarrow> length (f k) = 40"
  shows "(k, i) \<in> set (holes j ps) \<Longrightarrow> j \<le> i \<and> take 40 (drop (i - j) (render f ps)) = f k"
  using assms
proof (induction j ps arbitrary: i rule: holes.induct)
  case (2 j s ps)
  then have IH: "j + length s \<le> i \<and> take 40 (drop (i - (j + length s)) (render f ps)) = f k" by simp
  then have "length s \<le> i - j" "i - j - length s = i - (j + length s)" by linarith+
  with IH show ?case by simp
next
  case (3 j k' ps)
  have l: "length (f k') = 40" using 3 by simp
  show ?case
  proof (cases "(k, i) = (k', j)")
    case True
    with l show ?thesis by simp
  next
    case False
    with 3 have IH: "j + 40 \<le> i \<and> take 40 (drop (i - (j + 40)) (render f ps)) = f k" by auto
    then have "40 \<le> i - j" "i - j - 40 = i - (j + 40)" by linarith+
    with IH l show ?thesis by simp
  qed
qed simp

text \<open>No placeholder begins inside another one.\<close>

definition safe_start :: "string \<Rightarrow> bool" where
  "safe_start r \<longleftrightarrow> \<not> prefix ''$'' r \<and> \<not> prefix ''_$'' r"

lemma safe_plain: "plain s \<Longrightarrow> s \<noteq> [] \<or> safe_start r \<Longrightarrow> safe_start (s @ r)"
  by (cases s) (auto simp: safe_start_def plain_def)

lemma render_safe: "compiled h ps \<Longrightarrow> filling h ps f \<Longrightarrow> safe_start (render f ps)"
proof (induction f ps rule: render.induct)
  case (2 f s ps)
  with compiled_CodeD [OF 2(2)] show ?case by (simp add: safe_plain)
next
  case (3 f k ps)
  then consider "f k = placeholder (h k)" | "plain (f k)" "f k \<noteq> []" by fastforce
  then show ?case by cases (simp_all add: placeholder_def safe_start_def safe_plain [unfolded safe_start_def])
qed (simp add: safe_start_def)

lemma str_replace_char: "\<not> prefix p (c # r) \<Longrightarrow> p \<noteq> [] \<Longrightarrow> str_replace p a (c # r) = c # str_replace p a r"
  by simp

lemma str_replace_plain: "plain s \<Longrightarrow> str_replace (placeholder h) a (s @ r) = s @ str_replace (placeholder h) a r"
  by (rule str_replace_skip) (auto simp: placeholder_def plain_def)

lemma str_replace_other:
  assumes "h \<noteq> h'" and "length h = length h'" and "plain h'" and "safe_start r"
  shows "str_replace (placeholder h) a (placeholder h' @ r) = placeholder h' @ str_replace (placeholder h) a r"
proof -
  have no: "\<not> prefix (placeholder h) (placeholder h' @ r)"
  proof
    assume "prefix (placeholder h) (placeholder h' @ r)"
    then obtain x where "h' @ ''$__'' @ r = h @ ''$__'' @ x"
      by (auto simp: placeholder_def prefix_def)
    with assms(1,2) show False by simp
  qed
  have "\<not> prefix (placeholder h) (''__'' @ r)" "\<not> prefix (placeholder h) (''_'' @ r)"
    using assms(4) by (auto simp: placeholder_def safe_start_def prefix_def)
  then have tail: "str_replace (placeholder h) a (''$__'' @ r) = ''$__'' @ str_replace (placeholder h) a r"
    by (simp add: placeholder_def)
  have "str_replace (placeholder h) a (''__$'' @ h' @ ''$__'' @ r) =
      ''__$'' @ str_replace (placeholder h) a (h' @ ''$__'' @ r)"
    using no by (simp add: placeholder_def)
  also have "\<dots> = ''__$'' @ h' @ ''$__'' @ str_replace (placeholder h) a r"
    by (simp only: str_replace_plain [OF assms(3)] tail)
  finally show ?thesis by (simp add: placeholder_def)
qed

lemma str_replace_render:
  assumes "compiled h ps" and "filling h ps f" and "length (h k) = 34"
    and "\<And>k'. Hole k' \<in> set ps \<Longrightarrow> h k' = h k \<Longrightarrow> k' = k" and "f k = placeholder (h k)"
  shows "str_replace (placeholder (h k)) a (render f ps) = render (f(k := a)) ps"
  using assms
proof (induction f ps rule: render.induct)
  case (1 f)
  then show ?case by (simp add: placeholder_def)
next
  case (2 f s ps)
  note c = compiled_CodeD [OF 2(2)]
  have "str_replace (placeholder (h k)) a (render f ps) = render (f(k := a)) ps"
    by (rule 2(1)) (use 2 c in auto)
  with c show ?case by (simp only: render.simps str_replace_plain)
next
  case (3 f k' ps)
  note c = compiled_HoleD [OF 3(2)]
  have IH: "str_replace (placeholder (h k)) a (render f ps) = render (f(k := a)) ps"
    by (rule 3(1)) (use 3 c in auto)
  have safe: "safe_start (render f ps)" using c 3(3) by (intro render_safe) auto
  consider "k' = k" | "k' \<noteq> k" "f k' = placeholder (h k')" | "k' \<noteq> k" "plain (f k')"
    using 3(3) by auto
  then show ?case
  proof cases
    case 1
    have "placeholder (h k) \<noteq> []" by (simp add: placeholder_def)
    with 1 3(6) IH show ?thesis by (simp add: str_replace_hit del: fun_upd_apply) simp
  next
    case 2
    with 3(4,5) c have "h k \<noteq> h k'" "length (h k) = length (h k')" by auto
    with str_replace_other [OF this _ safe] 2 c IH show ?thesis by (simp del: fun_upd_apply) simp
  next
    case 3
    with IH show ?thesis by (simp add: str_replace_plain del: fun_upd_apply) simp
  qed
qed

text \<open>One library: its placeholders are replaced by the first reference, and the others find the address
  there already.\<close>

lemma link_refs_render:
  assumes "compiled h ps" and "filling h ps f" and "f k = placeholder (h k)" and "plain a" and "length a = 40"
    and "\<forall>(start, len) \<in> set refs. len = 20 \<and> (k, 2 * start) \<in> set (holes 0 ps)"
    and "Hole k \<in> set ps \<Longrightarrow> refs \<noteq> []"
  shows "link_refs a (render f ps) refs = render (f(k := a)) ps"
proof (cases refs)
  case Nil
  with assms(7) have "Hole k \<notin> set ps" by blast
  then have "render (f(k := a)) ps = render f ps" by (intro render_cong) auto
  with Nil show ?thesis by simp
next
  case (Cons ref more)
  obtain start where ref: "ref = (start, 20)" and at: "(k, 2 * start) \<in> set (holes 0 ps)"
    using assms(6) Cons by auto
  have k: "Hole k \<in> set ps" using at by (rule holes_Hole)
  have fill: "filling h ps (f(k := a))" using assms(2,4,5) by (auto simp: filling_def)
  have again: "link_refs a (render (f(k := a)) ps) rs = render (f(k := a)) ps"
    if "\<forall>(start, len) \<in> set rs. len = 20 \<and> (k, 2 * start) \<in> set (holes 0 ps)" for rs
    using that
  proof (induction rs)
    case (Cons r rs)
    then obtain i where r: "r = (i, 20)" "(k, 2 * i) \<in> set (holes 0 ps)" by auto
    have "take 40 (drop (2 * i - 0) (render (f(k := a)) ps)) = (f(k := a)) k"
      by (rule conjunct2 [OF render_at_hole [OF _ r(2)]]) (rule filling_length [OF fill assms(1)])
    then have "take (2 * 20) (drop (2 * i) (render (f(k := a)) ps)) = a" by simp
    moreover have "a \<noteq> []" using assms(5) by auto
    ultimately show ?case using r Cons by (simp add: str_replace_same del: fun_upd_apply)
  qed simp
  have "take 40 (drop (2 * start - 0) (render f ps)) = f k"
    by (rule conjunct2 [OF render_at_hole [OF _ at]]) (rule filling_length [OF assms(2,1)])
  then have "take (2 * 20) (drop (2 * start) (render f ps)) = placeholder (h k)" using assms(3) by simp
  moreover have "str_replace (placeholder (h k)) a (render f ps) = render (f(k := a)) ps"
    by (rule str_replace_render [where h = h and k = k, OF assms(1,2) _ compiled_inj [OF assms(1) _ k] assms(3)])
      (use assms(1) k in \<open>auto simp: compiled_def\<close>)
  ultimately have "link_refs a (render f ps) refs = link_refs a (render (f(k := a)) ps) more"
    using Cons ref by simp
  with again [of more] assms(6) Cons show ?thesis by simp
qed

text \<open>All libraries: the text of a library is its address in the cache, as it is put into the code.\<close>

definition cached_text :: "env \<Rightarrow> 'm kk_world_scheme \<Rightarrow> string \<times> string \<Rightarrow> string" where
  "cached_text E s k = map lower (drop 2 (checksum E (the (library_cache s k))))"

lemma cache_growsD: "cache_grows s t \<Longrightarrow> library_cache s k \<noteq> None \<Longrightarrow> library_cache t k = library_cache s k"
  unfolding cache_grows_def map_le_def by (erule bspec [where x = k, THEN sym]) (simp add: domIff)

lemma cached_text_grows: "cache_grows s t \<Longrightarrow> library_cache s k \<noteq> None \<Longrightarrow> cached_text E t k = cached_text E s k"
  by (simp add: cached_text_def cache_growsD)

lemma library_answer:
  assumes "get_or_deploy_library E deploy_library k s = Ret a t"
  shows "library_cache t k \<noteq> None" and "map lower (drop 2 a) = cached_text E t k"
  using assms unfolding get_or_deploy_library_def cached_text_def
  by (auto simp: py_run split: option.splits outcome.splits)

text \<open>What the references to a library must be: all of them at holes of it, and one at least if it has a hole.\<close>

definition at_holes :: "'k piece list \<Rightarrow> 'k \<Rightarrow> (nat \<times> nat) list \<Rightarrow> bool" where
  "at_holes ps k refs \<longleftrightarrow> (Hole k \<in> set ps \<longrightarrow> refs \<noteq> []) \<and>
     (\<forall>(start, len) \<in> set refs. len = 20 \<and> (k, 2 * start) \<in> set (holes 0 ps))"

lemma link_code_render:
  fixes s t :: "'m kk_world_scheme"
  assumes "link_code (get_or_deploy_library E deploy_library) (render f ps) links s = Ret code t"
    and "compiled h ps" and "filling h ps f" and "distinct (map fst links)"
    and "\<forall>(k, refs) \<in> set links. f k = placeholder (h k) \<and> at_holes ps k refs"
    and addresses: "\<And>n. plain (map lower (drop 2 (checksum E n))) \<and> length (checksum E n) = 42"
    and library: "\<And>k. rel_py cache_grows (get_or_deploy_library E deploy_library k :: ('m kk_world_scheme, string) py)"
  shows "cache_grows s t \<and> (\<forall>k \<in> fst ` set links. library_cache t k \<noteq> None) \<and>
    code = render (\<lambda>k. if k \<in> fst ` set links then cached_text E t k else f k) ps"
  using assms(1-5)
proof (induction links arbitrary: f s)
  case Nil
  then show ?case by (auto simp: ret_def cache_grows_def)
next
  case (Cons l links)
  obtain k refs where l: "l = (k, refs)" by (cases l)
  obtain a u where lib: "get_or_deploy_library E deploy_library k s = Ret a u"
    and rest: "link_code (get_or_deploy_library E deploy_library)
      (link_refs (map lower (drop 2 a)) (render f ps) refs) links u = Ret code t"
    using Cons.prems(1) l by (auto elim!: bnd_RetE)
  let ?a = "cached_text E u k"
  note a = library_answer [OF lib]
  have pa: "plain ?a \<and> length ?a = 40" using addresses by (simp add: cached_text_def)
  have "link_refs ?a (render f ps) refs = render (f(k := ?a)) ps"
    by (rule link_refs_render) (use Cons.prems(2-5) l pa in \<open>auto simp: at_holes_def\<close>)
  with rest a(2) have run: "link_code (get_or_deploy_library E deploy_library) (render (f(k := ?a)) ps) links u = Ret code t"
    by (simp only:)
  have fill: "filling h ps (f(k := ?a))" using Cons.prems(3) pa by (auto simp: filling_def)
  have new: "k \<notin> fst ` set links" and d: "distinct (map fst links)" using Cons.prems(4) l by auto
  have rest_ok: "\<forall>(k', refs) \<in> set links. (f(k := ?a)) k' = placeholder (h k') \<and> at_holes ps k' refs"
    using Cons.prems(5) new by force
  have IH: "cache_grows u t" "\<forall>k \<in> fst ` set links. library_cache t k \<noteq> None"
    "code = render (\<lambda>k'. if k' \<in> fst ` set links then cached_text E t k' else (f(k := ?a)) k') ps"
    using Cons.IH [OF run Cons.prems(2) fill d rest_ok] by blast+
  have same: "cached_text E t k = ?a" by (rule cached_text_grows [OF IH(1) a(1)])
  have "code = render (\<lambda>k'. if k' \<in> fst ` set (l # links) then cached_text E t k' else f k') ps"
    unfolding IH(3) using new same by (intro render_cong) (auto simp: l)
  moreover have "library_cache t k \<noteq> None"
    using cache_growsD [OF IH(1) a(1)] a(1) by simp
  moreover have "cache_grows s t"
    using growing.R_trans [OF rel_pyD_Ret [OF library lib] IH(1)] .
  ultimately show ?case using IH(2) l by auto
qed

text \<open>The references of an artifact come under different keys.\<close>

definition wf_links :: "string links \<Rightarrow> bool" where
  "wf_links links \<longleftrightarrow> distinct (map fst links) \<and> (\<forall>(app, libraries) \<in> set links. distinct (map fst libraries))"

lemma alter_keys: "set (map fst (alter_entry d k f al)) = insert k (set (map fst al))"
  by (induction d k f al rule: alter_entry.induct) auto

lemma alter_distinct: "distinct (map fst al) \<Longrightarrow> distinct (map fst (alter_entry d k f al))"
proof (induction d k f al rule: alter_entry.induct)
  case (2 d k f k' v rest)
  then show ?case using alter_keys [of d k f rest] by auto
qed simp

lemma alter_set: "(k', v) \<in> set (alter_entry d k f al) \<Longrightarrow> (k', v) \<in> set al \<or> (\<exists>w. v = f w \<and> (w = d \<or> (k, w) \<in> set al))"
  by (induction d k f al rule: alter_entry.induct) (auto split: if_splits)

lemma wf_add: "wf_links links \<Longrightarrow> wf_links (add_references app reference links)"
  by (cases reference) (auto simp: wf_links_def add_references_def alter_distinct dest!: alter_set)

lemma wf_fold: "wf_links links \<Longrightarrow> wf_links (fold (add_references app) libraries links)"
  by (induction libraries arbitrary: links) (auto intro: wf_add)

lemma wf_process: "process_link_references src raw links = Inr links' \<Longrightarrow> wf_links links \<Longrightarrow> wf_links links'"
  by (induction src raw links rule: process_link_references.induct) (auto elim!: bind_sum_InrE intro: wf_fold)

lemma wf_process_Nil: "process_link_references src raw [] = Inr links \<Longrightarrow> wf_links links"
  by (erule wf_process) (simp add: wf_links_def)

lemma link_order_Cons:
  "link_order ((app, libraries) # links) = map (\<lambda>(name, refs). ((app, name), refs)) libraries @ link_order links"
  by (simp add: link_order_def)

lemma link_order_iff:
  "((app, name), refs) \<in> set (link_order links) \<longleftrightarrow>
     (\<exists>libraries. (app, libraries) \<in> set links \<and> (name, refs) \<in> set libraries)"
  by (induction links) (auto simp: link_order_def)

lemma link_order_distinct: "wf_links links \<Longrightarrow> distinct (map fst (link_order links))"
proof (induction links)
  case (Cons e links)
  obtain app libraries where e: "e = (app, libraries)" by (cases e)
  have "map fst (map (\<lambda>(name, refs). ((app, name), refs)) libraries) = map (Pair app) (map fst libraries)"
    by (induction libraries) auto
  moreover have "distinct (map (Pair app) (map fst libraries))"
    using Cons.prems e by (simp add: wf_links_def distinct_map inj_on_def)
  moreover have "(app, name) \<notin> fst ` set (link_order links)" for name
    using Cons.prems e by (force simp: wf_links_def link_order_iff)
  ultimately show ?case
    using Cons e by (auto simp: link_order_Cons wf_links_def simp del: map_map)
qed (simp add: link_order_def)

lemma link_order_refs:
  "wf_links links \<Longrightarrow> ((app, name), refs) \<in> set (link_order links) \<Longrightarrow> refs_of links app name = refs"
  by (fastforce simp: link_order_iff wf_links_def refs_of_def)

lemma refs_of_order:
  "refs_of links app name \<noteq> [] \<Longrightarrow> ((app, name), refs_of links app name) \<in> set (link_order links)"
  by (auto simp: link_order_iff refs_of_def split: option.splits dest: map_of_SomeD)

section \<open>What a contract handle holds\<close>

text \<open>What solc leaves in an output: the code with its placeholders, and for every library the places of its
  holes, in bytes.\<close>

definition solc_code ::
    "(string \<times> string \<Rightarrow> string) \<Rightarrow> string \<Rightarrow> string links \<Rightarrow> (string \<times> string) piece list \<Rightarrow> bool" where
  "solc_code h text links code \<longleftrightarrow>
     text = ''0x'' @ render (\<lambda>k. placeholder (h k)) code \<and> compiled h code \<and>
     (\<forall>k. map (\<lambda>(start, len). (k, 2 * start, len)) (refs_of links (fst k) (snd k)) =
       map (\<lambda>(k, i). (k, i, 20)) (filter (\<lambda>(k', i). k' = k) (holes 0 code)))"

lemma solc_at_holes:
  assumes "solc_code h text links code"
  shows "at_holes code k (refs_of links (fst k) (snd k))"
proof -
  let ?refs = "refs_of links (fst k) (snd k)"
  have eq: "map (\<lambda>(start, len). (k, 2 * start, len)) ?refs =
      map (\<lambda>(k, i). (k, i, 20)) (filter (\<lambda>(k', i). k' = k) (holes 0 code))"
    using assms unfolding solc_code_def by blast
  have "?refs \<noteq> []" if "Hole k \<in> set code"
  proof -
    from hole_holes [OF that, of 0]
    obtain i where "(k, i) \<in> set (filter (\<lambda>(k', i). k' = k) (holes 0 code))" by fastforce
    with eq show ?thesis by (auto simp: filter_empty_conv)
  qed
  moreover have "len = 20 \<and> (k, 2 * start) \<in> set (holes 0 code)" if "(start, len) \<in> set ?refs" for start len
  proof -
    have "(k, 2 * start, len) \<in> set (map (\<lambda>(start, len). (k, 2 * start, len)) ?refs)"
      using that by (auto simp: rev_image_eqI)
    then show ?thesis unfolding eq by auto
  qed
  ultimately show ?thesis by (auto simp: at_holes_def)
qed

lemma linked_solc:
  fixes s t :: "'m kk_world_scheme"
  assumes "solc_code h text links code" and "wf_links links"
    and "link_code (get_or_deploy_library E deploy_library) (drop 2 text) (link_order links) s = Ret linked t"
    and "\<And>n. plain (map lower (drop 2 (checksum E n))) \<and> length (checksum E n) = 42"
    and "\<And>k. rel_py cache_grows (get_or_deploy_library E deploy_library k :: ('m kk_world_scheme, string) py)"
  shows "cache_grows s t" and "\<forall>k. Hole k \<in> set code \<longrightarrow> library_cache t k \<noteq> None"
    and "linked = render (cached_text E t) code"
proof -
  have run: "link_code (get_or_deploy_library E deploy_library) (render (\<lambda>k. placeholder (h k)) code)
      (link_order links) s = Ret linked t"
    and comp: "compiled h code"
    using assms(1,3) by (auto simp: solc_code_def)
  have ok: "\<forall>(k, refs) \<in> set (link_order links). placeholder (h k) = placeholder (h k) \<and> at_holes code k refs"
    using solc_at_holes [OF assms(1)] link_order_refs [OF assms(2)] by force
  have fill: "filling h code (\<lambda>k. placeholder (h k))" by (simp add: filling_def)
  note linked = link_code_render [OF run comp fill link_order_distinct [OF assms(2)] ok assms(4,5)]
  have all: "k \<in> fst ` set (link_order links)" if "Hole k \<in> set code" for k
    using solc_at_holes [OF assms(1), of k] refs_of_order [of links "fst k" "snd k"] that
    by (force simp: at_holes_def)
  from linked show "cache_grows s t" by blast
  from linked all show "\<forall>k. Hole k \<in> set code \<longrightarrow> library_cache t k \<noteq> None" by blast
  have "render (\<lambda>k. if k \<in> fst ` set (link_order links) then cached_text E t k else placeholder (h k)) code =
      render (cached_text E t) code"
    using all by (intro render_cong) simp
  with linked show "linked = render (cached_text E t) code" by simp
qed

text \<open>C26. A contract handle has the code that was compiled, with the addresses of its libraries in the holes: after
  \<^verbatim>\<open>get_contract\<close> every library the code needs is deployed and in the cache, each hole of the bytecode and of the
  runtime code has the cached address of its own library, in lower case and without \<^verbatim>\<open>0x\<close>, no placeholder is left, and
  the rest of the code is untouched.  This holds for any number of libraries and references, nested libraries
  included, if solc's references are the places of its placeholders and a checksummed address has its 42
  characters.\<close>

theorem contract_code_linked:
  fixes s t :: "'m kk_world_scheme"
  assumes art: "get_solidity_artifacts K app name None = Inr a"
    and code: "solc_code h (sa_object a) (sa_links a) code"
    and runtime: "solc_code h (sa_runtime a) (sa_runtime_links a) runtime"
    and checksum: "\<And>n. plain (map lower (drop 2 (checksum E n))) \<and> length (checksum E n) = 42"
    and run: "solidity_contract E K (\<lambda>lapp lname. deploy_contract fuel E K lapp lname [] None 0) app name address caller s =
      Ret c t"
  shows "(\<forall>k. Hole k \<in> set code \<union> set runtime \<longrightarrow> library_cache t k \<noteq> None) \<and>
    kc_bytecode c = render (cached_text E t) code \<and> hexbytes (render (cached_text E t) runtime) = Inr (kc_runtime c)"
proof -
  let ?library = "get_or_deploy_library E (\<lambda>lapp lname. deploy_contract fuel E K lapp lname [] None 0)"
  have wf: "wf_links (sa_links a)" "wf_links (sa_runtime_links a)"
    using art unfolding get_solidity_artifacts_def
    by (auto elim!: bind_sum_InrE intro: wf_process_Nil)
  have library: "rel_py cache_grows (?library k :: ('m kk_world_scheme, string) py)" for k
    by (intro cached.library_kept_by cached.deploy_contract_kept)
  obtain u v bytecode rt where b: "link_code ?library (drop 2 (sa_object a)) (link_order (sa_links a)) u = Ret bytecode v"
    and r: "link_code ?library (drop 2 (sa_runtime a)) (link_order (sa_runtime_links a)) v = Ret rt t"
    and c: "kc_bytecode c = bytecode" "hexbytes rt = Inr (kc_runtime c)"
    using run art unfolding solidity_contract_def link_libraries_def
    by (auto simp: ret_def lift_sum_def split: sum.splits elim!: bnd_RetE seq_RetE)
  note B = linked_solc [OF code wf(1) b checksum library]
  note R = linked_solc [OF runtime wf(2) r checksum library]
  have kept: "\<forall>k. Hole k \<in> set code \<longrightarrow> library_cache t k \<noteq> None"
    using B(2) by (simp add: cache_growsD [OF R(1)])
  have "render (cached_text E v) code = render (cached_text E t) code"
    by (intro render_cong, rule cached_text_grows [OF R(1), symmetric]) (rule B(2) [rule_format])
  with B(3) R(2,3) c kept show ?thesis by auto
qed

text \<open>Two references to one library, in a contract whose library is in the cache.\<close>

definition demo_code :: "(string \<times> string) piece list" where
  "demo_code = [Code ''73'', Hole (''Lib'', ''Math''), Code ''60'', Hole (''Lib'', ''Math''), Code ''00'']"

definition demo_hash :: "string \<times> string \<Rightarrow> string" where
  "demo_hash k = replicate 34 CHR ''a''"

definition demo_kk :: kk_env where
  "demo_kk = node_kk\<lparr>foundry_src := [''src''], compilations := [\<lparr>cp_stem = ''Calc'', cp_targets = [],
     cp_object = ''0x'' @ render (\<lambda>k. placeholder (demo_hash k)) demo_code,
     cp_links = [([''src'', ''Lib'', ''Math.sol''], [(''Math'', [(1, 20), (22, 20)])])],
     cp_runtime = ''0x00'', cp_runtime_links = [], cp_abi = []\<rparr>]\<rparr>"

definition demo_env :: env where
  "demo_env = dev_env\<lparr>checksum := (\<lambda>n. ''0x'' @ fmt_hex 40 (n mod 2 ^ 160))\<rparr>"

lemma demo_stem: "stem_matches ''Calc'' None ''Calc''"
  by code_simp

lemma demo_artifact:
  "get_solidity_artifacts demo_kk ''App'' ''Calc'' None = Inr \<lparr>
     sa_object = ''0x'' @ render (\<lambda>k. placeholder (demo_hash k)) demo_code,
     sa_links = [(''Lib'', [(''Math'', [(1, 20), (22, 20)])])], sa_runtime = ''0x00'', sa_runtime_links = [], sa_abi = []\<rparr>"
  using demo_stem by (simp add: get_solidity_artifacts_def demo_kk_def select_output_def select_from_def
      app_of_path_def add_references_def)

lemma demo_solc:
  "solc_code demo_hash (''0x'' @ render (\<lambda>k. placeholder (demo_hash k)) demo_code)
     [(''Lib'', [(''Math'', [(1, 20), (22, 20)])])] demo_code"
  "solc_code demo_hash ''0x00'' [] [Code ''00'']"
  by (auto simp: solc_code_def demo_code_def compiled_def demo_hash_def plain_def refs_of_def)

lemma plain_digits: "list_all (\<lambda>d. plain [lower (hexdigit d)]) [0,1,2,3,4,5,6,7,8,9,10,11,12,13,14,15]"
  by code_simp

lemma plain_hex: "plain (map lower (hex_digits k n))"
proof -
  have "plain [lower (hexdigit d)]" if "d \<in> set (digits 16 k n)" for d
  proof -
    have "d \<in> {0..15}" using digits_in_base [of 16 k n] that by (auto simp: in_base_def)
    also have "{0..15::int} = set [0,1,2,3,4,5,6,7,8,9,10,11,12,13,14,15]"
      unfolding set_upto [symmetric] by (simp add: upto.simps)
    finally show ?thesis using plain_digits unfolding list_all_iff by (rule bspec [rotated])
  qed
  then show ?thesis by (force simp: plain_def hex_digits_def)
qed

lemma demo_checksum:
  "plain (map lower (drop 2 (checksum demo_env n))) \<and> length (checksum demo_env n) = 42"
proof -
  have "fmt_hex 40 (n mod 2 ^ 160) = hex_digits 40 (n mod 2 ^ 160)" by (rule fmt_hex_fits) simp_all
  with plain_hex show ?thesis by (simp add: demo_env_def)
qed

lemma demo_linked:
  "\<not> isl (hexbytes (link_refs (map lower (drop 2 (''0x'' @ fmt_hex 40 7)))
     (render (\<lambda>k. placeholder (demo_hash k)) demo_code) [(1, 20), (22, 20)]))"
  "\<not> isl (hexbytes ''00'')"
  by code_simp+

lemma demo_run:
  "\<exists>c t. solidity_contract demo_env demo_kk (\<lambda>lapp lname. deploy_contract fuel demo_env demo_kk lapp lname [] None 0)
     ''App'' ''Calc'' (AddrInt 5) None
     (node_world\<lparr>library_cache := [(''Lib'', ''Math'') \<mapsto> 7]\<rparr>) = Ret c t"
  using demo_linked unfolding solidity_contract_def demo_artifact
  by (auto simp: link_libraries_def link_order_def get_or_deploy_library_def contract_address_def
      check_contract_address_def checksum_address_def demo_env_def py_run split: sum.splits)

lemma contract_code_linked_witness:
  "\<exists>c t. solidity_contract demo_env demo_kk (\<lambda>lapp lname. deploy_contract 1 demo_env demo_kk lapp lname [] None 0)
     ''App'' ''Calc'' (AddrInt 5) None (node_world\<lparr>library_cache := [(''Lib'', ''Math'') \<mapsto> 7]\<rparr>) = Ret c t \<and>
     kc_bytecode c = (let ad = cached_text demo_env t (''Lib'', ''Math'') in ''73'' @ ad @ ''60'' @ ad @ ''00'')"
proof -
  obtain c t where run: "solidity_contract demo_env demo_kk (\<lambda>lapp lname. deploy_contract 1 demo_env demo_kk lapp lname [] None 0)
     ''App'' ''Calc'' (AddrInt 5) None (node_world\<lparr>library_cache := [(''Lib'', ''Math'') \<mapsto> 7]\<rparr>) = Ret c t"
    using demo_run by blast
  note linked = contract_code_linked [OF demo_artifact, unfolded sol_artifact.simps, OF demo_solc demo_checksum run]
  then have "kc_bytecode c = render (cached_text demo_env t) demo_code" by blast
  then show ?thesis using run by (auto simp: demo_code_def Let_def)
qed

end
