(* ===== verification/PreEip155.thy ===== *)
theory PreEip155
  imports KakarotSend
begin

text \<open>
  The amounts of the table of \<^verbatim>\<open>kakarot_scripts/data/pre_eip155_txs.py\<close> and what its transactions may cost.
\<close>

section \<open>What the transactions may cost\<close>

text \<open>The fields of an RLP list, as far as they are short numbers: what comes after the length of the list, then
  the nonce, the gas price and the gas limit.\<close>

definition rlp_content :: "byte list \<Rightarrow> byte list" where
  "rlp_content bs = (case bs of [] \<Rightarrow> [] | b # rest \<Rightarrow>
     if 0xf7 < byte_val b then drop (nat (byte_val b - 0xf7)) rest else rest)"

fun rlp_number :: "byte list \<Rightarrow> int \<times> byte list" where
  "rlp_number [] = (0, [])"
| "rlp_number (b # bs) =
     (if byte_val b < 0x80 then (byte_val b, bs)
      else let n = nat (byte_val b - 0x80) in (from_bytes_big (take n bs), drop n bs))"

definition tx_fields :: "byte list \<Rightarrow> int \<times> int \<times> int" where
  "tx_fields bs =
     (let (nonce, bs) = rlp_number (rlp_content bs); (gas_price, bs) = rlp_number bs; (gas, bs) = rlp_number bs
      in (nonce, gas_price, gas))"

text \<open>The amounts are floats; what they come to in wei is exact.\<close>

lemma rnd_tenths:
  "rnd (1 / 10) = 7205759403792794 / 2 ^ 56" "rnd (3 / 10) = 5404319552844595 / 2 ^ 54"
proof -
  show "rnd (1 / 10) = 7205759403792794 / 2 ^ 56"
    by (subst rnd_eq [where k = "- 4" and n = 7205759403792794]) (simp_all add: pow2_def)
  show "rnd (3 / 10) = 5404319552844595 / 2 ^ 54"
    by (subst rnd_eq [where k = "- 2" and n = 5404319552844595]) (simp_all add: pow2_def)
qed

lemma wei_tenths:
  "wei_of_eth (PFloat (rnd (1 / 10))) = 10 ^ 17" "wei_of_eth (PFloat (rnd (3 / 10))) = 3 * 10 ^ 17"
proof -
  have "rnd (7205759403792794 / 2 ^ 56 * 10 ^ 18) = of_int (10 ^ 17)"
    by (subst rnd_eq [where k = 56 and n = 6250000000000000]) (simp_all add: pow2_def)
  then show "wei_of_eth (PFloat (rnd (1 / 10))) = 10 ^ 17"
    by (simp add: rnd_tenths wei_of_eth_def e18_def del: of_int_power)
  have "rnd (5404319552844595 / 2 ^ 54 * 10 ^ 18) = of_int (3 * 10 ^ 17)"
    by (subst rnd_eq [where k = 58 and n = 4687500000000000]) (simp_all add: pow2_def)
  then show "wei_of_eth (PFloat (rnd (3 / 10))) = 3 * 10 ^ 17"
    by (simp add: rnd_tenths wei_of_eth_def e18_def)
qed

lemma heads:
  "fromhex (pre_eip155_head ''Multicall3'') = Inr [0xf9,0x0f,0x53,0x80,0x85,0x17,0x48,0x76,0xe8,0,0x83,0x0f,0x42,0x40]"
  "fromhex (pre_eip155_head ''ArachnidProxy'') = Inr [0xf8,0xa5,0x80,0x85,0x17,0x48,0x76,0xe8,0,0x83,0x01,0x86,0xa0]"
  "fromhex (pre_eip155_head ''CreateX'') = Inr [0xf9,0x2f,0x69,0x80,0x85,0x17,0x48,0x76,0xe8,0,0x83,0x2d,0xc6,0xc0]"
  by code_simp+

text \<open>A deployer that is funded can pay for its transaction, whatever the rest of it is: the amount of the table,
  turned into wei by \<^verbatim>\<open>fund_address\<close>, covers the gas limit at the gas price.  For two of the three it
  is exactly that.\<close>

theorem pre_eip155_amounts_cover:
  "list_all (\<lambda>(name, tx). case tx_fields (pt_signed tx) of (nonce, gas_price, gas) \<Rightarrow>
     nonce = 0 \<and> gas_price = 10 ^ 11 \<and> gas_price * gas \<le> wei_of_eth (pt_required tx)) (PRE_EIP155_TX rest)"
proof -
  have "tx_fields (signed_tx rest ''Multicall3'') = (0, 10 ^ 11, 10 ^ 6)"
    and "tx_fields (signed_tx rest ''ArachnidProxy'') = (0, 10 ^ 11, 10 ^ 5)"
    and "tx_fields (signed_tx rest ''CreateX'') = (0, 10 ^ 11, 3 * 10 ^ 6)"
    by (simp_all add: signed_tx_def heads tx_fields_def rlp_content_def byte_val_def from_bytes_big_def of_digits_def Let_def)
  then show ?thesis by (simp add: PRE_EIP155_TX_def wei_tenths)
qed

end
