(* ===== verification/Compile.thy ===== *)
theory Compile
  imports StarknetFiles "HOL-Library.Sublist"
begin

text \<open>
  Compilation: the table \<^verbatim>\<open>CONTRACTS\<close> of \<^verbatim>\<open>constants.py\<close>, the compiler commands and the search for a
  Scarb root of \<^verbatim>\<open>utils/starknet.py\<close>, and the split of \<^verbatim>\<open>compile_kakarot.py\<close> into Cairo 0 contracts
  and Cairo 1 packages.  Paths are lists of components; \<^verbatim>\<open>[]\<close> is the directory that is its own parent.
\<close>

section \<open>The table of contracts\<close>

text \<open>\<^verbatim>\<open>Path.stem\<close>: the name without its last extension.\<close>

definition py_stem :: "string \<Rightarrow> string" where
  "py_stem name =
     (let tail = takeWhile (\<lambda>c. c \<noteq> CHR ''.'') (rev name);
          rest = dropWhile (\<lambda>c. c \<noteq> CHR ''.'') (rev name)
      in if rest = [] \<or> tail = [] \<or> length rest = 1 then name else rev (tl rest))"

definition CONTRACTS :: "string list list \<Rightarrow> string list list \<Rightarrow> string list list \<Rightarrow> string list list \<Rightarrow>
    string \<rightharpoonup> string list" where
  "CONTRACTS zero zero_tests tests cairo =
     map_of (rev (map (\<lambda>p. (py_stem (last p), p))
       (zero @ zero_tests @ tests @
        filter (\<lambda>p. \<not> contains ''kakarot-ssj'' (join_with (CHR ''/'') p)) cairo)))"

text \<open>\<^verbatim>\<open>re.sub("(?!^)([A-Z]+)", r"_\1", name).lower()\<close>: an underscore before every run of capitals that
  does not start the name; a run at the start is entered from its second letter on.\<close>

fun snake_tail :: "bool \<Rightarrow> string \<Rightarrow> string" where
  "snake_tail in_run [] = []"
| "snake_tail in_run (c # cs) =
     (if is_upper c then (if in_run then [] else [CHR ''_'']) @ lower c # snake_tail True cs
      else lower c # snake_tail False cs)"

definition snake_case :: "string \<Rightarrow> string" where
  "snake_case name = (case name of [] \<Rightarrow> [] | c # cs \<Rightarrow> lower c # snake_tail False cs)"

definition contract_path :: "(string \<rightharpoonup> string list) \<Rightarrow> string \<Rightarrow> string list option" where
  "contract_path contracts name =
     (case contracts name of Some p \<Rightarrow> Some p | None \<Rightarrow> contracts (snake_case name))"

lemma snake_examples:
  "snake_case ''OpenzeppelinAccount'' = ''openzeppelin_account''"
  "snake_case ''ERC20'' = ''e_rc20''" "snake_case ''kakarot'' = ''kakarot''"
  by code_simp+

section \<open>The root of a package\<close>

fun scarb_root_from :: "(string list \<Rightarrow> bool) \<Rightarrow> string list \<Rightarrow> string list option" where
  "scarb_root_from exists current_dir =
     (if current_dir = [] then None
      else if exists (current_dir @ [''Scarb.toml'']) then Some current_dir
      else scarb_root_from exists (butlast current_dir))"

declare scarb_root_from.simps [simp del]

definition locate_scarb_root :: "(string list \<Rightarrow> bool) \<Rightarrow> string list \<Rightarrow> string list option" where
  "locate_scarb_root exists path = scarb_root_from exists (butlast path)"

lemma scarb_root_from_Some:
  "scarb_root_from exists d = Some r \<Longrightarrow>
     prefix r d \<and> r \<noteq> [] \<and> exists (r @ [''Scarb.toml'']) \<and>
     (\<forall>q. prefix q d \<and> length r < length q \<longrightarrow> \<not> exists (q @ [''Scarb.toml'']))"
proof (induction exists d rule: scarb_root_from.induct)
  case (1 exists d)
  show ?case
  proof (cases "d \<noteq> [] \<and> \<not> exists (d @ [''Scarb.toml''])")
    case True
    then have "scarb_root_from exists (butlast d) = Some r"
      using 1 by (simp add: scarb_root_from.simps [of exists d])
    with True 1 have IH: "prefix r (butlast d)" "r \<noteq> []" "exists (r @ [''Scarb.toml''])"
      "\<forall>q. prefix q (butlast d) \<and> length r < length q \<longrightarrow> \<not> exists (q @ [''Scarb.toml''])" by auto
    have "prefix q d \<Longrightarrow> q = d \<or> prefix q (butlast d)" for q
      using True by (metis append_butlast_last_id prefix_snoc)
    with True IH show ?thesis by (metis append_butlast_last_id prefix_snoc)
  next
    case False
    with 1(2) have "r = d" "r \<noteq> []" "exists (r @ [''Scarb.toml''])"
      by (auto simp: scarb_root_from.simps [of exists d] split: if_splits)
    then show ?thesis by (auto dest: prefix_length_le)
  qed
qed

lemma scarb_root_from_None:
  "scarb_root_from exists d = None \<Longrightarrow> prefix q d \<Longrightarrow> q \<noteq> [] \<Longrightarrow> \<not> exists (q @ [''Scarb.toml''])"
proof (induction exists d rule: scarb_root_from.induct)
  case (1 exists d)
  then have "d \<noteq> []" by auto
  with 1 have "\<not> exists (d @ [''Scarb.toml''])" "scarb_root_from exists (butlast d) = None"
    by (auto simp: scarb_root_from.simps [of exists d] split: if_splits)
  with 1 \<open>d \<noteq> []\<close> show ?case by (metis append_butlast_last_id prefix_snoc)
qed

text \<open>C32. \<open>locate_scarb_root\<close> ends, and finds the innermost directory above a contract that holds a
  \<^verbatim>\<open>Scarb.toml\<close>: no deeper directory holds one, and it answers nothing only when none above does.\<close>

theorem locate_scarb_root_innermost:
  "case locate_scarb_root exists path of
     Some r \<Rightarrow> prefix r (butlast path) \<and> exists (r @ [''Scarb.toml'']) \<and>
       \<not> (\<exists>q. prefix q (butlast path) \<and> length r < length q \<and> exists (q @ [''Scarb.toml'']))
   | None \<Rightarrow> \<not> (\<exists>q. prefix q (butlast path) \<and> q \<noteq> [] \<and> exists (q @ [''Scarb.toml'']))"
  using scarb_root_from_Some [of exists "butlast path"] scarb_root_from_None [of exists "butlast path"]
  unfolding locate_scarb_root_def by (auto split: option.split)

section \<open>Commands\<close>

text \<open>What a finished process reports: the return code, and its two streams.\<close>

record completed =
  returncode :: int
  out_text :: string
  err_text :: string

definition check_completed :: "completed \<Rightarrow> exn + unit" where
  "check_completed output =
     (if returncode output \<noteq> 0 then Inl (RuntimeError (err_text output @ out_text output)) else Inr ())"

definition compile_scarb_package :: "(string list \<Rightarrow> string \<Rightarrow> completed) \<Rightarrow> string list \<Rightarrow> exn + unit" where
  "compile_scarb_package run package_path = check_completed (run package_path ''scarb build'')"

definition zero_command :: "network_type \<Rightarrow> string list \<Rightarrow> string \<Rightarrow> bool \<Rightarrow> string list" where
  "zero_command ntype path name is_account =
     [''starknet-compile-deprecated'', join_with (CHR ''/'') path,
      ''--output'', ''build/'' @ name @ ''.json'', ''--cairo_path'', ''cairo_zero''] @
     (if ntype \<noteq> DevNet then [''--no_debug_info''] else []) @
     (if is_account then [''--account_contract''] else []) @
     (if ntype = DevNet then [''--disable_hint_validation''] else [])"

definition compile_cairo_zero_contract ::
    "network_type \<Rightarrow> (string \<rightharpoonup> string list) \<Rightarrow> (string list \<Rightarrow> completed) \<Rightarrow> string \<times> bool \<Rightarrow> exn + unit" where
  "compile_cairo_zero_contract ntype contracts run contract =
     (case contract_path contracts (fst contract) of
        None \<Rightarrow> Inl TypeError
      | Some path \<Rightarrow> check_completed (run (zero_command ntype path (fst contract) (snd contract))))"

text \<open>A contract is compiled without checking its hints on a development network only: on every
  other network the compiler is told to leave the debug information out and to validate hints.\<close>

lemma hints_checked_off_devnet:
  "''--disable_hint_validation'' \<in> set (zero_command ntype path name is_account) \<longleftrightarrow>
     ntype = DevNet \<or> join_with (CHR ''/'') path = ''--disable_hint_validation''"
  by (auto simp: zero_command_def)

section \<open>Splitting the contracts\<close>

definition split_step ::
    "(string \<rightharpoonup> string list) \<Rightarrow> (string list \<Rightarrow> bool) \<Rightarrow> string \<times> bool \<Rightarrow>
     (string \<times> bool) list \<times> string list option set \<Rightarrow> exn + (string \<times> bool) list \<times> string list option set" where
  "split_step contracts exists contract acc =
     (case contract_path contracts (fst contract) of
        None \<Rightarrow> Inl AttributeError
      | Some path \<Rightarrow>
          Inr (if prefix [''cairo''] path
               then (fst acc, insert (locate_scarb_root exists path) (snd acc))
               else (fst acc @ [contract], snd acc)))"

fun split_contracts ::
    "(string \<rightharpoonup> string list) \<Rightarrow> (string list \<Rightarrow> bool) \<Rightarrow> (string \<times> bool) list \<Rightarrow>
     (string \<times> bool) list \<times> string list option set \<Rightarrow> exn + (string \<times> bool) list \<times> string list option set" where
  "split_contracts contracts exists [] acc = Inr acc"
| "split_contracts contracts exists (c # cs) acc =
     bind_sum (split_step contracts exists c acc) (split_contracts contracts exists cs)"

definition is_cairo1 :: "(string \<rightharpoonup> string list) \<Rightarrow> string \<Rightarrow> bool" where
  "is_cairo1 contracts name \<longleftrightarrow> (\<exists>p. contract_path contracts name = Some (''cairo'' # p))"

text \<open>The whole compilation.  The tasks of a pool all run; \<^verbatim>\<open>get\<close> raises one of their failures, the one that
  came first: which it is depends on the scheduling, as does the order of a set.\<close>

definition pool_result :: "(exn list \<Rightarrow> exn) \<Rightarrow> (exn + unit) list \<Rightarrow> exn + unit" where
  "pool_result first results =
     (case filter (\<lambda>r. r \<noteq> Inr ()) results of [] \<Rightarrow> Inr () | fs \<Rightarrow> Inl (first (map projl fs)))"

text \<open>\<^verbatim>\<open>compute_deployed_class_hash\<close>: the class hashes of a Sierra and of a Cairo 0 file are starknet_py's.\<close>

definition compute_deployed_class_hash ::
    "env \<Rightarrow> (string list \<Rightarrow> exn + int) \<Rightarrow> (string list \<Rightarrow> exn + int) \<Rightarrow> string \<Rightarrow> exn + int" where
  "compute_deployed_class_hash E sierra_class_hash class_hash name =
     bind_sum (get_artifact E name) (\<lambda>artifact.
       case ar_sierra artifact of Some sierra \<Rightarrow> sierra_class_hash sierra | None \<Rightarrow> class_hash (ar_casm artifact))"

definition compile_main ::
    "env \<Rightarrow> (string \<rightharpoonup> string list) \<Rightarrow> (string list \<Rightarrow> bool) \<Rightarrow> (string \<times> bool) list \<Rightarrow> string list \<Rightarrow>
     (string list \<Rightarrow> completed) \<Rightarrow> (string list \<Rightarrow> string \<Rightarrow> completed) \<Rightarrow> (exn list \<Rightarrow> exn) \<Rightarrow>
     (string list option set \<Rightarrow> string list option list) \<Rightarrow> (string list \<Rightarrow> exn + int) \<Rightarrow> (string list \<Rightarrow> exn + int) \<Rightarrow>
     ('m world_scheme, unit) py" where
  "compile_main E contracts exists compiled declared run_zero run_scarb first order sierra_class_hash class_hash =
     bnd (lift_sum (split_contracts contracts exists compiled ([], {}))) (\<lambda>(cairo0_contracts, cairo1_packages).
     let cairo0_task = map (compile_cairo_zero_contract (nw_type (network E)) contracts run_zero) cairo0_contracts;
         cairo1_task = map (\<lambda>p. compile_scarb_package run_scarb (case p of Some d \<Rightarrow> d | None \<Rightarrow> []))
           (order cairo1_packages)
     in seq (lift_sum (pool_result first cairo0_task))
       (seq (lift_sum (pool_result first cairo1_task))
       (bnd (lift_sum (map_sum_list (compute_deployed_class_hash E sierra_class_hash class_hash) declared)) (\<lambda>class_hashes.
        dump_class_hashes (zip declared class_hashes)))))"

text \<open>The class hashes are written only when everything compiled, and then for all declared contracts.\<close>

lemma pool_result_ok: "pool_result first results = Inr () \<longleftrightarrow> (\<forall>r \<in> set results. r = Inr ())"
  by (cases "filter (\<lambda>r. r \<noteq> Inr ()) results") (auto simp: pool_result_def filter_empty_conv dest: filter_eq_ConsD)

lemma compile_main_writes:
  assumes "compile_main E contracts exists compiled declared run_zero run_scarb first order sierra_class_hash class_hash s = Ret () t"
  shows "\<exists>zero one hashes. split_contracts contracts exists compiled ([], {}) = Inr (zero, one) \<and>
    (\<forall>c \<in> set zero. compile_cairo_zero_contract (nw_type (network E)) contracts run_zero c = Inr ()) \<and>
    map_sum_list (compute_deployed_class_hash E sierra_class_hash class_hash) declared = Inr hashes \<and>
    class_hashes_file t = Some (hex_entries (zip declared hashes))"
  using assms
  by (auto simp: compile_main_def Ret_iff pool_result_ok dump_class_hashes_def emit_def modify_def split: prod.splits)

lemma prefix_cairo: "prefix [''cairo''] path \<longleftrightarrow> (\<exists>p. path = ''cairo'' # p)"
  by (cases path) auto

text \<open>The split compiles every contract by exactly one of the two routes, and compiles a package
  once however many of its contracts are listed; a name without a source file stops the build.\<close>

theorem split_contracts_spec:
  "split_contracts contracts exists cs (zero, one) =
     (if \<exists>c \<in> set cs. contract_path contracts (fst c) = None then Inl AttributeError
      else Inr (zero @ filter (\<lambda>c. \<not> is_cairo1 contracts (fst c)) cs,
        one \<union> (\<lambda>c. locate_scarb_root exists (the (contract_path contracts (fst c)))) `
          {c \<in> set cs. is_cairo1 contracts (fst c)}))"
proof (induction cs arbitrary: zero one)
  case (Cons c cs)
  show ?case
  proof (cases "contract_path contracts (fst c)")
    case (Some path)
    then have "prefix [''cairo''] path \<longleftrightarrow> is_cairo1 contracts (fst c)"
      unfolding prefix_cairo is_cairo1_def by auto
    moreover have "{d \<in> set (c # cs). is_cairo1 contracts (fst d)} =
        (if is_cairo1 contracts (fst c) then {c} else {}) \<union> {d \<in> set cs. is_cairo1 contracts (fst d)}"
      by auto
    ultimately show ?thesis using Cons Some by (simp add: split_step_def image_Un) force
  qed (simp add: split_step_def)
qed simp

end
