(* ===== verification/ContractCalls.thy ===== *)
theory ContractCalls
  imports KakarotLink
begin

text \<open>
  Calling Solidity functions: the wrappers that \<^verbatim>\<open>get_contract\<close> of \<^verbatim>\<open>kakarot_scripts/utils/kakarot.py\<close>
  attaches to a contract, and \<^verbatim>\<open>_wrap_kakarot\<close> that makes them.
\<close>

section \<open>The functions of a contract\<close>

text \<open>A function is attached under its bare name, so that of overloaded functions the last of the ABI is
  called by it; the wrapper finds the function by its signature, which must be unique.\<close>

definition attached :: "abi \<Rightarrow> string \<Rightarrow> string option" where
  "attached abi = map_of (rev (map (\<lambda>(fn_name, signature, _). (fn_name, signature)) abi))"

definition function_by_signature :: "abi \<Rightarrow> string \<Rightarrow> exn + sol_fun" where
  "function_by_signature abi signature =
     (case filter (\<lambda>(_, s, _). s = signature) abi of
        [(_, _, f)] \<Rightarrow> Inr f
      | _ \<Rightarrow> Inl (ValueError ''web3''))"

lemma attached_last:
  "attached (abi @ [(fn_name, signature, f)]) fn_name = Some signature"
  by (simp add: attached_def)

text \<open>With one entry for each signature, the function that a name reaches is the last of that name.\<close>

lemma attached_function:
  assumes "distinct (map (\<lambda>(_, s, _). s) abi)" and "attached abi fn_name = Some signature"
  shows "\<exists>before f rest. abi = before @ (fn_name, signature, f) # rest \<and>
    (\<forall>(n, _) \<in> set rest. n \<noteq> fn_name) \<and> function_by_signature abi signature = Inr f"
  using assms
proof (induction abi rule: rev_induct)
  case (snoc e abi)
  obtain n s f where e: "e = (n, s, f)" by (cases e)
  show ?case
  proof (cases "n = fn_name")
    case True
    with snoc.prems e have "s = signature" by (simp add: attached_def)
    moreover have "filter (\<lambda>(_, s, _). s = signature) abi = []"
      using snoc.prems(1) e \<open>s = signature\<close> by (force simp: filter_empty_conv)
    ultimately have "abi @ [e] = abi @ (fn_name, signature, f) # []"
      "function_by_signature (abi @ [e]) signature = Inr f"
      using True e by (simp_all add: function_by_signature_def)
    then show ?thesis by (metis empty_iff list.set(1))
  next
    case False
    with snoc.prems(2) e have "attached abi fn_name = Some signature" by (simp add: attached_def)
    with snoc.IH snoc.prems(1) obtain before g rest where
      abi: "abi = before @ (fn_name, signature, g) # rest" and rest: "\<forall>(n, _) \<in> set rest. n \<noteq> fn_name"
      and fn: "function_by_signature abi signature = Inr g" by auto
    have "s \<noteq> signature" using snoc.prems(1) e abi by auto
    with fn e have "function_by_signature (abi @ [e]) signature = Inr g"
      by (simp add: function_by_signature_def)
    moreover have "abi @ [e] = before @ (fn_name, signature, g) # (rest @ [e])" using abi by simp
    moreover have "\<forall>(n, _) \<in> set (rest @ [e]). n \<noteq> fn_name" using rest False e by auto
    ultimately show ?thesis by blast
  qed
qed (simp add: attached_def)

section \<open>The wrapper\<close>

definition is_read_only :: "sol_fun \<Rightarrow> bool" where
  "is_read_only f \<longleftrightarrow> sf_mutability f \<in> {''pure'', ''view''}"

text \<open>\<^verbatim>\<open>normalized[0] if len(normalized) == 1 else normalized\<close>: one value or the list of them.\<close>

datatype call_result = Single arg | Many "arg list" | Executed evm_result

definition normalize :: "arg list \<Rightarrow> call_result" where
  "normalize vs = (case vs of [v] \<Rightarrow> Single v | _ \<Rightarrow> Many vs)"

definition eth_call_args :: "int \<Rightarrow> int \<Rightarrow> int \<Rightarrow> int \<Rightarrow> int \<Rightarrow> byte list \<Rightarrow> arg list" where
  "eth_call_args origin to gas_limit gas_price value calldata =
     [Felt 0, Felt origin, Struct [[(''is_some'', 1), (''value'', to)]], Felt gas_limit,
      Felt gas_price, Felt value, Felts (map byte_val calldata), Felts []]"

text \<open>\<^verbatim>\<open>result.success\<close> and \<^verbatim>\<open>result.return_data\<close>\<close>

definition eth_call_result :: "arg list \<Rightarrow> exn + byte list" where
  "eth_call_result r =
     (case r of
        Felts return_data # Felt success # _ \<Rightarrow>
          bind_sum (bytes_of_ints return_data) (\<lambda>bs.
          if success = 0 then Inl (EvmTransactionError return_data) else Inr bs)
      | _ \<Rightarrow> Inl AttributeError)"

text \<open>A contract without an address can be written to, which creates one, but not be asked.\<close>

definition eth_call ::
    "env \<Rightarrow> kk_env \<Rightarrow> int \<Rightarrow> int option \<Rightarrow> int \<Rightarrow> int \<Rightarrow> int \<Rightarrow> byte list \<Rightarrow> ('m kk_world_scheme, byte list) py" where
  "eth_call E K origin to gas_limit gas_price value calldata =
     (if web3_connected K
      then ask (Web3Call origin to gas_limit gas_price value calldata) (o_web3_call K)
      else bnd (get_contract E ''kakarot'' None None) (\<lambda>kakarot_contract.
           bnd (get_option TypeError to) (\<lambda>to.
           bnd (abi_call E kakarot_contract ''eth_call'' (eth_call_args origin to gas_limit gas_price value calldata))
             (\<lambda>r. lift_sum (eth_call_result r)))))"

definition wrap_kakarot ::
    "env \<Rightarrow> kk_env \<Rightarrow> sol_fun option \<Rightarrow> int option \<Rightarrow> arg list \<Rightarrow> account option \<Rightarrow> int \<Rightarrow> int \<Rightarrow> int \<Rightarrow>
       ('m kk_world_scheme, call_result) py" where
  "wrap_kakarot E K f to args caller_eoa gas_limit gas_price value =
     bnd (case f of Some g \<Rightarrow> lift_sum (sf_encode g args) | None \<Rightarrow> ret []) (\<lambda>calldata.
     case f of
       Some g \<Rightarrow>
         if is_read_only g
         then
           let origin = (case caller_eoa of Some a \<Rightarrow> ac_public_key a | None \<Rightarrow> evm_address_of K (evm_private_key K))
           in bnd (eth_call E K origin to gas_limit gas_price value calldata) (\<lambda>result.
              bnd (lift_sum (sf_decode g result)) (\<lambda>decoded. ret (normalize decoded)))
         else bnd (eth_send_transaction E K to calldata gas_limit value caller_eoa gas_price)
              (\<lambda>(receipt, response, success, gas_used).
              if success = 0
              then bnd (lift_sum (bytes_of_ints response)) (\<lambda>_. raise (EvmTransactionError response))
              else ret (Executed (receipt, response, success, gas_used)))
     | None \<Rightarrow>
         bnd (eth_send_transaction E K to calldata gas_limit value caller_eoa gas_price)
              (\<lambda>(receipt, response, success, gas_used).
              if success = 0
              then bnd (lift_sum (bytes_of_ints response)) (\<lambda>_. raise (EvmTransactionError response))
              else ret (Executed (receipt, response, success, gas_used))))"



section \<open>Questions to L1\<close>

text \<open>A request to a node whose only trace is the answer.\<close>

definition peek :: "(event list \<Rightarrow> exn + 'a) \<Rightarrow> ('m world_scheme, 'a) py" where
  "peek oracle s = lift_sum (oracle (trace s)) s"

end
