(* ===== verification/L1Client.thy ===== *)
theory L1Client
  imports ContractCalls
begin

text \<open>
  The L1 client \<^verbatim>\<open>kakarot_scripts/utils/l1.py\<close>: the file of addresses, contracts with their wrapped
  functions, and transactions, which the caller signs and the node executes.  An account is its
  private key; a contract made without an address has none until it is deployed.
\<close>

section \<open>The file of addresses\<close>

record l1_world = kk_world +
  l1_file :: "(string \<times> string) list option"

definition dump_l1_addresses :: "(string \<times> string) list \<Rightarrow> ('m l1_world_scheme, unit) py" where
  "dump_l1_addresses deployments =
     seq (emit (FileWrite ''l1_addresses.json'')) (modify (\<lambda>s. s\<lparr>l1_file := Some deployments\<rparr>))"

definition get_l1_addresses :: "('m l1_world_scheme, (string \<times> string) list) py" where
  "get_l1_addresses = bnd (gets l1_file) (\<lambda>f. ret (case f of None \<Rightarrow> [] | Some deployments \<Rightarrow> deployments))"

lemma l1_addresses_roundtrip: "\<exists>t. seq (dump_l1_addresses ds) get_l1_addresses s = Ret ds t"
  by (simp add: dump_l1_addresses_def get_l1_addresses_def py_run)

section \<open>Transactions\<close>

record l1_tx =
  lt_to :: "int option"
  lt_value :: int
  lt_data :: "byte list"
  lt_from :: int
  lt_gas :: int
  lt_gas_price :: int
  lt_chain_id :: int
  lt_nonce :: int

text \<open>\<open>l1_encode_keyword\<close> is what web3 makes of arguments that come with a keyword \<^verbatim>\<open>caller_eoa\<close>.\<close>

record l1_env =
  l1_key :: int
  l1_address_of :: "int \<Rightarrow> int"
  l1_sign :: "l1_tx \<Rightarrow> int \<Rightarrow> exn + byte list"
  l1_encode_keyword :: "sol_fun \<Rightarrow> arg list \<Rightarrow> int option \<Rightarrow> exn + byte list"
  o_l1_code :: "event list \<Rightarrow> int \<Rightarrow> exn + byte list"
  o_l1_estimate :: "event list \<Rightarrow> int option \<Rightarrow> int \<Rightarrow> byte list \<Rightarrow> int \<Rightarrow> exn + int"
  o_l1_gas_price :: "event list \<Rightarrow> exn + int"
  o_l1_chain_id :: "event list \<Rightarrow> exn + int"
  o_l1_nonce :: "event list \<Rightarrow> int \<Rightarrow> exn + int"
  o_l1_send :: "event list \<Rightarrow> byte list \<Rightarrow> exn + web3_receipt"
  o_l1_revert_reason :: "event list \<Rightarrow> exn + byte list"
  o_l1_call :: "event list \<Rightarrow> l1_tx \<Rightarrow> exn + byte list"

definition l1_contract_exists :: "l1_env \<Rightarrow> int \<Rightarrow> ('m world_scheme, bool) py" where
  "l1_contract_exists L address =
     try_except (bnd (peek (\<lambda>h. o_l1_code L h address)) (\<lambda>code. ret (code \<noteq> [])))
       (\<lambda>_. ret False)"

definition l1_caller :: "l1_env \<Rightarrow> int option \<Rightarrow> int" where
  "l1_caller L caller_eoa = (case caller_eoa of Some k \<Rightarrow> k | None \<Rightarrow> l1_key L)"

definition prepare_l1_transaction ::
    "l1_env \<Rightarrow> int option \<Rightarrow> byte list \<Rightarrow> int option \<Rightarrow> int option \<Rightarrow> ('m world_scheme, l1_tx) py" where
  "prepare_l1_transaction L to data value caller_eoa =
     (let sender = l1_address_of L (l1_caller L caller_eoa)
      in bnd (peek (\<lambda>h. o_l1_estimate L h to (case value of Some v \<Rightarrow> v | None \<Rightarrow> 0) data sender)) (\<lambda>gas.
         bnd (peek (o_l1_gas_price L)) (\<lambda>gas_price.
         bnd (peek (o_l1_chain_id L)) (\<lambda>chain.
         bnd (ask (Web3Nonce sender) (\<lambda>h. o_l1_nonce L h sender)) (\<lambda>nonce.
         ret \<lparr>lt_to = to, lt_value = (case value of Some v \<Rightarrow> v | None \<Rightarrow> 0),
              lt_data = data, lt_from = sender, lt_gas = gas, lt_gas_price = gas_price,
              lt_chain_id = chain, lt_nonce = nonce\<rparr>)))))"

definition send_l1_transaction ::
    "l1_env \<Rightarrow> l1_tx \<Rightarrow> int option \<Rightarrow> ('m world_scheme, web3_receipt \<times> byte list) py" where
  "send_l1_transaction L tx caller_eoa =
     bnd (lift_sum (l1_sign L tx (l1_caller L caller_eoa))) (\<lambda>raw.
     bnd (ask (Web3Send raw) (\<lambda>h. o_l1_send L h raw)) (\<lambda>receipt.
     bnd (if wr_status receipt = 0 then peek (o_l1_revert_reason L) else ret []) (\<lambda>response.
     ret (receipt, response))))"

section \<open>Contracts\<close>

text \<open>A contract handle: the functions of its ABI are wrapped by name, all for the same account.\<close>

record l1_contract =
  lc_address :: "int option"
  lc_bytecode :: string
  lc_runtime :: "byte list"
  lc_abi :: abi
  lc_caller :: "int option"

text \<open>The code is not linked: web3 and \<^verbatim>\<open>HexBytes\<close> take it as it stands in the artifact.\<close>

definition get_l1_contract ::
    "l1_env \<Rightarrow> kk_env \<Rightarrow> string \<Rightarrow> string \<Rightarrow> int option \<Rightarrow> int option \<Rightarrow> ('m world_scheme, l1_contract) py" where
  "get_l1_contract L K app name address caller_eoa =
     bnd (lift_sum (get_solidity_artifacts K app name None)) (\<lambda>artifact.
     bnd (lift_sum (hexbytes (sa_object artifact))) (\<lambda>_.
     bnd (lift_sum (hexbytes (sa_runtime artifact))) (\<lambda>runtime.
     ret \<lparr>lc_address = address, lc_bytecode = sa_object artifact, lc_runtime = runtime,
          lc_abi = sa_abi artifact, lc_caller = caller_eoa\<rparr>)))"

definition deploy_on_l1 ::
    "l1_env \<Rightarrow> kk_env \<Rightarrow> string \<Rightarrow> string \<Rightarrow> arg list \<Rightarrow> int option \<Rightarrow> int option \<Rightarrow> ('m world_scheme, l1_contract) py" where
  "deploy_on_l1 L K app name args value caller_eoa =
     bnd (get_l1_contract L K app name None None) (\<lambda>contract.
     bnd (lift_sum (constructor_data K app name (lc_bytecode contract) args)) (\<lambda>data.
     bnd (prepare_l1_transaction L None data value caller_eoa) (\<lambda>tx.
     bnd (send_l1_transaction L tx caller_eoa) (\<lambda>(receipt, response).
     if wr_status receipt = 0 then raise (EvmTransactionError (map byte_val response))
     else bnd (get_option TypeError
                 (case wr_contract_address receipt of Some a \<Rightarrow> Some a | None \<Rightarrow> wr_to receipt)) (\<lambda>evm_address.
          ret (contract\<lparr>lc_address := Some evm_address\<rparr>))))))"

text \<open>\<^verbatim>\<open>self.get_function_by_name(fun)\<close> refuses a name that is overloaded.\<close>

definition function_by_name :: "l1_contract \<Rightarrow> string \<Rightarrow> exn + sol_fun" where
  "function_by_name c fname =
     (case filter (\<lambda>(n, _). n = fname) (lc_abi c) of
        [(_, _, f)] \<Rightarrow> Inr f
      | _ \<Rightarrow> Inl (ValueError ''web3''))"

text \<open>
  The wrapped function.  \<open>keyword\<close> is the argument \<^verbatim>\<open>caller_eoa\<close> of the call, when it has one; it is taken
  out of the keywords only after they were passed on to the encoding.
\<close>

datatype l1_result = L1Value call_result | L1Receipt "web3_receipt \<times> byte list"

definition effective_caller :: "l1_contract \<Rightarrow> int option option \<Rightarrow> int option" where
  "effective_caller c keyword = (case keyword of Some k \<Rightarrow> k | None \<Rightarrow> lc_caller c)"

definition wrap_web3 ::
    "l1_env \<Rightarrow> l1_contract \<Rightarrow> string \<Rightarrow> arg list \<Rightarrow> int option \<Rightarrow> int option option \<Rightarrow> ('m world_scheme, l1_result) py" where
  "wrap_web3 L c fname args value keyword =
     bnd (lift_sum (function_by_name c fname)) (\<lambda>f.
     bnd (lift_sum (case keyword of None \<Rightarrow> sf_encode f args | Some k \<Rightarrow> l1_encode_keyword L f args k)) (\<lambda>calldata.
     let caller_eoa = effective_caller c keyword
     in bnd (prepare_l1_transaction L (lc_address c) calldata value caller_eoa) (\<lambda>tx.
        if is_read_only f
        then bnd (ask (Web3Call (lt_from tx) (lt_to tx) (lt_gas tx) 0 (lt_value tx) (lt_data tx))
                    (\<lambda>h. o_l1_call L h (tx\<lparr>lt_gas_price := 0\<rparr>))) (\<lambda>result.
             bnd (lift_sum (sf_decode f result)) (\<lambda>decoded. ret (L1Value (normalize decoded))))
        else bnd (send_l1_transaction L tx caller_eoa) (\<lambda>(receipt, response).
             if wr_status receipt = 0 then raise (EvmTransactionError (map byte_val response))
             else ret (L1Receipt (receipt, response))))))"

section \<open>What reaches L1\<close>

text \<open>The requests to L1 that change its state.\<close>

fun l1_sends :: "event list \<Rightarrow> byte list list" where
  "l1_sends [] = []"
| "l1_sends (Web3Send raw # evs) = raw # l1_sends evs"
| "l1_sends (_ # evs) = l1_sends evs"

lemma l1_sends_append [simp]: "l1_sends (a @ b) = l1_sends a @ l1_sends b"
  by (induction a rule: l1_sends.induct) auto

lemma prepare_spec:
  "case prepare_l1_transaction L to data wei caller s of
      Ret tx t \<Rightarrow> lt_to tx = to \<and> lt_value tx = (case wei of Some v \<Rightarrow> v | None \<Rightarrow> 0) \<and>
        lt_from tx = l1_address_of L (l1_caller L caller) \<and> lt_data tx = data \<and>
        l1_sends (trace t) = l1_sends (trace s)
    | Exc e t \<Rightarrow> l1_sends (trace t) = l1_sends (trace s)
    | Diverge \<Rightarrow> False"
  by (auto simp: prepare_l1_transaction_def peek_def py_run Let_def split: sum.split)

lemma send_spec:
  "case send_l1_transaction L tx caller s of
      Ret (receipt, response) t \<Rightarrow> \<exists>raw. l1_sign L tx (l1_caller L caller) = Inr raw \<and>
        l1_sends (trace t) = l1_sends (trace s) @ [raw]
    | Exc e t \<Rightarrow> l1_sends (trace t) = l1_sends (trace s) \<or>
        (\<exists>raw. l1_sends (trace t) = l1_sends (trace s) @ [raw])
    | Diverge \<Rightarrow> False"
  by (auto simp: send_l1_transaction_def peek_def py_run split: sum.split)

text \<open>C31. On L1 a write is one transaction, signed by the caller for the prepared fields; it is reported
  as executed only if its receipt has a non-zero status, and a reverted one raises with the
  reason the node traced, after at most that single transaction.\<close>

theorem wrap_web3_writes:
  assumes f: "function_by_name c fname = Inr f" and nonview: "\<not> is_read_only f"
  shows "case wrap_web3 L c fname args wei None s of
      Ret r t \<Rightarrow> \<exists>tx raw receipt response. r = L1Receipt (receipt, response) \<and> wr_status receipt \<noteq> 0 \<and>
        lt_to tx = lc_address c \<and> lt_value tx = (case wei of Some v \<Rightarrow> v | None \<Rightarrow> 0) \<and>
        lt_from tx = l1_address_of L (l1_caller L (lc_caller c)) \<and>
        sf_encode f args = Inr (lt_data tx) \<and> l1_sign L tx (l1_caller L (lc_caller c)) = Inr raw \<and>
        l1_sends (trace t) = l1_sends (trace s) @ [raw]
    | Exc e t \<Rightarrow> l1_sends (trace t) = l1_sends (trace s) \<or>
        (\<exists>raw. l1_sends (trace t) = l1_sends (trace s) @ [raw])
    | Diverge \<Rightarrow> False"
proof (cases "sf_encode f args")
  case (Inl e)
  then show ?thesis using f by (simp add: wrap_web3_def lift_sum_def bnd_def)
next
  case (Inr data)
  let ?caller = "lc_caller c"
  note P = prepare_spec [where L = L and to = "lc_address c" and data = data and wei = wei and caller = ?caller and s = s]
  have start: "wrap_web3 L c fname args wei None s =
      bnd (prepare_l1_transaction L (lc_address c) data wei ?caller) (\<lambda>tx.
        bnd (send_l1_transaction L tx ?caller) (\<lambda>(receipt, response).
          if wr_status receipt = 0 then raise (EvmTransactionError (map byte_val response))
          else ret (L1Receipt (receipt, response)))) s"
    using f nonview Inr by (simp add: wrap_web3_def lift_sum_def bnd_def effective_caller_def Let_def)
  show ?thesis
  proof (cases "prepare_l1_transaction L (lc_address c) data wei ?caller s")
    case p: (Ret tx u)
    note S = send_spec [where L = L and tx = tx and caller = ?caller and s = u]
    show ?thesis
      using P p S Inr unfolding start
      by (cases "send_l1_transaction L tx ?caller u") (auto simp: bnd_def raise_def ret_def)
  qed (use P start in \<open>simp_all add: bnd_def\<close>)
qed

definition l1_dev :: l1_env where
  "l1_dev = \<lparr>l1_key = 1, l1_address_of = (\<lambda>k. k + 100), l1_sign = (\<lambda>tx k. Inr [7]),
     l1_encode_keyword = (\<lambda>f args k. Inl TypeError), o_l1_code = (\<lambda>h a. Inr []), o_l1_estimate = (\<lambda>h to v d a. Inr 21000),
     o_l1_gas_price = (\<lambda>h. Inr 1), o_l1_chain_id = (\<lambda>h. Inr 1), o_l1_nonce = (\<lambda>h a. Inr 0),
     o_l1_send = (\<lambda>h raw. Inr \<lparr>wr_status = 1, wr_gas_used = 21000, wr_contract_address = None, wr_to = None, wr_logs = []\<rparr>),
     o_l1_revert_reason = (\<lambda>h. Inr []), o_l1_call = (\<lambda>h tx. Inr [])\<rparr>"

definition l1_ping :: l1_contract where
  "l1_ping = \<lparr>lc_address = Some 5, lc_bytecode = [], lc_runtime = [], lc_abi = [(''ping'', ''ping()'',
     \<lparr>sf_mutability = ''payable'', sf_encode = (\<lambda>args. Inr [1]), sf_decode = (\<lambda>d. Inr [])\<rparr>)], lc_caller = None\<rparr>"

lemma wrap_web3_writes_witness:
  "case wrap_web3 l1_dev l1_ping ''ping'' [] None None dev_world of
     Ret r t \<Rightarrow> length (l1_sends (trace t)) = 1 | Exc e t \<Rightarrow> length (l1_sends (trace t)) \<le> 1 | Diverge \<Rightarrow> False"
proof -
  have "function_by_name l1_ping ''ping'' =
      Inr \<lparr>sf_mutability = ''payable'', sf_encode = (\<lambda>args. Inr [1]), sf_decode = (\<lambda>d. Inr [])\<rparr>"
    by (simp add: function_by_name_def l1_ping_def l1_dev_def)
  from wrap_web3_writes [OF this, where L = l1_dev and s = dev_world and args = "[]" and wei = None]
  show ?thesis by (auto simp: is_read_only_def split: outcome.splits)
qed

section \<open>Who sends\<close>

lemma deploy_on_l1_Ret:
  "deploy_on_l1 L K app name args wei caller s = Ret c t \<Longrightarrow>
     (\<exists>a. lc_address c = Some a) \<and> lc_caller c = None"
  by (auto simp: deploy_on_l1_def get_l1_contract_def Ret_iff split: if_splits)

text \<open>A contract deployed on L1 for an account is not bound to it: a write that follows is signed with
  the key of the scripts, whoever deployed the contract.\<close>

theorem deploy_on_l1_drops_caller:
  assumes dep: "deploy_on_l1 L K app name args wei caller s = Ret c t"
    and f: "function_by_name c fname = Inr f" and nonview: "\<not> is_read_only f"
    and run: "wrap_web3 L c fname args' wei' None t = Ret r u"
  shows "\<exists>tx raw. lt_from tx = l1_address_of L (l1_key L) \<and> l1_sign L tx (l1_key L) = Inr raw \<and>
    l1_sends (trace u) = l1_sends (trace t) @ [raw]"
proof -
  obtain data v tx w receipt response where d: "sf_encode f args' = Inr data"
    and p: "prepare_l1_transaction L (lc_address c) data wei' None t = Ret tx w"
    and s: "send_l1_transaction L tx None w = Ret (receipt, response) v"
    and e: "u = v"
    using run f nonview deploy_on_l1_Ret [OF dep]
    by (auto simp: wrap_web3_def effective_caller_def Ret_iff Let_def split: if_splits)
  show ?thesis
    using prepare_spec [where L = L and to = "lc_address c" and data = data and wei = wei' and caller = None and s = t]
      send_spec [where L = L and tx = tx and caller = None and s = w] p s e
    by (auto simp: l1_caller_def)
qed

text \<open>Naming the account in the call instead fails before anything is sent, since web3 refuses a keyword
  that is no argument of the function.\<close>

theorem caller_keyword_refused:
  assumes "function_by_name c fname = Inr f" and "l1_encode_keyword L f args k = Inl e"
  shows "wrap_web3 L c fname args wei (Some k) s = Exc e s"
  using assms by (simp add: wrap_web3_def py_run)

end
