(* ===== verification/Signing.thy ===== *)
theory Signing
  imports Helpers
begin

text \<open>
  The helpers of \<^verbatim>\<open>tests/utils/helpers.py\<close> that build what is hashed or signed: unsigned legacy and
  typed transactions, the addresses of \<^verbatim>\<open>CREATE\<close> and \<^verbatim>\<open>CREATE2\<close>, the digest of an EIP-2612 permit and
  the parts of a signature.  Packages are parameters: \<open>keccak\<close>, \<open>rlp\<close> (of a list of items),
  \<open>abi_encode\<close> (of types and values), \<open>address_bytes\<close> (\<^verbatim>\<open>decode_hex(to_checksum_address(a))\<close>) and
  \<open>checksum\<close> (\<^verbatim>\<open>to_checksum_address\<close> of bytes).  Texts are ASCII.
\<close>

section \<open>Unsigned transactions\<close>

datatype rlp_item = RlpInt int | RlpBytes "byte list"

text \<open>The dictionary of a transaction without a type; \<open>None\<close> is a missing key, for \<^verbatim>\<open>to\<close> the value
  \<^verbatim>\<open>None\<close>.\<close>

record legacy_tx =
  lx_nonce :: int_or_str
  lx_gas_price :: int_or_str
  lx_gas :: "int_or_str option"
  lx_gas_limit :: "int_or_str option"
  lx_to :: "int_or_str option"
  lx_value :: int_or_str
  lx_data :: byteslike
  lx_chain_id :: "int_or_str option"

fun truthy :: "int_or_str option \<Rightarrow> bool" where
  "truthy None = False"
| "truthy (Some (AnInt n)) = (n \<noteq> 0)"
| "truthy (Some (AStr s)) = (s \<noteq> [])"

definition get_gas :: "legacy_tx \<Rightarrow> exn + int" where
  "get_gas tx =
     (case lx_gas tx of
        Some g \<Rightarrow> to_int g
      | None \<Rightarrow> (case lx_gas_limit tx of Some g \<Rightarrow> to_int g | None \<Rightarrow> Inl KeyError))"

definition target_bytes :: "int_or_str option \<Rightarrow> exn + byte list" where
  "target_bytes to =
     (if truthy to then bind_sum (to_int (the to)) (\<lambda>a. fromhex (fmt_hex 40 a)) else Inr [])"

definition legacy_items :: "legacy_tx \<Rightarrow> exn + rlp_item list" where
  "legacy_items tx =
     bind_sum (to_int (lx_nonce tx)) (\<lambda>nonce.
     bind_sum (to_int (lx_gas_price tx)) (\<lambda>gas_price.
     bind_sum (get_gas tx) (\<lambda>gas.
     bind_sum (target_bytes (lx_to tx)) (\<lambda>to.
     bind_sum (to_int (lx_value tx)) (\<lambda>value.
     bind_sum (to_bytes (lx_data tx)) (\<lambda>data.
     bind_sum (case lx_chain_id tx of
                 Some c \<Rightarrow> bind_sum (to_int c) (\<lambda>chain. Inr [RlpInt chain, RlpInt 0, RlpInt 0])
               | None \<Rightarrow> Inr []) (\<lambda>replay_protection.
     Inr ([RlpInt nonce, RlpInt gas_price, RlpInt gas, RlpBytes to, RlpInt value, RlpBytes data]
          @ replay_protection))))))))"

text \<open>A typed transaction is what eth_account makes of the dictionary: its type and the encoding of
  its fields.  The answer is a list of numbers then, and bytes otherwise.\<close>

datatype tx_dict = TypedTx int "exn + byte list" | LegacyTx legacy_tx

datatype signed_data = NumberList "int list" | RlpData "byte list"

fun rlp_encode_signed_data :: "(rlp_item list \<Rightarrow> exn + byte list) \<Rightarrow> tx_dict \<Rightarrow> exn + signed_data" where
  "rlp_encode_signed_data rlp (TypedTx transaction_type encoded) =
     bind_sum encoded (\<lambda>bs. Inr (NumberList (transaction_type # map byte_val bs)))"
| "rlp_encode_signed_data rlp (LegacyTx tx) =
     bind_sum (legacy_items tx) (\<lambda>items. bind_sum (rlp items) (\<lambda>bs. Inr (RlpData bs)))"

lemma fromhex_be_bytes: "0 \<le> n \<Longrightarrow> n < 256 ^ k \<Longrightarrow> fromhex (hex_digits (2 * k) n) = Inr (be_bytes k n)"
  using bytes_hex_number [of "be_bytes k n"] fromhex_bytes_hex [of "be_bytes k n"]
  by (simp add: from_bytes_be_bytes)

text \<open>The target is the 20 bytes of the address, and no bytes at all for a creation.\<close>

lemma target_bytes_address:
  assumes "to_int t = Inr a" and "0 < a" and "a < 2 ^ 160"
  shows "target_bytes (Some t) = Inr (be_bytes 20 a)"
proof -
  have "truthy (Some t)" using assms by (cases t) (auto simp: int10_def split_sign_def py_strip_def)
  moreover have "fmt_hex 40 a = hex_digits (2 * 20) a" using assms by (simp add: fmt_hex_fits)
  moreover have "fromhex (hex_digits (2 * 20) a) = Inr (be_bytes 20 a)"
    using assms by (intro fromhex_be_bytes) simp_all
  ultimately show ?thesis using assms(1) by (simp add: target_bytes_def)
qed

lemma target_bytes_create: "target_bytes None = Inr []" "target_bytes (Some (AStr [])) = Inr []"
    "target_bytes (Some (AnInt 0)) = Inr []"
  by (simp_all add: target_bytes_def)

lemma get_gas_chain [simp]: "get_gas (tx\<lparr>lx_chain_id := c\<rparr>) = get_gas tx"
  by (simp add: get_gas_def split: option.split)

text \<open>EIP-155: a chain identifier appends three items and changes nothing before them.\<close>

lemma legacy_items_chain:
  assumes "legacy_items (tx\<lparr>lx_chain_id := None\<rparr>) = Inr items" and "to_int c = Inr chain"
  shows "legacy_items (tx\<lparr>lx_chain_id := Some c\<rparr>) = Inr (items @ [RlpInt chain, RlpInt 0, RlpInt 0]) \<and>
    length items = 6"
  using assms by (auto simp: legacy_items_def bind_sum_def split: sum.splits)

section \<open>Addresses of created contracts\<close>

definition get_create_address ::
    "(byte list \<Rightarrow> byte list) \<Rightarrow> (rlp_item list \<Rightarrow> exn + byte list) \<Rightarrow> (int_or_str \<Rightarrow> exn + byte list) \<Rightarrow>
     (byte list \<Rightarrow> string) \<Rightarrow> int_or_str \<Rightarrow> int \<Rightarrow> exn + string" where
  "get_create_address keccak rlp address_bytes checksum sender_address nonce =
     bind_sum (address_bytes sender_address) (\<lambda>sender.
     bind_sum (rlp [RlpBytes sender, RlpInt nonce]) (\<lambda>encoded.
     Inr (checksum (drop (length (keccak encoded) - 20) (keccak encoded)))))"

definition create2_preimage ::
    "(byte list \<Rightarrow> byte list) \<Rightarrow> (int_or_str \<Rightarrow> exn + byte list) \<Rightarrow> int_or_str \<Rightarrow> int \<Rightarrow> byte list \<Rightarrow> exn + byte list" where
  "create2_preimage keccak address_bytes sender_address salt initialization_code =
     bind_sum (address_bytes sender_address) (\<lambda>sender.
     bind_sum (to_bytes_big 32 salt) (\<lambda>salt_bytes.
     Inr ([255] @ sender @ salt_bytes @ keccak initialization_code)))"

definition get_create2_address ::
    "(byte list \<Rightarrow> byte list) \<Rightarrow> (int_or_str \<Rightarrow> exn + byte list) \<Rightarrow> (byte list \<Rightarrow> string) \<Rightarrow>
     int_or_str \<Rightarrow> int \<Rightarrow> byte list \<Rightarrow> exn + string" where
  "get_create2_address keccak address_bytes checksum sender_address salt initialization_code =
     bind_sum (create2_preimage keccak address_bytes sender_address salt initialization_code) (\<lambda>p.
     Inr (checksum (drop (length (keccak p) - 20) (keccak p))))"

lemma to_bytes_big_inj: "to_bytes_big k m = Inr bs \<Longrightarrow> to_bytes_big k n = Inr bs \<Longrightarrow> m = n"
  using from_bytes_be_bytes [of m k] from_bytes_be_bytes [of n k] by (auto simp: to_bytes_big_def split: if_splits)

lemma to_bytes_big_length: "to_bytes_big k n = Inr bs \<Longrightarrow> length bs = k"
  by (auto simp: to_bytes_big_def split: if_splits)

text \<open>What is hashed for \<^verbatim>\<open>CREATE2\<close> is four parts of fixed widths, so two contracts get the same preimage
  only with the same sender, salt and hash of the code.\<close>

theorem create2_preimage_injective:
  assumes p: "create2_preimage keccak ab a m c = Inr p" and q: "create2_preimage keccak ab b n d = Inr p"
    and address: "\<And>x bs. ab x = Inr bs \<Longrightarrow> length bs = 20" and hash: "\<And>x. length (keccak x) = 32"
  shows "length p = 85 \<and> ab a = ab b \<and> m = n \<and> keccak c = keccak d"
proof -
  obtain x ms y ns where x: "ab a = Inr x" "to_bytes_big 32 m = Inr ms" "p = 255 # x @ ms @ keccak c"
    and y: "ab b = Inr y" "to_bytes_big 32 n = Inr ns" "p = 255 # y @ ns @ keccak d"
    using p q by (auto simp: create2_preimage_def bind_sum_def split: sum.splits)
  have "length x = 20" "length y = 20" "length ms = 32" "length ns = 32"
    using address [OF x(1)] address [OF y(1)] to_bytes_big_length [OF x(2)] to_bytes_big_length [OF y(2)] by auto
  with x y hash [of c] have "x = y" "ms = ns" "keccak c = keccak d" "length p = 85" by auto
  with x y to_bytes_big_inj show ?thesis by auto
qed

section \<open>Permits\<close>

datatype abi_value = AbiBytes "byte list" | AbiInt int | AbiAddress string

type_synonym abi_encoder = "string list \<Rightarrow> abi_value list \<Rightarrow> exn + byte list"

record approve =
  ap_owner :: string
  ap_spender :: string
  ap_value :: int

definition keccak_text :: "(byte list \<Rightarrow> byte list) \<Rightarrow> string \<Rightarrow> byte list" where
  "keccak_text keccak text = keccak (encode_ascii text)"

definition permit_typehash :: "(byte list \<Rightarrow> byte list) \<Rightarrow> byte list" where
  "permit_typehash keccak =
     keccak_text keccak ''Permit(address owner,address spender,uint256 value,uint256 nonce,uint256 deadline)''"

definition get_domain_separator ::
    "(byte list \<Rightarrow> byte list) \<Rightarrow> abi_encoder \<Rightarrow> int \<Rightarrow> string \<Rightarrow> string \<Rightarrow> exn + byte list" where
  "get_domain_separator keccak abi_encode chain_id name token_address =
     bind_sum (abi_encode [''bytes32'', ''bytes32'', ''bytes32'', ''uint256'', ''address'']
       [AbiBytes (keccak_text keccak
          ''EIP712Domain(string name,string version,uint256 chainId,address verifyingContract)''),
        AbiBytes (keccak_text keccak name), AbiBytes (keccak_text keccak ''1''), AbiInt chain_id,
        AbiAddress token_address]) (\<lambda>encoded. Inr (keccak encoded))"

definition approval_preimage ::
    "(byte list \<Rightarrow> byte list) \<Rightarrow> abi_encoder \<Rightarrow> int \<Rightarrow> string \<Rightarrow> string \<Rightarrow> approve \<Rightarrow> int \<Rightarrow> int \<Rightarrow> exn + byte list" where
  "approval_preimage keccak abi_encode chain_id token_name token_address approve nonce deadline =
     bind_sum (get_domain_separator keccak abi_encode chain_id token_name token_address) (\<lambda>domain_separator.
     bind_sum (abi_encode [''bytes32'', ''address'', ''address'', ''uint256'', ''uint256'', ''uint256'']
       [AbiBytes (permit_typehash keccak), AbiAddress (ap_owner approve), AbiAddress (ap_spender approve),
        AbiInt (ap_value approve), AbiInt nonce, AbiInt deadline]) (\<lambda>permit.
     Inr ([25] @ [1] @ domain_separator @ keccak permit)))"

definition get_approval_digest ::
    "(byte list \<Rightarrow> byte list) \<Rightarrow> abi_encoder \<Rightarrow> int \<Rightarrow> string \<Rightarrow> string \<Rightarrow> approve \<Rightarrow> int \<Rightarrow> int \<Rightarrow> exn + byte list" where
  "get_approval_digest keccak abi_encode chain_id token_name token_address approve nonce deadline =
     bind_sum (approval_preimage keccak abi_encode chain_id token_name token_address approve nonce deadline)
       (\<lambda>p. Inr (keccak p))"

text \<open>What is signed is 66 bytes, from which the domain separator and the hash of the permit can be
  read off: two permits with the same preimage agree in both.\<close>

theorem approval_preimage_injective:
  assumes p: "approval_preimage keccak enc chain name token ap nonce deadline = Inr p"
    and q: "approval_preimage keccak enc chain' name' token' ap' nonce' deadline' = Inr p"
    and hash: "\<And>x. length (keccak x) = 32"
  shows "length p = 66 \<and>
    get_domain_separator keccak enc chain name token = get_domain_separator keccak enc chain' name' token' \<and>
    keccak (projr (enc [''bytes32'', ''address'', ''address'', ''uint256'', ''uint256'', ''uint256'']
      [AbiBytes (permit_typehash keccak), AbiAddress (ap_owner ap), AbiAddress (ap_spender ap),
       AbiInt (ap_value ap), AbiInt nonce, AbiInt deadline])) = drop 34 p"
proof -
  have separator: "length sep = 32" if "get_domain_separator keccak enc c n t = Inr sep" for c n t sep
    using that hash by (auto simp: get_domain_separator_def bind_sum_def split: sum.splits)
  show ?thesis
    using p q hash separator
    by (auto simp: approval_preimage_def bind_sum_def split: sum.splits)
qed

section \<open>Keys and signatures\<close>

text \<open>The random bits are an argument.\<close>

definition generate_random_private_key :: "int \<Rightarrow> exn + byte list" where
  "generate_random_private_key bits = to_bytes_big 32 bits"

definition generate_random_evm_address :: "(byte list \<Rightarrow> string) \<Rightarrow> int \<Rightarrow> exn + string" where
  "generate_random_evm_address public_address bits =
     bind_sum (generate_random_private_key bits) (\<lambda>key. Inr (public_address key))"

definition ec_sign ::
    "(byte list \<Rightarrow> byte list \<Rightarrow> exn + int \<times> int \<times> int) \<Rightarrow> byte list \<Rightarrow> byte list \<Rightarrow> exn + int \<times> byte list \<times> byte list" where
  "ec_sign sign_msg_hash digest owner_private_key =
     bind_sum (sign_msg_hash owner_private_key digest) (\<lambda>(v, r, s).
     bind_sum (to_bytes_big 32 r) (\<lambda>r_bytes.
     bind_sum (to_bytes_big 32 s) (\<lambda>s_bytes.
     Inr (v + 27, r_bytes, s_bytes))))"

lemma random_key_total: "0 \<le> bits \<Longrightarrow> bits < 2 ^ 256 \<Longrightarrow> \<exists>key. generate_random_private_key bits = Inr key \<and> length key = 32"
  by (simp add: generate_random_private_key_def to_bytes_big_def)

lemma ec_sign_parts:
  assumes "ec_sign sign digest key = Inr (v, r, s)"
  shows "sign key digest = Inr (v - 27, from_bytes_big r, from_bytes_big s) \<and> length r = 32 \<and> length s = 32"
  using assms
  by (auto simp: ec_sign_def bind_sum_def to_bytes_big_def from_bytes_be_bytes split: sum.splits if_splits)

end
