(* ===== verification/Config.thy ===== *)
theory Config
  imports World PyText
begin

text \<open>
  \<^verbatim>\<open>kakarot_scripts/constants.py\<close>: the table of networks, the choice of one by the process environment,
  the two chain ids, and the keys and addresses of the scripts.  The environment is a partial
  function from names to texts.  Importing the module runs all of this, so the module is one
  computation that gives the configuration or the exception that ends the import.  The answer of the
  node to \<^verbatim>\<open>starknet_chainId\<close>, the EVM node behind \<^verbatim>\<open>WEB3\<close>, the chain ids of starknet_py and the key
  derivation of eth_keys are parameters.
\<close>

section \<open>Texts\<close>

text \<open>\<^verbatim>\<open>float(text)\<close> for decimal notation, with a fraction and an exponent.  \<^verbatim>\<open>inf\<close>, \<^verbatim>\<open>nan\<close> and underscores
  between digits are not among the numbers of the model and are rejected.\<close>

definition exponent :: "string \<Rightarrow> int option" where
  "exponent r =
     (case r of
        [] \<Rightarrow> Some 0
      | c # t \<Rightarrow>
          let (sg, ds) = split_sign t
          in if c \<in> {CHR ''e'', CHR ''E''} \<and> ds \<noteq> [] \<and> list_all is_digit ds then Some (sg * dec_value ds)
             else None)"

definition pow10 :: "int \<Rightarrow> rat" where
  "pow10 k = (if 0 \<le> k then 10 ^ nat k else 1 / 10 ^ nat (- k))"

definition py_float :: "string \<Rightarrow> exn + rat" where
  "py_float s =
     (let (sg, u) = split_sign (py_strip s);
          whole = takeWhile is_digit u;
          after = dropWhile is_digit u;
          (frac, tail) = (case after of
             CHR ''.'' # t \<Rightarrow> (takeWhile is_digit t, dropWhile is_digit t) | _ \<Rightarrow> ([], after))
      in if whole @ frac = [] then Inl (ValueError ''could not convert string to float'')
         else case exponent tail of
           None \<Rightarrow> Inl (ValueError ''could not convert string to float'')
         | Some e \<Rightarrow> Inr (of_int sg * rnd (of_int (dec_value (whole @ frac)) * pow10 (e - int (length frac)))))"

lemma py_float_examples:
  "py_float ''30'' = Inr 30" "py_float ''2.5e-1'' = Inr (1 / 4)"
  "py_float '' .5 '' = Inr (1 / 2)" "py_float ''1s'' = Inl (ValueError ''could not convert string to float'')"
  by code_simp+

text \<open>\<^verbatim>\<open>f"{os.getenv(name)}"\<close> prints \<^verbatim>\<open>None\<close> for a variable that is not set.\<close>

definition shown :: "string option \<Rightarrow> string" where
  "shown x = (case x of None \<Rightarrow> ''None'' | Some t \<Rightarrow> t)"

definition getenv_or :: "(string \<Rightarrow> string option) \<Rightarrow> string \<Rightarrow> string \<Rightarrow> string" where
  "getenv_or os name alt = (case os name of None \<Rightarrow> alt | Some t \<Rightarrow> t)"

section \<open>The table of networks\<close>

definition max_safe_chain_id :: int where
  "max_safe_chain_id = 4503599627370476"

definition max_ledger_chain_id :: int where
  "max_ledger_chain_id = 2 ^ 32 - 1"

definition kkrt :: int where
  "kkrt = from_bytes_big [75, 75, 82, 84]"

text \<open>An entry of \<^verbatim>\<open>NETWORKS\<close>: a key that some entries lack is an option.\<close>

record net_conf =
  cf_name :: string
  cf_explorer_url :: string
  cf_rpc_url :: string
  cf_l1_rpc_url :: "string option"
  cf_type :: network_type
  cf_chain_id :: "int option"
  cf_check_interval :: pynum
  cf_max_wait :: pynum
  cf_class_hash :: "int option"
  cf_voyager_api_url :: "string option"
  cf_argent_multisig_api :: "string option"
  cf_token_addresses_file :: "string list option"

definition token_file :: "string \<Rightarrow> string list option" where
  "token_file name = Some [''starknet-addresses'', ''bridged_tokens'', name]"

definition account_class :: int where
  "account_class = 0x061DAC032F228ABEF9C6626F995015233097AE253A7F72D68552DB02F2971B8F"

definition sepolia_conf :: "(string \<Rightarrow> string option) \<Rightarrow> int \<Rightarrow> string \<Rightarrow> net_conf" where
  "sepolia_conf os sepolia_id name =
     \<lparr>cf_name = name, cf_explorer_url = ''https://sepolia.starkscan.co/'',
      cf_rpc_url = ''https://rpc.nethermind.io/sepolia-juno/?apikey='' @ shown (os ''NETHERMIND_API_KEY''),
      cf_l1_rpc_url = Some (''https://sepolia.infura.io/v3/'' @ shown (os ''INFURA_KEY'')),
      cf_type = StagingNet, cf_chain_id = Some (sepolia_id mod max_safe_chain_id),
      cf_check_interval = PInt 1, cf_max_wait = PInt 30, cf_class_hash = Some account_class,
      cf_voyager_api_url = Some ''https://sepolia-api.voyager.online/beta'',
      cf_argent_multisig_api = Some ''https://cloud.argent-api.com/v1/multisig/starknet/sepolia'',
      cf_token_addresses_file = token_file ''sepolia.json''\<rparr>"

definition local_conf :: "string \<Rightarrow> string \<Rightarrow> pynum \<Rightarrow> pynum \<Rightarrow> net_conf" where
  "local_conf name url interval wait =
     \<lparr>cf_name = name, cf_explorer_url = [], cf_rpc_url = url, cf_l1_rpc_url = Some ''http://127.0.0.1:8545'',
      cf_type = DevNet, cf_chain_id = None, cf_check_interval = interval, cf_max_wait = wait,
      cf_class_hash = None, cf_voyager_api_url = None, cf_argent_multisig_api = None,
      cf_token_addresses_file = None\<rparr>"

definition NETWORKS :: "(string \<Rightarrow> string option) \<Rightarrow> int \<Rightarrow> int \<Rightarrow> (string \<times> net_conf) list" where
  "NETWORKS os mainnet_id sepolia_id =
     [(''mainnet'',
       \<lparr>cf_name = ''mainnet'', cf_explorer_url = ''https://starkscan.co'',
        cf_rpc_url = ''https://rpc.nethermind.io/mainnet-juno/?apikey='' @ shown (os ''NETHERMIND_API_KEY''),
        cf_l1_rpc_url = Some (''https://mainnet.infura.io/v3/'' @ shown (os ''INFURA_KEY'')),
        cf_type = ProdNet, cf_chain_id = Some (mainnet_id mod max_ledger_chain_id),
        cf_check_interval = PInt 1, cf_max_wait = PInt 60, cf_class_hash = Some account_class,
        cf_voyager_api_url = Some ''https://api.voyager.online/beta'',
        cf_argent_multisig_api = Some ''https://cloud.argent-api.com/v1/multisig/starknet/mainnet'',
        cf_token_addresses_file = token_file ''mainnet.json''\<rparr>),
      (''sepolia'', sepolia_conf os sepolia_id ''sepolia''),
      (''staging'', sepolia_conf os sepolia_id ''staging''),
      (''staging-core'', sepolia_conf os sepolia_id ''staging-core''),
      (''starknet-devnet'',
       local_conf ''starknet-devnet'' ''http://127.0.0.1:5050/rpc'' (PFloat (rnd (1 / 100))) (PInt 3)),
      (''katana'',
       (local_conf ''katana'' (getenv_or os ''KATANA_RPC_URL'' ''http://127.0.0.1:5050'')
          (PFloat (rnd (1 / 100))) (PInt 3))
         \<lparr>cf_chain_id := Some (kkrt mod max_ledger_chain_id),
          cf_class_hash := Some 0x05400E90F7E0AE78BD02C77CD75527280470E2FE19C54970DD79DC37A9D3645C,
          cf_token_addresses_file := token_file ''sepolia.json''\<rparr>),
      (''madara'',
       local_conf ''madara'' (getenv_or os ''MADARA_RPC_URL'' ''http://127.0.0.1:9944'') (PInt 6) (PInt 30))]"

section \<open>Choosing a network\<close>

definition custom_conf :: "(string \<Rightarrow> string option) \<Rightarrow> string \<Rightarrow> exn + net_conf" where
  "custom_conf os url =
     bind_sum (case os ''CHECK_INTERVAL'' of None \<Rightarrow> Inr (rnd (1 / 10)) | Some t \<Rightarrow> py_float t) (\<lambda>interval.
     bind_sum (case os ''MAX_WAIT'' of None \<Rightarrow> Inr 30 | Some t \<Rightarrow> py_float t) (\<lambda>wait.
     Inr \<lparr>cf_name = getenv_or os ''RPC_NAME'' ''custom-rpc'', cf_explorer_url = [], cf_rpc_url = url,
       cf_l1_rpc_url = os ''L1_RPC_URL'', cf_type = ProdNet, cf_chain_id = None,
       cf_check_interval = PFloat interval, cf_max_wait = PFloat wait, cf_class_hash = None,
       cf_voyager_api_url = None, cf_argent_multisig_api = None, cf_token_addresses_file = None\<rparr>))"

definition select_network :: "(string \<Rightarrow> string option) \<Rightarrow> int \<Rightarrow> int \<Rightarrow> exn + net_conf" where
  "select_network os mainnet_id sepolia_id =
     (let networks = NETWORKS os mainnet_id sepolia_id
      in case os ''STARKNET_NETWORK'' of
           Some name \<Rightarrow>
             (case map_of networks name of
                Some n \<Rightarrow> Inr n
              | None \<Rightarrow> Inl (ValueError (''STARKNET_NETWORK '' @ name @ '' given in env variable unknown'')))
         | None \<Rightarrow>
             (case os ''RPC_URL'' of
                Some url \<Rightarrow> custom_conf os url
              | None \<Rightarrow> (case map_of networks ''katana'' of Some n \<Rightarrow> Inr n | None \<Rightarrow> Inl KeyError)))"

section \<open>The chain ids\<close>

text \<open>What the request for \<^verbatim>\<open>starknet_chainId\<close> comes to: one of the three connection errors that are
  caught, another exception, or the text of the result.\<close>

datatype probe = Unreachable | ProbeFails exn | Result string

definition chain_ids :: "net_conf \<Rightarrow> probe \<Rightarrow> int option \<Rightarrow> exn + int \<times> int" where
  "chain_ids n probe web3_chain =
     (case probe of
        Unreachable \<Rightarrow> Inr (kkrt, kkrt)
      | ProbeFails e \<Rightarrow> Inl e
      | Result t \<Rightarrow>
          bind_sum (int16 t) (\<lambda>starknet_chain_id.
          case web3_chain of
            Some c \<Rightarrow> Inr (c, starknet_chain_id)
          | None \<Rightarrow> (case cf_chain_id n of None \<Rightarrow> Inl KeyError | Some c \<Rightarrow> Inr (c, starknet_chain_id))))"

section \<open>Keys and addresses\<close>

definition env_prefix :: "string \<Rightarrow> string" where
  "env_prefix name = map (\<lambda>c. if c = CHR ''-'' then CHR ''_'' else c) (map upper name)"

text \<open>A variable of the network, or the general one.\<close>

definition fallback :: "(string \<Rightarrow> string option) \<Rightarrow> string \<Rightarrow> string \<Rightarrow> string option" where
  "fallback os p name = (case os (p @ ''_'' @ name) of None \<Rightarrow> os name | Some t \<Rightarrow> Some t)"

definition evm_key :: "(string \<Rightarrow> string option) \<Rightarrow> string \<Rightarrow> exn + byte list" where
  "evm_key os p =
     (case fallback os p ''EVM_PRIVATE_KEY'' of
        None \<Rightarrow> Inl (ValueError ''EVM_PRIVATE_KEY not set'')
      | Some t \<Rightarrow> fromhex (drop 2 t))"

text \<open>\<^verbatim>\<open>os.getenv(name) or default\<close>: an empty value counts as not set.\<close>

definition coinbase_recipient :: "(string \<Rightarrow> string option) \<Rightarrow> exn + int" where
  "coinbase_recipient os =
     int16 (case os ''KAKAROT_COINBASE_RECIPIENT'' of
        None \<Rightarrow> ''0x20eB005C0b9c906691F885eca5895338E15c36De''
      | Some t \<Rightarrow> if t = [] then ''0x20eB005C0b9c906691F885eca5895338E15c36De'' else t)"

definition chain_ascii :: "int \<Rightarrow> exn + byte list" where
  "chain_ascii chain_id = bind_sum (fromhex (fmt_hex 14 chain_id)) (\<lambda>bs. Inr (dropWhile (\<lambda>b. b = 0) bs))"

definition COMPILED_CONTRACTS :: "(string \<times> bool) list" where
  "COMPILED_CONTRACTS =
     [(''account_contract'', True), (''BalanceSender'', False), (''Counter'', False), (''ERC20'', False),
      (''EVM'', False), (''kakarot'', False), (''MockPragmaOracle'', False), (''MockPragmaSummaryStats'', False),
      (''OpenzeppelinAccount'', True), (''replace_class'', False), (''StarknetToken'', False),
      (''NonStandardStarknetToken'', False), (''uninitialized_account_fixture'', False),
      (''uninitialized_account'', False), (''UniversalLibraryCaller'', False), (''BenchmarkCairoCalls'', False)]"

definition DECLARED_CONTRACTS :: "string list" where
  "DECLARED_CONTRACTS =
     [''account_contract'', ''BalanceSender'', ''BenchmarkCairoCalls'', ''Cairo1Helpers'', ''Cairo1HelpersFixture'',
      ''Counter'', ''ERC20'', ''EVM'', ''kakarot'', ''MockPragmaOracle'', ''MockPragmaSummaryStats'',
      ''OpenzeppelinAccount'', ''replace_class'', ''StarknetToken'', ''NonStandardStarknetToken'',
      ''uninitialized_account_fixture'', ''uninitialized_account'', ''UniversalLibraryCaller'']"

section \<open>The module\<close>

record configuration =
  cg_network :: net_conf
  cg_chain_id :: int
  cg_starknet_chain_id :: int
  cg_coinbase :: int
  cg_evm_key :: "byte list"
  cg_evm_address :: int
  cg_account_address :: "string option"
  cg_private_key :: "string option"
  cg_chain_ascii :: "byte list"

definition load_constants ::
    "(byte list \<Rightarrow> exn + int) \<Rightarrow> (string \<Rightarrow> string option) \<Rightarrow> int \<Rightarrow> int \<Rightarrow> probe \<Rightarrow> int option \<Rightarrow>
       exn + configuration" where
  "load_constants address_of_key os mainnet_id sepolia_id probe web3_chain =
     bind_sum (select_network os mainnet_id sepolia_id) (\<lambda>n.
     bind_sum (chain_ids n probe web3_chain) (\<lambda>(chain_id, starknet_chain_id).
     bind_sum (coinbase_recipient os) (\<lambda>coinbase.
     let p = env_prefix (cf_name n)
     in bind_sum (evm_key os p) (\<lambda>key.
        bind_sum (address_of_key key) (\<lambda>address.
        bind_sum (chain_ascii chain_id) (\<lambda>ascii.
        bind_sum (fromhex (fmt_hex 0 starknet_chain_id)) (\<lambda>_.
        Inr \<lparr>cg_network = n\<lparr>cf_chain_id := Some chain_id\<rparr>, cg_chain_id = chain_id,
             cg_starknet_chain_id = starknet_chain_id, cg_coinbase = coinbase, cg_evm_key = key,
             cg_evm_address = address,
             cg_account_address = fallback os p ''ACCOUNT_ADDRESS'',
             cg_private_key = fallback os p ''PRIVATE_KEY'', cg_chain_ascii = ascii\<rparr>)))))))"

text \<open>The \<^verbatim>\<open>NETWORK\<close> dictionary as the other modules use it.\<close>

definition network_of :: "configuration \<Rightarrow> network" where
  "network_of c =
     (let n = cg_network c
      in \<lparr>nw_name = cf_name n, nw_type = cf_type n, nw_chain_id = cg_chain_id c,
          nw_check_interval = cf_check_interval n, nw_max_wait = cf_max_wait n,
          nw_class_hash = cf_class_hash n, nw_account_address = cg_account_address c,
          nw_private_key = cg_private_key c, nw_relayers = None,
          nw_argent_multisig_api = cf_argent_multisig_api n, nw_explorer_url = cf_explorer_url n\<rparr>)"

section \<open>What the import guarantees\<close>

lemma kkrt_val: "kkrt = 1263227476"
  by code_simp

text \<open>The entries of the table that have a chain id.\<close>

definition known_networks :: "string list" where
  "known_networks = [''mainnet'', ''sepolia'', ''staging'', ''staging-core'', ''katana'']"

lemma networks_chain_ids:
  assumes "map_of (NETWORKS os m s) name = Some n" and "cf_chain_id n = Some c"
  shows "0 \<le> c" "c < max_safe_chain_id" "cf_name n \<in> set known_networks"
proof -
  have "0 \<le> c \<and> c < max_safe_chain_id \<and> cf_name n \<in> set known_networks"
    using assms
    by (auto simp: NETWORKS_def sepolia_conf_def local_conf_def max_safe_chain_id_def max_ledger_chain_id_def
        known_networks_def kkrt_val split: if_splits intro: less_trans [OF pos_mod_bound])
  then show "0 \<le> c" "c < max_safe_chain_id" "cf_name n \<in> set known_networks" by blast+
qed

lemma custom_conf_chain_id: "custom_conf os url = Inr n \<Longrightarrow> cf_chain_id n = None"
  by (auto simp: custom_conf_def elim!: bind_sum_InrE)

lemma select_network_cases:
  assumes "select_network os m s = Inr n"
  shows "(\<exists>name. map_of (NETWORKS os m s) name = Some n) \<or> cf_chain_id n = None"
  using assms custom_conf_chain_id
  by (auto simp: select_network_def Let_def split: option.splits)

lemma select_chain_id:
  assumes "select_network os m s = Inr n" and "cf_chain_id n = Some c"
  shows "0 \<le> c" "c < max_safe_chain_id" "cf_name n \<in> set known_networks"
proof -
  from select_network_cases [OF assms(1)] assms(2)
  obtain name where "map_of (NETWORKS os m s) name = Some n" by auto
  from networks_chain_ids [OF this assms(2)]
  show "0 \<le> c" "c < max_safe_chain_id" "cf_name n \<in> set known_networks" .
qed

lemma from_bytes_big_zeros: "from_bytes_big (dropWhile (\<lambda>b. b = 0) bs) = from_bytes_big bs"
proof (induction bs)
  case (Cons b bs)
  have "from_bytes_big (0 # bs) = from_bytes_big bs"
    using from_bytes_append [of "[0]" bs] by (simp add: from_bytes_big_def [of "[0]"] of_digits_def byte_val_def)
  with Cons show ?case by simp
qed simp

lemma chain_ascii_value:
  assumes "0 \<le> c" and "c < 16 ^ 14"
  shows "\<exists>ascii. chain_ascii c = Inr ascii \<and> from_bytes_big ascii = c \<and> length ascii \<le> 7"
proof -
  have b: "from_bytes_big (be_bytes 7 c) = c" using assms by (intro from_bytes_be_bytes) simp_all
  have "fmt_hex 14 c = hex_digits 14 c" using assms by (intro fmt_hex_fits) simp_all
  also have "\<dots> = bytes_hex (be_bytes 7 c)" using b by (simp add: bytes_hex_number)
  finally have "chain_ascii c = Inr (dropWhile (\<lambda>b. b = 0) (be_bytes 7 c))"
    by (simp add: chain_ascii_def)
  moreover have "length (dropWhile (\<lambda>b. b = 0) (be_bytes 7 c)) \<le> 7"
    using length_dropWhile_le [of "\<lambda>b. b = 0" "be_bytes 7 c"] by simp
  ultimately show ?thesis using b by (simp add: from_bytes_big_zeros)
qed

lemma chain_ids_cases:
  assumes "select_network os m s = Inr n" and "chain_ids n probe None = Inr (c, sc)"
  shows "0 \<le> c" "c < max_safe_chain_id"
proof -
  have "0 \<le> c \<and> c < max_safe_chain_id"
  proof (cases probe)
    case (Result t)
    with assms(2) have "cf_chain_id n = Some c"
      by (auto simp: chain_ids_def elim!: bind_sum_InrE split: option.splits)
    with select_chain_id [OF assms(1)] show ?thesis by blast
  qed (use assms(2) in \<open>auto simp: chain_ids_def kkrt_val max_safe_chain_id_def\<close>)
  then show "0 \<le> c" "c < max_safe_chain_id" by blast+
qed


definition dev_os :: "string \<Rightarrow> string option" where
  "dev_os = map_of [(''EVM_PRIVATE_KEY'', ''0x01''), (''KAKAROT_COINBASE_RECIPIENT'', ''0x1''),
      (''ACCOUNT_ADDRESS'', ''0x1''), (''KATANA_PRIVATE_KEY'', ''0x2'')]"

lemma katana_network: "map_of (NETWORKS os m s) ''katana'' = Some (snd (NETWORKS os m s ! 5))"
    "cf_name (snd (NETWORKS os m s ! 5)) = ''katana''"
  by (simp_all add: NETWORKS_def local_conf_def)

lemma dev_prefix: "env_prefix ''katana'' = ''KATANA''"
  by code_simp

lemma dev_coinbase: "int16 ''0x1'' = Inr 1"
  by code_simp

lemma dev_ascii: "\<exists>ascii. chain_ascii kkrt = Inr ascii" "\<exists>bs. fromhex (fmt_hex 0 kkrt) = Inr bs"
    "\<exists>bs. fromhex ''01'' = Inr bs"
proof -
  show "\<exists>ascii. chain_ascii kkrt = Inr ascii"
    using chain_ascii_value [of kkrt, unfolded kkrt_val] unfolding kkrt_val by fastforce
  have "ndigits 16 1263227476 = 8" by (simp add: ndigits.simps)
  then have "fmt_hex 0 1263227476 = hex_digits 8 1263227476" by (simp add: fmt_hex_def)
  then have "fmt_hex 0 kkrt = bytes_hex [75, 75, 82, 84]"
    unfolding bytes_hex_number kkrt_val [symmetric] by (simp add: kkrt_def)
  then show "\<exists>bs. fromhex (fmt_hex 0 kkrt) = Inr bs" by (metis fromhex_bytes_hex)
  have "hex_digits 2 1 = ''01''" by code_simp
  then have "''01'' = bytes_hex [1]" by (simp add: byte_val_def)
  then show "\<exists>bs. fromhex ''01'' = Inr bs" by (metis fromhex_bytes_hex)
qed

lemma dev_os_load: "\<exists>cg. load_constants (\<lambda>k. Inr 7) dev_os 0 0 Unreachable None = Inr cg"
proof -
  let ?n = "snd (NETWORKS dev_os 0 0 ! 5)"
  have "select_network dev_os 0 0 = Inr ?n"
    using katana_network(1) [of dev_os 0 0] by (simp add: select_network_def Let_def) (simp add: dev_os_def)
  moreover have "chain_ids ?n Unreachable None = Inr (kkrt, kkrt)"
    by (simp add: chain_ids_def)
  moreover have "coinbase_recipient dev_os = Inr 1"
    using dev_coinbase by (simp add: coinbase_recipient_def dev_os_def)
  moreover have "\<exists>key. evm_key dev_os ''KATANA'' = Inr key"
    using dev_ascii(3) by (simp add: evm_key_def fallback_def dev_os_def)
  ultimately show ?thesis
    using dev_ascii(1,2) by (auto simp: load_constants_def katana_network(2) dev_prefix Let_def)
qed


text \<open>A network whose node answers can be used without an EVM node only if the table gives it a
  chain id: the configuration by \<^verbatim>\<open>RPC_URL\<close>, the development network of Starknet and Madara all end the
  import with a \<open>KeyError\<close>, because only connection errors are caught there.\<close>

theorem reachable_needs_chain_id:
  assumes "select_network os m s = Inr n" and "int16 t = Inr sc"
  shows "(cf_name n \<notin> set known_networks \<or> os ''STARKNET_NETWORK'' = None \<and> os ''RPC_URL'' \<noteq> None \<longrightarrow>
      load_constants address_of_key os m s (Result t) None = Inl KeyError) \<and>
    (\<forall>cg. load_constants address_of_key os m s (Result t) None = Inr cg \<longrightarrow>
      cf_name (cg_network cg) \<in> set known_networks)"
proof -
  have custom: "os ''STARKNET_NETWORK'' = None \<Longrightarrow> os ''RPC_URL'' \<noteq> None \<Longrightarrow> cf_chain_id n = None"
    using assms(1) custom_conf_chain_id by (auto simp: select_network_def Let_def)
  have unknown: "cf_chain_id n = None" if "cf_name n \<notin> set known_networks"
    using select_chain_id(3) [OF assms(1)] that by (cases "cf_chain_id n") auto
  have stop: "cf_chain_id n = None \<Longrightarrow> load_constants address_of_key os m s (Result t) None = Inl KeyError"
    using assms by (simp add: load_constants_def chain_ids_def)
  have "cf_name (cg_network cg) = cf_name n"
    if "load_constants address_of_key os m s (Result t) None = Inr cg" for cg
    using that assms(1) by (auto simp: load_constants_def Let_def elim!: bind_sum_InrE)
  with custom unknown stop show ?thesis by (metis sum.distinct(1))
qed

lemma reachable_needs_chain_id_witness:
  "load_constants (\<lambda>k. Inr 7) (dev_os(''RPC_URL'' \<mapsto> ''http://127.0.0.1:9545'')) 0 0 (Result ''0x534e'') None =
     Inl KeyError"
proof -
  let ?os = "dev_os(''RPC_URL'' \<mapsto> ''http://127.0.0.1:9545'')"
  have "\<exists>n. select_network ?os 0 0 = Inr n"
    by (simp add: select_network_def dev_os_def custom_conf_def)
  then obtain n where n: "select_network ?os 0 0 = Inr n" by blast
  have "int16 ''0x534e'' = Inr 21326" by code_simp
  from reachable_needs_chain_id [OF n this, of "\<lambda>k. Inr 7"] show ?thesis
    by (simp add: dev_os_def)
qed

end
