(* ===== verification/Setup.thy ===== *)
theory Setup
  imports PyHex PyText
begin

text \<open>
  \<^verbatim>\<open>kakarot_scripts/setup/setup.py\<close>: the script that installs the development tools.  The state is the
  list of shell commands run so far.  What a command does to the machine is a parameter: whether it
  succeeded, which programs are found and what they print for \<^verbatim>\<open>--version\<close> depend on the commands run.
\<close>

record host =
  ran :: "string list"

record machine =
  succeeds :: "string list \<Rightarrow> bool"
  failure_text :: "string \<Rightarrow> string"
  found :: "string list \<Rightarrow> string \<Rightarrow> bool"
  version_output :: "string list \<Rightarrow> string \<Rightarrow> exn + string"
  on_darwin :: bool
  shell_var :: "string option"
  home_dir :: string
  path_exists :: "string \<Rightarrow> bool"

section \<open>Operations\<close>

definition run_command :: "machine \<Rightarrow> string \<Rightarrow> string \<Rightarrow> (host, unit) py" where
  "run_command M command error_message =
     seq (modify (\<lambda>s. s\<lparr>ran := ran s @ [command]\<rparr>))
         (\<lambda>s. if succeeds M (ran s) then Ret () s
              else Exc (SetupError (error_message @ '': '' @ failure_text M command)) s)"

definition is_command_available :: "machine \<Rightarrow> string \<Rightarrow> (host, bool) py" where
  "is_command_available M command = gets (\<lambda>s. found M (ran s) command)"

text \<open>\<^verbatim>\<open>subprocess.run\<close> without \<^verbatim>\<open>check=True\<close> raises no \<^verbatim>\<open>CalledProcessError\<close>: the handler is never used.\<close>

definition get_version :: "machine \<Rightarrow> string \<Rightarrow> (host, string option) py" where
  "get_version M command s =
     (case version_output M (ran s) command of Inl e \<Rightarrow> Exc e s | Inr out \<Rightarrow> Ret (Some (py_strip out)) s)"

definition shell_config_files :: "string \<Rightarrow> string list" where
  "shell_config_files shell =
     (if shell = ''bash'' then [''.bashrc'', ''.bash_profile'']
      else if shell = ''zsh'' then [''.zshrc'']
      else if shell = ''fish'' then [''.config/fish/config.fish''] else [])"

definition path_join :: "string \<Rightarrow> string \<Rightarrow> string" where
  "path_join a b =
     (if prefix ''/'' b then b else if a = [] \<or> suffix ''/'' a then a @ b else a @ ''/'' @ b)"

definition get_shell_config_file :: "machine \<Rightarrow> string option" where
  "get_shell_config_file M =
     (let shell = last (split_on (CHR ''/'') (case shell_var M of None \<Rightarrow> [] | Some t \<Rightarrow> t))
      in find (path_exists M) (map (path_join (home_dir M)) (shell_config_files shell)))"

definition install_dependency ::
    "machine \<Rightarrow> string \<Rightarrow> string \<Rightarrow> string \<Rightarrow> string option \<Rightarrow> (host, unit) py" where
  "install_dependency M name install_command check_command version =
     bnd (is_command_available M check_command) (\<lambda>available.
     bnd (if available
          then (case version of
                  None \<Rightarrow> ret True
                | Some v \<Rightarrow>
                    if v = [] then ret True
                    else bnd (get_version M check_command) (\<lambda>current_version.
                         ret (current_version = Some v)))
          else ret False) (\<lambda>installed.
     if installed then ret ()
     else run_command M install_command (''Failed to install/update '' @ name)))"

definition katana_version :: string where
  "katana_version = ''v1.0.0-alpha.16''"

definition setup_katana :: "machine \<Rightarrow> (host, unit) py" where
  "setup_katana M =
     install_dependency M ''katana''
       (''cargo install --git https://github.com/dojoengine/dojo --locked --tag '' @
        [CHR 0x22] @ katana_version @ [CHR 0x22] @ '' katana'') ''katana'' (Some katana_version)"

definition setup_asdf :: "machine \<Rightarrow> (host, unit) py" where
  "setup_asdf M =
     bnd (is_command_available M ''asdf'') (\<lambda>available.
     if available then ret ()
     else
       seq (run_command M ''git clone https://github.com/asdf-vm/asdf.git ~/.asdf --branch v0.14.1''
              ''Failed to install asdf'')
           (case get_shell_config_file M of
              Some shell_config \<Rightarrow>
                if shell_config = [] then ret ()
                else run_command M
                  (''echo '' @ [CHR 0x27] @ ''. $HOME/.asdf/asdf.sh'' @ [CHR 0x27] @ '' >> '' @ shell_config)
                  ''Failed to source asdf environment''
            | None \<Rightarrow> ret ()))"

definition setup_local :: "machine \<Rightarrow> (host, unit) py" where
  "setup_local M =
     seq (install_dependency M ''jq''
            (if on_darwin M then ''brew install jq'' else ''sudo apt-get install -y jq'') ''jq'' None)
    (seq (install_dependency M ''cargo'' ''curl https://sh.rustup.rs -sSf | sh -s -- -y'' ''cargo'' None)
    (seq (run_command M ''. $HOME/.cargo/env'' ''Failed to source cargo environment'')
    (seq (install_dependency M ''uv'' ''curl -LsSf https://astral.sh/uv/install.sh | sh'' ''uv'' None)
    (seq (install_dependency M ''foundry''
            ''curl -L https://foundry.paradigm.xyz | bash && exec $SHELL && foundryup -v nightly-a79dfaed6fc6f88cda5f314a25d1b484d9d8c051''
            ''forge'' None)
    (seq (setup_asdf M)
    (seq (run_command M ''asdf plugin add scarb && asdf plugin add starknet-foundry || true''
            ''Failed to add asdf plugins'')
    (seq (run_command M ''asdf install'' ''Failed to install asdf tools'')
    (seq (install_dependency M ''go''
            (if on_darwin M then ''brew install go'' else ''sudo apt-get install -y golang-go'') ''go'' None)
         (setup_katana M)))))))))"

text \<open>The exit status of the script.\<close>

definition setup_main :: "machine \<Rightarrow> string list \<Rightarrow> (host, nat) py" where
  "setup_main M argv =
     try_except
       (seq (if 1 < length argv \<and> argv ! 1 = ''katana'' then setup_katana M else setup_local M) (ret 0))
       (\<lambda>e. case e of SetupError _ \<Rightarrow> ret 1 | _ \<Rightarrow> raise e)"

section \<open>Nothing runs after a failure\<close>

text \<open>All of the commands \<open>cs\<close>, run after \<open>h\<close>, succeeded.\<close>

fun all_ok :: "machine \<Rightarrow> string list \<Rightarrow> string list \<Rightarrow> bool" where
  "all_ok M h [] = True"
| "all_ok M h (c # cs) = (succeeds M (h @ [c]) \<and> all_ok M (h @ [c]) cs)"

lemma all_ok_append: "all_ok M h (cs @ ds) \<longleftrightarrow> all_ok M h cs \<and> all_ok M (h @ cs) ds"
  by (induction cs arbitrary: h) simp_all

definition is_setup_error :: "exn \<Rightarrow> bool" where
  "is_setup_error e = (case e of SetupError _ \<Rightarrow> True | _ \<Rightarrow> False)"

definition orderly :: "machine \<Rightarrow> (host, 'a) py \<Rightarrow> bool" where
  "orderly M m \<longleftrightarrow> (\<forall>s. case m s of
       Ret x t \<Rightarrow> (\<exists>cs. ran t = ran s @ cs \<and> all_ok M (ran s) cs)
     | Exc e t \<Rightarrow> (\<exists>cs. ran t = ran s @ cs \<and>
         (if is_setup_error e
          then cs \<noteq> [] \<and> all_ok M (ran s) (butlast cs) \<and> \<not> succeeds M (ran t)
          else all_ok M (ran s) cs))
     | Diverge \<Rightarrow> False)"

named_theorems orderly_rules \<open>composition of orderly computations\<close>

lemma orderly_pure [orderly_rules]: "orderly M (ret x)" "orderly M (gets f)"
  by (auto simp: orderly_def py_run)

lemma orderly_run [orderly_rules]: "orderly M (run_command M c msg)"
  by (auto simp: orderly_def run_command_def py_run is_setup_error_def)

lemma orderly_bnd [orderly_rules]:
  assumes "orderly M m" and "\<And>x. orderly M (f x)"
  shows "orderly M (bnd m f)"
  unfolding orderly_def
proof
  fix s
  note m = assms(1) [unfolded orderly_def, rule_format, of s]
  show "case bnd m f s of
       Ret x t \<Rightarrow> (\<exists>cs. ran t = ran s @ cs \<and> all_ok M (ran s) cs)
     | Exc e t \<Rightarrow> (\<exists>cs. ran t = ran s @ cs \<and>
         (if is_setup_error e
          then cs \<noteq> [] \<and> all_ok M (ran s) (butlast cs) \<and> \<not> succeeds M (ran t)
          else all_ok M (ran s) cs))
     | Diverge \<Rightarrow> False"
  proof (cases "m s")
    case (Ret x t)
    with m obtain cs where cs: "ran t = ran s @ cs" "all_ok M (ran s) cs" by auto
    note f = assms(2) [of x, unfolded orderly_def, rule_format, of t]
    show ?thesis
    proof (cases "f x t")
      case r: (Ret y u)
      with f cs Ret show ?thesis by (auto simp: bnd_def all_ok_append)
    next
      case r: (Exc e u)
      with f cs obtain ds where ds: "ran u = ran s @ (cs @ ds)"
        "if is_setup_error e then ds \<noteq> [] \<and> all_ok M (ran s @ cs) (butlast ds) \<and> \<not> succeeds M (ran u)
         else all_ok M (ran s @ cs) ds"
        by (auto split: if_splits)
      with cs have "if is_setup_error e
          then cs @ ds \<noteq> [] \<and> all_ok M (ran s) (butlast (cs @ ds)) \<and> \<not> succeeds M (ran u)
          else all_ok M (ran s) (cs @ ds)"
        by (auto simp: all_ok_append butlast_append)
      with ds Ret r show ?thesis by (auto simp: bnd_def)
    next
      case Diverge
      with f show ?thesis by simp
    qed
  next
    case (Exc e t)
    with m show ?thesis by (simp add: bnd_def)
  next
    case Diverge
    with m show ?thesis by simp
  qed
qed

lemma orderly_seq [orderly_rules]: "orderly M m \<Longrightarrow> orderly M k \<Longrightarrow> orderly M (seq m k)"
  unfolding seq_def by (rule orderly_bnd)

lemma orderly_version:
  assumes "\<And>h c e. version_output M h c = Inl e \<Longrightarrow> \<not> is_setup_error e"
  shows "orderly M (get_version M c)"
  using assms by (auto simp: orderly_def get_version_def split: sum.split)

lemma orderly_install:
  assumes "\<And>h c e. version_output M h c = Inl e \<Longrightarrow> \<not> is_setup_error e"
  shows "orderly M (install_dependency M name cmd check v)"
  unfolding install_dependency_def is_command_available_def
  by (auto intro!: orderly_rules orderly_version assms split: option.split)

lemma orderly_setup:
  assumes "\<And>h c e. version_output M h c = Inl e \<Longrightarrow> \<not> is_setup_error e"
  shows "orderly M (if katana then setup_katana M else setup_local M)"
  unfolding setup_katana_def setup_local_def setup_asdf_def is_command_available_def
  by (auto intro!: orderly_rules orderly_install assms split: option.split)

text \<open>C34. The installer stops at the first command that fails: it exits with status 0 only if every
  command it ran succeeded, and with status 1 only if the last one failed and all before it
  succeeded.  (Asking a program for its version raises no setup error of its own.)\<close>

theorem setup_stops_at_failure:
  assumes "\<And>h c e. version_output M h c = Inl e \<Longrightarrow> \<not> is_setup_error e"
    and "setup_main M argv s = Ret status t"
  shows "\<exists>cs. ran t = ran s @ cs \<and>
    (status = 0 \<and> all_ok M (ran s) cs \<or>
     status = 1 \<and> cs \<noteq> [] \<and> all_ok M (ran s) (butlast cs) \<and> \<not> succeeds M (ran t))"
proof -
  let ?body = "if 1 < length argv \<and> argv ! 1 = ''katana'' then setup_katana M else setup_local M"
  have o: "orderly M ?body" by (rule orderly_setup [OF assms(1)])
  note b = o [unfolded orderly_def, rule_format, of s]
  show ?thesis
  proof (cases "?body s")
    case (Ret x u)
    with assms(2) have "status = 0 \<and> t = u"
      unfolding setup_main_def try_except_def seq_def bnd_def ret_def by simp
    with b Ret show ?thesis by auto
  next
    case (Exc e u)
    then have "status = 1 \<and> t = u \<and> is_setup_error e"
      using assms(2) unfolding setup_main_def try_except_def seq_def bnd_def ret_def raise_def is_setup_error_def
      by (auto split: exn.splits)
    with b Exc show ?thesis by auto
  next
    case Diverge
    with b show ?thesis by simp
  qed
qed

text \<open>A machine on which nothing is installed and the network is down from the second command on.\<close>

definition bare_machine :: machine where
  "bare_machine = \<lparr>succeeds = (\<lambda>h. length h < 2), failure_text = (\<lambda>c. c), found = (\<lambda>h c. False),
     version_output = (\<lambda>h c. Inr []), on_darwin = False, shell_var = None, home_dir = [],
     path_exists = (\<lambda>p. False)\<rparr>"

lemma setup_stops_at_failure_witness:
  "\<exists>t. setup_main bare_machine [''setup.py''] \<lparr>ran = []\<rparr> = Ret 1 t \<and> length (ran t) = 2 \<and>
     \<not> succeeds bare_machine (ran t)"
proof -
  obtain t where run: "setup_main bare_machine [''setup.py''] \<lparr>ran = []\<rparr> = Ret 1 t" and "length (ran t) = 2"
    by (simp add: setup_main_def setup_local_def install_dependency_def is_command_available_def
        run_command_def py_run bare_machine_def)
  moreover have "\<not> is_setup_error e" if "version_output bare_machine h c = Inl e" for h c e
    using that by (simp add: bare_machine_def)
  ultimately show ?thesis using setup_stops_at_failure [OF _ run] by auto
qed

section \<open>Running it again\<close>

text \<open>A tool that is found, in the wanted version where one is wanted, is not installed again; in every
  other case exactly the install command is run.\<close>

lemma install_present:
  assumes "found M (ran s) check"
    and "\<And>v. version = Some v \<Longrightarrow> \<exists>out. version_output M (ran s) check = Inr out \<and> py_strip out = v"
  shows "install_dependency M name cmd check version s = Ret () s"
  using assms by (auto simp: install_dependency_def is_command_available_def get_version_def py_run split: option.split)

lemma install_missing:
  assumes "\<not> found M (ran s) check"
  shows "install_dependency M name cmd check version s =
    run_command M cmd (''Failed to install/update '' @ name) s"
  using assms by (simp add: install_dependency_def is_command_available_def py_run)

end
