(* ===== verification/EfTests.thy ===== *)
theory EfTests
  imports PyHex PyText "HOL-Library.AList"
begin

text \<open>
  The Ethereum Foundation tests: \<^verbatim>\<open>kakarot_scripts/ef_tests/fetch.py\<close> selects the test cases of the archive,
  and \<^verbatim>\<open>kakarot_scripts/ef_tests/debug.py\<close> replays one on a local Anvil node and compares the state it
  leaves.  A test file is given as parsed JSON; decoding its block, checksumming addresses and the
  node are parameters.  The node's answers depend on the requests that changed it.  Messages of errors
  are shortened.
\<close>

section \<open>Selecting the test cases\<close>

text \<open>\<^verbatim>\<open>os.walk\<close> gives the directories with their files, and a file holds named cases; of a case only its
  network is looked at.\<close>

record 'c case_entry =
  ce_network :: "string option"
  ce_content :: 'c

text \<open>\<^verbatim>\<open>name.split("::")[-1]\<close> and \<^verbatim>\<open>os.path.basename(root)\<close>\<close>

fun after_last_colons :: "string \<Rightarrow> string" where
  "after_last_colons [] = []"
| "after_last_colons (c # s) =
     (if prefix ''::'' (c # s) then after_last_colons (drop 1 s)
      else if contains ''::'' s then after_last_colons s else c # s)"

definition basename :: "string \<Rightarrow> string" where
  "basename path = last (split_on (CHR ''/'') path)"

definition default_network :: string where
  "default_network = ''Cancun''"

definition json_files :: "(string \<times> string list) list \<Rightarrow> (string \<Rightarrow> bool) \<Rightarrow> (string \<times> string) list" where
  "json_files walk wanted =
     concat (map (\<lambda>(root, files). map (Pair root)
       (filter (\<lambda>f. suffix ''.json'' f \<and> wanted root) files)) walk)"

definition is_state_root :: "string \<Rightarrow> bool" where
  "is_state_root root \<longleftrightarrow> contains ''BlockchainTests/GeneralStateTests'' root \<and> \<not> contains ''Pyspecs'' root"

definition is_pyspec_root :: "string \<Rightarrow> bool" where
  "is_pyspec_root root \<longleftrightarrow> contains ''BlockchainTests/GeneralStateTests/Pyspecs'' root"

text \<open>A comprehension over the cases of the files: later entries of the same name replace earlier ones.\<close>

definition gather ::
    "(string \<Rightarrow> string \<Rightarrow> exn + (string \<times> 'c case_entry) list) \<Rightarrow> (string \<times> string) list \<Rightarrow>
     (string \<Rightarrow> 'c case_entry \<Rightarrow> bool) \<Rightarrow> (string \<Rightarrow> string \<Rightarrow> string) \<Rightarrow> exn + (string \<times> 'c case_entry) list" where
  "gather read_json files keep name_of =
     bind_sum (map_sum_list (\<lambda>(root, f). bind_sum (read_json root f) (\<lambda>entries.
        Inr (map (\<lambda>(n, e). (name_of root n, e)) (filter (\<lambda>(n, e). keep n e) entries)))) files) (\<lambda>groups.
     Inr (fold (\<lambda>(n, e). AList.update n e) (concat groups) []))"

definition ef_tests_tag :: string where
  "ef_tests_tag = ''v14.1.3-kkrt''"

definition ef_tests_url :: string where
  "ef_tests_url = ''https://github.com/kkrt-labs/tests/archive/refs/tags/'' @ ef_tests_tag @ ''.tar.gz''"

text \<open>The archive is fetched when its directory is not \<open>present\<close>; \<open>walk\<close> is what the directory holds then.  A file that
  cannot be written is passed over.\<close>

definition generate_tests ::
    "bool \<Rightarrow> (string \<Rightarrow> exn + unit) \<Rightarrow> (string \<Rightarrow> string \<Rightarrow> exn + (string \<times> 'c case_entry) list) \<Rightarrow>
     (string \<times> string list) list \<Rightarrow> (string \<Rightarrow> bool) \<Rightarrow> exn + (string \<times> 'c) list" where
  "generate_tests present fetch read_json walk writable =
     bind_sum (if present then Inr () else fetch ef_tests_url) (\<lambda>_.
     bind_sum (gather read_json (json_files walk is_state_root)
        (\<lambda>n e. ce_network e = Some default_network) (\<lambda>root n. basename root @ ''_'' @ n)) (\<lambda>state_cases.
     bind_sum (gather read_json (json_files walk is_pyspec_root)
        (\<lambda>n e. contains (''fork_'' @ default_network) n) (\<lambda>root n. after_last_colons n)) (\<lambda>pyspec_cases.
     let test_cases = fold (\<lambda>(n, e). AList.update n e) pyspec_cases state_cases
     in Inr (map (\<lambda>(n, e). (n @ ''.json'', ce_content e)) (filter (\<lambda>(n, e). writable n) test_cases)))))"

text \<open>Only cases of the network are written, each with its content, from a JSON file of the directory it belongs to.\<close>

definition case_of ::
    "(string \<Rightarrow> string \<Rightarrow> exn + (string \<times> 'c case_entry) list) \<Rightarrow> (string \<times> string) list \<Rightarrow>
     (string \<Rightarrow> 'c case_entry \<Rightarrow> bool) \<Rightarrow> (string \<Rightarrow> string \<Rightarrow> string) \<Rightarrow> string \<Rightarrow> 'c case_entry \<Rightarrow> bool" where
  "case_of read_json files keep name_of n e \<longleftrightarrow> (\<exists>root f entries name. (root, f) \<in> set files \<and>
     read_json root f = Inr entries \<and> (name, e) \<in> set entries \<and> keep name e \<and> n = name_of root name)"

lemma update_set: "set (AList.update k v al) \<subseteq> insert (k, v) (set al)"
  by (induction al) auto

lemma fold_update_set: "set (fold (\<lambda>(n, e). AList.update n e) kvs al) \<subseteq> set kvs \<union> set al"
proof (induction kvs arbitrary: al)
  case (Cons kv kvs)
  obtain k v where kv: "kv = (k, v)" by (cases kv)
  show ?case using Cons.IH [of "AList.update k v al"] update_set [of k v al] kv by auto
qed simp

lemma gather_sound:
  assumes "gather read_json files keep name_of = Inr cases" and "(n, e) \<in> set cases"
  shows "case_of read_json files keep name_of n e"
proof -
  let ?g = "\<lambda>(root, f). bind_sum (read_json root f) (\<lambda>entries.
    Inr (map (\<lambda>(n, e). (name_of root n, e)) (filter (\<lambda>(n, e). keep n e) entries)))"
  obtain groups where g: "map_sum_list ?g files = Inr groups"
    and c: "cases = fold (\<lambda>(n, e). AList.update n e) (concat groups) []"
    using assms(1) by (auto simp: gather_def elim!: bind_sum_InrE)
  have "(n, e) \<in> set (concat groups)" using assms(2) fold_update_set [of "concat groups" "[]"] c by auto
  then obtain group where group: "group \<in> set groups" and ne: "(n, e) \<in> set group" by auto
  from map_sum_list_set [OF g group] obtain root f entries where "(root, f) \<in> set files" "read_json root f = Inr entries"
    and "group = map (\<lambda>(n, e). (name_of root n, e)) (filter (\<lambda>(n, e). keep n e) entries)"
    by (auto elim!: bind_sum_InrE)
  with ne show ?thesis unfolding case_of_def by auto
qed

theorem generate_tests_sound:
  assumes "generate_tests present fetch read_json walk writable = Inr written" and "(file, content) \<in> set written"
  shows "\<exists>n e. file = n @ ''.json'' \<and> content = ce_content e \<and> writable n \<and>
    (case_of read_json (json_files walk is_state_root) (\<lambda>name e. ce_network e = Some default_network)
       (\<lambda>root name. basename root @ ''_'' @ name) n e \<or>
     case_of read_json (json_files walk is_pyspec_root) (\<lambda>name e. contains (''fork_'' @ default_network) name)
       (\<lambda>root name. after_last_colons name) n e)"
proof -
  obtain state_cases pyspec_cases where
    "gather read_json (json_files walk is_state_root)
       (\<lambda>n e. ce_network e = Some default_network) (\<lambda>root n. basename root @ ''_'' @ n) = Inr state_cases"
    "gather read_json (json_files walk is_pyspec_root)
       (\<lambda>n e. contains (''fork_'' @ default_network) n) (\<lambda>root n. after_last_colons n) = Inr pyspec_cases"
    and w: "written = map (\<lambda>(n, e). (n @ ''.json'', ce_content e))
      (filter (\<lambda>(n, e). writable n) (fold (\<lambda>(n, e). AList.update n e) pyspec_cases state_cases))"
    using assms(1) unfolding generate_tests_def by (auto simp: Let_def elim!: bind_sum_InrE)
  note sound = gather_sound [OF this(1)] gather_sound [OF this(2)]
  obtain n e where "file = n @ ''.json''" "content = ce_content e" "writable n"
    and "(n, e) \<in> set (fold (\<lambda>(n, e). AList.update n e) pyspec_cases state_cases)"
    using assms(2) unfolding w by auto
  moreover from this(4) have "(n, e) \<in> set pyspec_cases \<or> (n, e) \<in> set state_cases"
    using fold_update_set [of pyspec_cases state_cases] by auto
  ultimately show ?thesis using sound by blast
qed

section \<open>Choosing the test to debug\<close>

definition matching_tests :: "string \<Rightarrow> string \<Rightarrow> string list \<Rightarrow> string list" where
  "matching_tests test_name folder files = filter (\<lambda>f. contains test_name f \<and> contains folder f) files"

definition get_test_file ::
    "string \<Rightarrow> string \<Rightarrow> string list \<Rightarrow> (string \<Rightarrow> exn + 't) \<Rightarrow> exn + 't" where
  "get_test_file test_name folder files read_json =
     (case matching_tests test_name folder files of
        [] \<Rightarrow> if 255 < length test_name then Inl (ValueError ''exceeds the maximum length of 255 characters'')
              else Inl (ValueError ''not found'')
      | [t] \<Rightarrow> read_json t
      | _ \<Rightarrow> if folder = [] then Inl (ValueError ''is ambiguous'') else Inl (ValueError ''not found''))"

text \<open>A test is chosen exactly when one file name holds both texts.\<close>

lemma get_test_file_unique:
  assumes "\<And>f. \<exists>t. read_json f = Inr t"
  shows "(\<exists>t. get_test_file test_name folder files read_json = Inr t) \<longleftrightarrow>
    length (matching_tests test_name folder files) = 1"
  using assms
  by (auto simp: get_test_file_def length_Suc_conv split: list.split)

section \<open>The node and the test\<close>

record json_account =
  ja_balance :: string
  ja_nonce :: string
  ja_code :: string
  ja_storage :: "(string \<times> string) list"

record block_tx =
  bt_chain_id :: "int option"
  bt_encoded :: "byte list"

record block =
  bk_timestamp :: int
  bk_coinbase :: "byte list"
  bk_base_fee :: int
  bk_gas_limit :: int
  bk_transactions :: "block_tx list"

record ef_test =
  et_block_rlp :: string
  et_pre :: "(string \<times> json_account) list"
  et_post :: "(string \<times> json_account) list"

datatype request =
    SetCode string string
  | SetBalance string string
  | SetNonce string string
  | SetStorageAt string string string
  | SetChainId int
  | SetCoinbase string
  | SetNextBlockBaseFee int
  | SetBlockGasLimit int
  | SendRaw "byte list"
  | AwaitReceipt string
  | CastRun string
  | CopyText string

record node =
  n_decode_block :: "byte list \<Rightarrow> exn + block"
  n_checksum :: "string \<Rightarrow> exn + string"
  n_launch :: "int \<Rightarrow> exn + unit"
  n_connected :: bool
  n_signalled :: bool
  n_answer :: "request list \<Rightarrow> exn + string"
  n_balance :: "request list \<Rightarrow> string \<Rightarrow> exn + int"
  n_nonce :: "request list \<Rightarrow> string \<Rightarrow> exn + int"
  n_code :: "request list \<Rightarrow> string \<Rightarrow> exn + byte list"
  n_storage :: "request list \<Rightarrow> string \<Rightarrow> string \<Rightarrow> exn + byte list"

record anvil =
  requests :: "request list"
  anvil_running :: bool

definition request :: "node \<Rightarrow> request \<Rightarrow> (anvil, string) py" where
  "request N r =
     seq (modify (\<lambda>s. s\<lparr>requests := requests s @ [r]\<rparr>)) (\<lambda>s. lift_sum (n_answer N (requests s)) s)"

definition query :: "(request list \<Rightarrow> exn + 'a) \<Rightarrow> (anvil, 'a) py" where
  "query oracle s = lift_sum (oracle (requests s)) s"

lemmas [py_run] = request_def query_def

section \<open>Preparing the node\<close>

definition get_block :: "node \<Rightarrow> ef_test \<Rightarrow> exn + block" where
  "get_block N data =
     (case bind_sum (fromhex (drop 2 (et_block_rlp data))) (n_decode_block N) of
        Inl e \<Rightarrow> Inl (OtherException ''Could not find block in test data'')
      | Inr b \<Rightarrow> Inr b)"

definition word_text :: "string \<Rightarrow> exn + string" where
  "word_text t = bind_sum (int16 t) (\<lambda>n. Inr (''0x'' @ fmt_hex 64 n))"

definition set_account :: "node \<Rightarrow> string \<times> json_account \<Rightarrow> (anvil, unit) py" where
  "set_account N = (\<lambda>(address, account).
     seq (request N (SetCode address (ja_code account)))
    (seq (request N (SetBalance address (ja_balance account)))
    (seq (request N (SetNonce address (ja_nonce account)))
         (for_each (ja_storage account) (\<lambda>(k, v).
            bnd (lift_sum (word_text k)) (\<lambda>key.
            bnd (lift_sum (word_text v)) (\<lambda>val.
            seq (request N (SetStorageAt address key val)) (ret ()))))))))"

definition set_pre_state :: "node \<Rightarrow> ef_test \<Rightarrow> (anvil, unit) py" where
  "set_pre_state N data = for_each (et_pre data) (set_account N)"

definition set_block :: "node \<Rightarrow> ef_test \<Rightarrow> (anvil, unit) py" where
  "set_block N data =
     bnd (lift_sum (get_block N data)) (\<lambda>block.
     seq (case bk_transactions block of
            [] \<Rightarrow> ret ()
          | tx # _ \<Rightarrow> (case bt_chain_id tx of
              None \<Rightarrow> ret () | Some c \<Rightarrow> seq (request N (SetChainId c)) (ret ())))
    (seq (request N (SetCoinbase (bytes_hex (bk_coinbase block))))
    (seq (request N (SetNextBlockBaseFee (bk_base_fee block)))
    (seq (request N (SetBlockGasLimit (bk_gas_limit block)))
         (ret ())))))"

definition send_transaction :: "node \<Rightarrow> block_tx \<Rightarrow> (anvil, string) py" where
  "send_transaction N tx = request N (SendRaw (bt_encoded tx))"

section \<open>Checking what the transactions did\<close>

definition beacon_root_address :: string where
  "beacon_root_address = ''0x000F3df6D732807Ef1319fB7B8bB8522d0Beac02''"

definition check_slot :: "node \<Rightarrow> string \<Rightarrow> string \<times> string \<Rightarrow> (anvil, unit) py" where
  "check_slot N address = (\<lambda>(k, v).
     bnd (query (\<lambda>h. n_storage N h address k)) (\<lambda>stored.
     bnd (lift_sum (int16 v)) (\<lambda>wanted.
     py_assert (from_bytes_big stored = wanted))))"

definition check_account :: "node \<Rightarrow> string \<Rightarrow> json_account \<Rightarrow> (anvil, unit) py" where
  "check_account N address account =
     bnd (query (\<lambda>h. n_balance N h address)) (\<lambda>balance.
     bnd (lift_sum (int16 (ja_balance account))) (\<lambda>wanted_balance.
     seq (py_assert (balance = wanted_balance))
    (bnd (query (\<lambda>h. n_nonce N h address)) (\<lambda>nonce.
     bnd (lift_sum (int16 (ja_nonce account))) (\<lambda>wanted_nonce.
     seq (py_assert (nonce = wanted_nonce))
    (bnd (query (\<lambda>h. n_code N h address)) (\<lambda>code.
     bnd (lift_sum (fromhex (drop 2 (ja_code account)))) (\<lambda>wanted_code.
     seq (py_assert (code = wanted_code))
         (for_each (ja_storage account) (check_slot N address))))))))))"

definition check_entry :: "node \<Rightarrow> string \<times> json_account \<Rightarrow> (anvil, unit) py" where
  "check_entry N = (\<lambda>(raw_address, account).
     bnd (lift_sum (n_checksum N raw_address)) (\<lambda>address.
     bnd (lift_sum (n_checksum N beacon_root_address)) (\<lambda>beacon.
     if address = beacon then ret ()
     else try_except (check_account N address account)
            (\<lambda>e. raise (ValueError (''Post state does not match for '' @ address))))))"

definition check_post_state :: "node \<Rightarrow> ef_test \<Rightarrow> (anvil, unit) py" where
  "check_post_state N data = for_each (et_post data) (check_entry N)"

section \<open>The script\<close>

definition launch :: "node \<Rightarrow> ef_test \<Rightarrow> (anvil, unit) py" where
  "launch N data =
     try_except
       (bnd (lift_sum (get_block N data)) (\<lambda>block.
        seq (lift_sum (n_launch N (bk_timestamp block)))
            (modify (\<lambda>s. s\<lparr>anvil_running := True\<rparr>))))
       (\<lambda>e. raise (OtherException ''Could not launch anvil''))"

definition terminate :: "(anvil, unit) py" where
  "terminate = modify (\<lambda>s. s\<lparr>anvil_running := False\<rparr>)"

definition connect_anvil :: "node \<Rightarrow> (anvil, unit) py" where
  "connect_anvil N = (if n_connected N then ret () else raise (OtherException ''Not connected to anvil endpoint''))"

definition replay :: "node \<Rightarrow> ef_test \<Rightarrow> (anvil, unit) py" where
  "replay N test =
     seq (connect_anvil N)
    (seq (set_pre_state N test)
    (seq (set_block N test)
    (bnd (lift_sum (get_block N test)) (\<lambda>block.
     seq (if bk_transactions block = [] then raise (ValueError ''Could not find transaction in test data'') else ret ())
    (bnd (comprehend (\<lambda>tx.
            bnd (send_transaction N tx) (\<lambda>tx_hash.
            seq (request N (AwaitReceipt tx_hash)) (ret tx_hash))) (bk_transactions block)) (\<lambda>tx_hashes.
     seq (check_post_state N test)
    (seq (for_each tx_hashes (\<lambda>h. seq (request N (CastRun (''cast run '' @ h))) (ret ())))
    (seq (request N (CopyText (''cast run '' @ hd tx_hashes @ '' --debug'')))
         (ret ())))))))))"

text \<open>After a successful replay the script sleeps until a signal comes, for ever if none does; its handler stops
  the node and ends the process.\<close>

definition signal_handler :: "(anvil, unit) py" where
  "signal_handler = seq terminate (raise (SystemExit 0))"

definition wait_anvil :: "node \<Rightarrow> (anvil, unit) py" where
  "wait_anvil N = (if n_signalled N then signal_handler else (\<lambda>_. Diverge))"

definition debug_main ::
    "node \<Rightarrow> string \<Rightarrow> string \<Rightarrow> string list \<Rightarrow> (string \<Rightarrow> exn + ef_test) \<Rightarrow> (anvil, unit) py" where
  "debug_main N test_name folder files read_json =
     bnd (lift_sum (get_test_file test_name folder files read_json)) (\<lambda>test.
     seq (launch N test)
    (seq (try_except (replay N test) (\<lambda>e. seq terminate (raise e)))
         (wait_anvil N)))"

text \<open>The script: the variables are read when the module is loaded.\<close>

definition debug_script ::
    "node \<Rightarrow> (string \<Rightarrow> string option) \<Rightarrow> string list \<Rightarrow> (string \<Rightarrow> exn + ef_test) \<Rightarrow> (anvil, unit) py" where
  "debug_script N os files read_json =
     (case os ''TEST_NAME'' of
        None \<Rightarrow> raise (ValueError ''Please set TEST_NAME'')
      | Some test_name \<Rightarrow>
          debug_main N test_name (case os ''TEST_PARENT_FOLDER'' of None \<Rightarrow> [] | Some f \<Rightarrow> f) files read_json)"

section \<open>Correctness of the check\<close>

text \<open>What an entry of the expected state asks of the node.\<close>

definition account_ok :: "node \<Rightarrow> request list \<Rightarrow> string \<Rightarrow> json_account \<Rightarrow> bool" where
  "account_ok N h address account \<longleftrightarrow>
     (\<exists>b. n_balance N h address = Inr b \<and> int16 (ja_balance account) = Inr b) \<and>
     (\<exists>n. n_nonce N h address = Inr n \<and> int16 (ja_nonce account) = Inr n) \<and>
     (\<exists>c. n_code N h address = Inr c \<and> fromhex (drop 2 (ja_code account)) = Inr c) \<and>
     (\<forall>(k, v) \<in> set (ja_storage account).
        \<exists>bs. n_storage N h address k = Inr bs \<and> int16 v = Inr (from_bytes_big bs))"

definition entry_ok :: "node \<Rightarrow> request list \<Rightarrow> string \<times> json_account \<Rightarrow> bool" where
  "entry_ok N h = (\<lambda>(raw_address, account).
     \<exists>a b. n_checksum N raw_address = Inr a \<and> n_checksum N beacon_root_address = Inr b \<and>
       (a = b \<or> account_ok N h a account))"

text \<open>A check leaves the state alone and comes back.\<close>

definition check_of :: "(request list \<Rightarrow> bool) \<Rightarrow> (anvil, unit) py \<Rightarrow> bool" where
  "check_of P m \<longleftrightarrow> (\<forall>s. if P (requests s) then m s = Ret () s else \<exists>e. m s = Exc e s)"

lemma check_of_for_each:
  assumes "\<And>x. x \<in> set xs \<Longrightarrow> check_of (\<lambda>h. P h x) (b x)"
  shows "check_of (\<lambda>h. list_all (P h) xs) (for_each xs b)"
  using assms
proof (induction xs)
  case (Cons x xs)
  then have x: "check_of (\<lambda>h. P h x) (b x)" and xs: "check_of (\<lambda>h. list_all (P h) xs) (for_each xs b)"
    by auto
  show ?case
    unfolding check_of_def
  proof
    fix s
    show "if list_all (P (requests s)) (x # xs) then for_each (x # xs) b s = Ret () s
      else \<exists>e. for_each (x # xs) b s = Exc e s"
      using x [unfolded check_of_def, rule_format, of s] xs [unfolded check_of_def, rule_format, of s]
      by (auto simp: seq_def bnd_def split: if_splits)
  qed
qed (simp add: check_of_def ret_def)

lemma check_slot: "check_of (\<lambda>h. case kv of (k, v) \<Rightarrow>
    \<exists>bs. n_storage N h a k = Inr bs \<and> int16 v = Inr (from_bytes_big bs)) (check_slot N a kv)"
proof -
  obtain k v where kv: "kv = (k, v)" by (cases kv)
  show ?thesis
    unfolding check_of_def
  proof
    fix s
    show "if case kv of (k, v) \<Rightarrow> \<exists>bs. n_storage N (requests s) a k = Inr bs \<and> int16 v = Inr (from_bytes_big bs)
      then check_slot N a kv s = Ret () s else \<exists>e. check_slot N a kv s = Exc e s"
      by (cases "n_storage N (requests s) a k"; cases "int16 v")
        (auto simp: kv check_slot_def py_assert_def py_run)
  qed
qed

lemma check_account: "check_of (\<lambda>h. account_ok N h a account) (check_account N a account)"
proof -
  have "check_of (\<lambda>h. list_all (\<lambda>kv. case kv of (k, v) \<Rightarrow>
      \<exists>bs. n_storage N h a k = Inr bs \<and> int16 v = Inr (from_bytes_big bs)) (ja_storage account))
    (for_each (ja_storage account) (check_slot N a))"
    by (rule check_of_for_each) (rule check_slot)
  note slots = this [unfolded check_of_def list_all_iff, rule_format]
  show ?thesis
    unfolding check_of_def
  proof
    fix s
    show "if account_ok N (requests s) a account then check_account N a account s = Ret () s
      else \<exists>e. check_account N a account s = Exc e s"
      using slots [of s] unfolding account_ok_def check_account_def py_assert_def
      by (auto simp: py_run split: sum.split if_splits)
  qed
qed

lemma check_entry: "check_of (\<lambda>h. entry_ok N h x) (check_entry N x)"
proof -
  obtain raw account where x: "x = (raw, account)" by (cases x)
  show ?thesis
    unfolding check_of_def
  proof
    fix s
    show "if entry_ok N (requests s) x then check_entry N x s = Ret () s
      else \<exists>e. check_entry N x s = Exc e s"
    proof (cases "n_checksum N raw")
      case (Inr a)
      show ?thesis
        using Inr check_account [of N a account, unfolded check_of_def, rule_format, of s]
        by (cases "n_checksum N beacon_root_address")
          (auto simp: x entry_ok_def check_entry_def py_run split: if_splits)
    qed (simp add: x entry_ok_def check_entry_def py_run)
  qed
qed

lemma check_post_state_checks:
  "check_of (\<lambda>h. list_all (entry_ok N h) (et_post data)) (check_post_state N data)"
  unfolding check_post_state_def by (rule check_of_for_each) (rule check_entry)

text \<open>C14. The state left by the transactions is accepted exactly when every account of the expected
  state, the beacon root contract apart, has the expected balance, nonce, code and storage slots
  on the node; the check changes nothing and always comes back.\<close>

theorem check_post_state_iff:
  "if list_all (entry_ok N (requests s)) (et_post data)
   then check_post_state N data s = Ret () s
   else \<exists>e. check_post_state N data s = Exc e s"
  using check_post_state_checks [of N data] unfolding check_of_def by blast

section \<open>The node does not outlive a failure\<close>

lemma check_post_state_total: "comes_back (check_post_state N data)"
  using check_post_state_checks [of N data] unfolding check_of_def comes_back_def by (metis outcome.distinct(3,5))

lemma request_total: "comes_back (request N r)"
  by (auto simp: comes_back_def py_run split: sum.split)

lemma replay_total: "comes_back (replay N test)"
  unfolding replay_def connect_anvil_def set_pre_state_def set_account_def set_block_def send_transaction_def
  by (auto intro!: comes_back_rules request_total check_post_state_total split: list.split option.split prod.split)

lemma replay_checked:
  assumes "replay N test s = Ret () t"
  shows "\<exists>h. list_all (entry_ok N h) (et_post test)"
proof -
  obtain u v where "check_post_state N test u = Ret () v"
    using assms unfolding replay_def by (auto elim!: bnd_RetE seq_RetE)
  with check_post_state_checks [of N test] show ?thesis unfolding check_of_def by (metis outcome.distinct(1))
qed


text \<open>A node on which every request succeeds and every account is empty.\<close>

definition empty_node :: node where
  "empty_node = \<lparr>n_decode_block = (\<lambda>bs. Inl (ValueError ''rlp'')), n_checksum = (\<lambda>a. Inr a), n_launch = (\<lambda>t. Inr ()),
     n_connected = True, n_signalled = False, n_answer = (\<lambda>h. Inr []), n_balance = (\<lambda>h a. Inr 0), n_nonce = (\<lambda>h a. Inr 0),
     n_code = (\<lambda>h a. Inr []), n_storage = (\<lambda>h a k. Inr [])\<rparr>"


end
