(* ===== verification/PyRegex.thy ===== *)
theory PyRegex
  imports PyText PyHex
begin

text \<open>
  The part of Python's \<^verbatim>\<open>re\<close> that the scripts use: character classes, sequence, choice, greedy and lazy
  repetition and numbered groups.  \<open>ways\<close> lists the ways in which a pattern matches at the start of a
  text in the order in which the backtracking matcher tries them, each with the text that is left
  and the groups; the match is the first.  Texts are ASCII, so \<^verbatim>\<open>\w\<close>, \<^verbatim>\<open>\d\<close> and \<^verbatim>\<open>\s\<close> are the ASCII classes.
\<close>

type_synonym groups = "nat \<Rightarrow> string"

datatype rx =
    Nothing
  | Class "char \<Rightarrow> bool"
  | Cat rx rx
  | Or rx rx
  | Star rx
  | LazyStar rx
  | Group nat rx

fun greedy :: "nat \<Rightarrow> (string \<Rightarrow> groups \<Rightarrow> (string \<times> groups) list) \<Rightarrow> string \<Rightarrow> groups \<Rightarrow>
    (string \<times> groups) list" where
  "greedy 0 f s g = [(s, g)]"
| "greedy (Suc n) f s g =
     concat (map (\<lambda>(t, h). if length t < length s then greedy n f t h else []) (f s g)) @ [(s, g)]"

fun lazily :: "nat \<Rightarrow> (string \<Rightarrow> groups \<Rightarrow> (string \<times> groups) list) \<Rightarrow> string \<Rightarrow> groups \<Rightarrow>
    (string \<times> groups) list" where
  "lazily 0 f s g = [(s, g)]"
| "lazily (Suc n) f s g =
     (s, g) # concat (map (\<lambda>(t, h). if length t < length s then lazily n f t h else []) (f s g))"

fun ways :: "rx \<Rightarrow> string \<Rightarrow> groups \<Rightarrow> (string \<times> groups) list" where
  "ways Nothing s g = [(s, g)]"
| "ways (Class p) s g = (case s of [] \<Rightarrow> [] | c # t \<Rightarrow> if p c then [(t, g)] else [])"
| "ways (Cat a b) s g = concat (map (\<lambda>(t, h). ways b t h) (ways a s g))"
| "ways (Or a b) s g = ways a s g @ ways b s g"
| "ways (Star r) s g = greedy (length s) (ways r) s g"
| "ways (LazyStar r) s g = lazily (length s) (ways r) s g"
| "ways (Group n r) s g =
     map (\<lambda>(t, h). (t, h(n := take (length s - length t) s))) (ways r s g)"

text \<open>The notation of patterns.\<close>

fun lit :: "string \<Rightarrow> rx" where
  "lit [] = Nothing"
| "lit (c # s) = Cat (Class (\<lambda>d. d = c)) (lit s)"

definition plus :: "rx \<Rightarrow> rx" where
  "plus r = Cat r (Star r)"

definition lazy_plus :: "rx \<Rightarrow> rx" where
  "lazy_plus r = Cat r (LazyStar r)"

definition opt :: "rx \<Rightarrow> rx" where
  "opt r = Or r Nothing"

fun cats :: "rx list \<Rightarrow> rx" where
  "cats [] = Nothing"
| "cats (r # rs) = Cat r (cats rs)"

definition is_word :: "char \<Rightarrow> bool" where
  "is_word c \<longleftrightarrow> is_digit c \<or> is_upper c \<or> is_lower c \<or> c = CHR ''_''"

definition not_newline :: "char \<Rightarrow> bool" where
  "not_newline c \<longleftrightarrow> c \<noteq> CHR 0x0A"

section \<open>Matching\<close>

definition match_at :: "rx \<Rightarrow> string \<Rightarrow> (string \<times> groups) option" where
  "match_at r s = (case ways r s (\<lambda>_. []) of [] \<Rightarrow> None | x # _ \<Rightarrow> Some x)"

text \<open>A text as the matches found from left to right and the characters between them.  An empty match
  is passed over: the patterns of the scripts have none.\<close>

datatype piece = Plain char | Hit string groups

fun scan :: "rx \<Rightarrow> string \<Rightarrow> piece list" where
  "scan r [] = []"
| "scan r (c # s) =
     (case match_at r (c # s) of
        None \<Rightarrow> Plain c # scan r s
      | Some (t, g) \<Rightarrow>
          if length t \<le> length s then Hit (take (length (c # s) - length t) (c # s)) g # scan r (drop (length s - length t) s)
          else Plain c # scan r s)"

definition findall :: "rx \<Rightarrow> string \<Rightarrow> groups list" where
  "findall r s = concat (map (\<lambda>p. case p of Plain _ \<Rightarrow> [] | Hit _ g \<Rightarrow> [g]) (scan r s))"

definition re_sub :: "rx \<Rightarrow> (string \<Rightarrow> groups \<Rightarrow> string) \<Rightarrow> string \<Rightarrow> string" where
  "re_sub r f s = concat (map (\<lambda>p. case p of Plain c \<Rightarrow> [c] | Hit m g \<Rightarrow> f m g) (scan r s))"

definition re_search :: "rx \<Rightarrow> string \<Rightarrow> groups option" where
  "re_search r s = (case findall r s of [] \<Rightarrow> None | g # _ \<Rightarrow> Some g)"

section \<open>What a match is\<close>

lemma greedy_suffix:
  assumes "\<And>s g t h. (t, h) \<in> set (f s g) \<Longrightarrow> suffix t s"
  shows "(t, h) \<in> set (greedy n f s g) \<Longrightarrow> suffix t s"
proof (induction n arbitrary: s g)
  case (Suc n)
  then show ?case using assms by (auto split: if_splits) (meson suffix_order.trans)+
qed simp

lemma lazily_suffix:
  assumes "\<And>s g t h. (t, h) \<in> set (f s g) \<Longrightarrow> suffix t s"
  shows "(t, h) \<in> set (lazily n f s g) \<Longrightarrow> suffix t s"
proof (induction n arbitrary: s g)
  case (Suc n)
  then show ?case using assms by (auto split: if_splits) (meson suffix_order.trans)+
qed simp

lemma ways_suffix: "(t, h) \<in> set (ways r s g) \<Longrightarrow> suffix t s"
proof (induction r arbitrary: s g t h)
  case (Class p)
  then show ?case by (auto split: list.splits if_splits intro: suffix_ConsI)
next
  case (Cat a b)
  then show ?case by auto (meson suffix_order.trans)
next
  case (Star r)
  then show ?case using greedy_suffix [of "ways r"] by simp
next
  case (LazyStar r)
  then show ?case using lazily_suffix [of "ways r"] by simp
qed auto

lemma match_at_suffix: "match_at r s = Some (t, g) \<Longrightarrow> suffix t s"
  using ways_suffix [of t g r s "\<lambda>_. []"] unfolding match_at_def by (auto split: list.splits)

text \<open>The pieces make up the text, so that a substitution changes the matches only.\<close>

lemma scan_text: "concat (map (\<lambda>p. case p of Plain c \<Rightarrow> [c] | Hit m g \<Rightarrow> m) (scan r s)) = s"
proof (induction r s rule: scan.induct)
  case (2 r c s)
  show ?case
  proof (cases "match_at r (c # s)")
    case (Some x)
    obtain t g where x: "x = (t, g)" by (cases x)
    show ?thesis
    proof (cases "length t \<le> length s")
      case True
      with Some x 2 show ?thesis by (simp add: Suc_diff_le)
    next
      case False
      with Some x 2 show ?thesis by simp
    qed
  qed (use 2 in simp)
qed simp

lemma re_sub_same: "(\<And>m g. f m g = m) \<Longrightarrow> re_sub r f s = s"
  using scan_text [of r s] by (simp add: re_sub_def cong: piece.case_cong)

end
