(* ===== verification/Snapshot.thy ===== *)
theory Snapshot
  imports PyRegex PyNumber "HOL-Library.AList" "HOL-Library.List_Lexorder" "HOL-Library.Char_ord"
    "HOL-Library.Product_Lexorder"
begin

text \<open>
  The gas snapshots of \<^verbatim>\<open>cairo/kakarot-ssj/scripts\<close>: \<^verbatim>\<open>compare_snapshot.py\<close>, \<^verbatim>\<open>gen_snapshot.py\<close> and the
  log reader \<^verbatim>\<open>gas_debug_call.py\<close>.  A snapshot maps test names to gas; as a Python dictionary it is an
  association list with distinct keys.  The answers of GitHub and the output of \<^verbatim>\<open>scarb\<close> are
  arguments.
\<close>

section \<open>Printing numbers\<close>

definition decimal :: "int \<Rightarrow> string" where
  "decimal n = (if n < 0 then ''-'' else []) @
     map (\<lambda>d. char_of (nat d + 48)) (digits 10 (ndigits 10 (nat \<bar>n\<bar>)) \<bar>n\<bar>)"

definition ljust :: "nat \<Rightarrow> string \<Rightarrow> string" where
  "ljust w s = s @ replicate (w - length s) (CHR '' '')"

definition rjust :: "nat \<Rightarrow> string \<Rightarrow> string" where
  "rjust w s = replicate (w - length s) (CHR '' '') @ s"

text \<open>\<^verbatim>\<open>f"{x:.2%}"\<close> of a float: the product with 100 is a float, and is printed rounded to two places.\<close>

definition percent :: "rat \<Rightarrow> string" where
  "percent x =
     (let n = round_half_even (rnd (x * 100) * 100); m = \<bar>n\<bar>;
          frac = decimal (m mod 100)
      in (if n < 0 then ''-'' else []) @ decimal (m div 100) @ ''.'' @
         replicate (2 - length frac) (CHR ''0'') @ frac @ ''%'')"

lemma percent_examples: "percent 1 = ''100.00%''" "percent (1 / 2) = ''50.00%''" "percent (9 / 8) = ''112.50%''"
  by code_simp+

definition ratio :: "int \<Rightarrow> int \<Rightarrow> exn + rat" where
  "ratio a b = (if b = 0 then Inl ZeroDivisionError else Inr (rnd (of_int a / of_int b)))"

section \<open>Reading snapshots\<close>

text \<open>\<^verbatim>\<open>r"test ([\w\:]+).*gas usage est\.\: (\d+)"\<close>\<close>

definition test_pattern :: rx where
  "test_pattern = cats [lit ''test '', Group 1 (plus (Class (\<lambda>c. is_word c \<or> c = CHR '':''))),
     Star (Class not_newline), lit ''gas usage est.: '', Group 2 (plus (Class is_digit))]"

text \<open>\<^verbatim>\<open>{match[0]: int(match[1]) for match in sorted(matches)}\<close>\<close>

definition get_current_gas_snapshot :: "string \<Rightarrow> (string \<times> int) list" where
  "get_current_gas_snapshot output =
     fold (\<lambda>(name, gas). AList.update name (dec_value gas))
       (sort (map (\<lambda>g. (g 1, g 2)) (findall test_pattern output))) []"

text \<open>\<^verbatim>\<open>r"test (.+?) \.\.\. ok \(gas usage est.: (\d+)\)"\<close>, and the file sorted by name.\<close>

definition gen_pattern :: rx where
  "gen_pattern = cats [lit ''test '', Group 1 (lazy_plus (Class not_newline)), lit '' ... ok (gas usage est'',
     Class not_newline, lit '': '', Group 2 (plus (Class is_digit)), lit '')'']"

definition gen_snapshot :: "string \<Rightarrow> (string \<times> int) list" where
  "gen_snapshot output =
     (let results = fold (\<lambda>g. AList.update (g 1) (dec_value (g 2))) (findall gen_pattern output) []
      in map (\<lambda>k. (k, the (map_of results k))) (sort (map fst results)))"

section \<open>The previous snapshot\<close>

text \<open>The \<^verbatim>\<open>.env\<close> file: a line without an equals sign ends the search, as does the first token.\<close>

fun split_once :: "char \<Rightarrow> string \<Rightarrow> (string \<times> string) option" where
  "split_once sep [] = None"
| "split_once sep (c # s) =
     (if c = sep then Some ([], s) else map_option (\<lambda>(a, b). (c # a, b)) (split_once sep s))"

fun env_token :: "string list \<Rightarrow> string option" where
  "env_token [] = None"
| "env_token (l # ls) =
     (if prefix ''#'' l then env_token ls
      else case split_once (CHR ''='') (py_strip l) of
             None \<Rightarrow> None
           | Some (key, text) \<Rightarrow>
               if key = ''GITHUB_TOKEN'' then (if text = [] then None else Some text) else env_token ls)"

definition get_github_token_from_env :: "string list option \<Rightarrow> string option" where
  "get_github_token_from_env file = (case file of None \<Rightarrow> None | Some ls \<Rightarrow> env_token ls)"

record workflow_run =
  wf_id :: int
  wf_name :: string
  wf_conclusion :: string

record github =
  gh_runs :: "string \<Rightarrow> exn + workflow_run list"
  gh_artifacts :: "string \<Rightarrow> int \<Rightarrow> exn + (string \<times> string) list"
  gh_snapshot :: "string \<Rightarrow> string \<Rightarrow> exn + (string \<times> int) list"

definition get_previous_snapshot ::
    "string option \<Rightarrow> string list option \<Rightarrow> github \<Rightarrow> exn + (string \<times> int) list option" where
  "get_previous_snapshot token_var env_file G =
     (case (case token_var of Some t \<Rightarrow> Some t | None \<Rightarrow> get_github_token_from_env env_file) of
        None \<Rightarrow> Inl (ValueError ''GITHUB_TOKEN does not exist in current shell nor is defined .env'')
      | Some token \<Rightarrow>
          bind_sum (gh_runs G token) (\<lambda>runs.
          case find (\<lambda>r. wf_conclusion r = ''success'' \<and> wf_name r = ''Generate and Upload Gas Snapshot'') runs of
            None \<Rightarrow> Inr None
          | Some run \<Rightarrow>
              bind_sum (gh_artifacts G token (wf_id run)) (\<lambda>artifacts.
              case find (\<lambda>(name, url). name = ''gas-snapshot'') artifacts of
                None \<Rightarrow> Inr None
              | Some (_, url) \<Rightarrow> bind_sum (gh_snapshot G token url) (\<lambda>s. Inr (Some s)))))"

section \<open>Comparing\<close>

definition common_keys :: "(string \<times> int) list \<Rightarrow> (string \<times> int) list \<Rightarrow> string list" where
  "common_keys current previous = sort (filter (\<lambda>k. k \<in> set (map fst previous)) (remdups (map fst current)))"

definition gas_of :: "(string \<times> int) list \<Rightarrow> string \<Rightarrow> int" where
  "gas_of snapshot k = (case map_of snapshot k of Some n \<Rightarrow> n | None \<Rightarrow> 0)"

definition log_line :: "nat \<Rightarrow> string \<Rightarrow> int \<Rightarrow> int \<Rightarrow> exn + string" where
  "log_line width key prev cur =
     bind_sum (ratio cur prev) (\<lambda>r.
     Inr (''|'' @ ljust (width + 5) key @ '' | '' @ rjust 10 (decimal prev) @ '' | '' @ rjust 10 (decimal cur) @
       '' | '' @ rjust 6 (percent r) @ ''|''))"

fun compare_keys ::
    "nat \<Rightarrow> (string \<times> int) list \<Rightarrow> (string \<times> int) list \<Rightarrow> string list \<Rightarrow> string list \<times> string list \<Rightarrow>
     exn + string list \<times> string list" where
  "compare_keys width current previous [] acc = Inr acc"
| "compare_keys width current previous (k # ks) (improvements, worsened) =
     (let prev = gas_of previous k; cur = gas_of current k
      in bind_sum (log_line width k prev cur) (\<lambda>line.
         compare_keys width current previous ks
           (if prev < cur then (improvements, worsened @ [line])
            else if cur < prev then (improvements @ [line], worsened)
            else (improvements, worsened))))"

definition compare_snapshots ::
    "(string \<times> int) list \<Rightarrow> (string \<times> int) list \<Rightarrow> exn + string list \<times> string list" where
  "compare_snapshots current previous =
     (let ks = common_keys current previous
      in if ks = [] then Inl (ValueError ''max() arg is an empty sequence'')
         else compare_keys (Max (set (map length ks))) current previous ks ([], []))"

definition total_gas_used :: "(string \<times> int) list \<Rightarrow> (string \<times> int) list \<Rightarrow> int \<times> int" where
  "total_gas_used current previous =
     (let ks = common_keys current previous
      in (sum_list (map (gas_of current) ks), sum_list (map (gas_of previous) ks)))"

text \<open>What \<^verbatim>\<open>main\<close> logs: nothing but an error without a previous snapshot, otherwise the improved tests,
  the worsened tests, the total line and the verdict.\<close>

datatype snapshot_report =
    NoPrevious
  | Report "string list" "string list" string bool

definition snapshot_main ::
    "string option \<Rightarrow> string list option \<Rightarrow> github \<Rightarrow> string \<Rightarrow> exn + snapshot_report" where
  "snapshot_main token_var env_file G output =
     bind_sum (get_previous_snapshot token_var env_file G) (\<lambda>previous.
     case previous of
       None \<Rightarrow> Inr NoPrevious
     | Some previous_snapshot \<Rightarrow>
         let current = get_current_gas_snapshot output
         in bind_sum (compare_snapshots current previous_snapshot) (\<lambda>(improvements, worsened).
            let (cur_gas, prev_gas) = total_gas_used current previous_snapshot
            in bind_sum (ratio cur_gas prev_gas) (\<lambda>r.
               Inr (Report improvements worsened
                 (''Total gas change: '' @ decimal prev_gas @ '' -> '' @ decimal cur_gas @ '' ('' @ percent r @ '')'')
                 (worsened = [])))))"

section \<open>Gas of a debug log\<close>

text \<open>\<^verbatim>\<open>r"Address (\d+), opcode (\w+), pc (\d+), gas left in call (\d+)"\<close>\<close>

definition gas_pattern :: rx where
  "gas_pattern = cats [lit ''Address '', Group 1 (plus (Class is_digit)), lit '', opcode '',
     Group 2 (plus (Class is_word)), lit '', pc '', Group 3 (plus (Class is_digit)),
     lit '', gas left in call '', Group 4 (plus (Class is_digit))]"

record gas_state =
  gas_consumption :: "int \<rightharpoonup> int"
  previous_gas :: "int \<rightharpoonup> int"
  printed :: "string list"

definition gas_step :: "int \<Rightarrow> int \<Rightarrow> gas_state \<Rightarrow> gas_state" where
  "gas_step address gas_left s =
     (case gas_consumption s address of
        None \<Rightarrow> s\<lparr>gas_consumption := (gas_consumption s)(address \<mapsto> 0),
                 previous_gas := (previous_gas s)(address \<mapsto> gas_left)\<rparr>
      | Some used \<Rightarrow>
          s\<lparr>gas_consumption := (gas_consumption s)(address \<mapsto> used + (the (previous_gas s address) - gas_left)),
            previous_gas := (previous_gas s)(address \<mapsto> gas_left)\<rparr>)"

definition process_line :: "string \<Rightarrow> gas_state \<Rightarrow> gas_state" where
  "process_line line s =
     (case re_search gas_pattern line of
        None \<Rightarrow> s
      | Some g \<Rightarrow>
          let address = dec_value (g 1); t = gas_step address (dec_value (g 4)) s
          in t\<lparr>printed := printed t @ [py_hex address @ '' - '' @ decimal (dec_value (g 3)) @ '' - '' @ g 2 @
                '' --> total gas used: '' @ decimal (the (gas_consumption t address))]\<rparr>)"

definition process_logs :: "string \<Rightarrow> gas_state" where
  "process_logs text =
     fold process_line (split_on (CHR 0x0A) text)
       \<lparr>gas_consumption = Map.empty, previous_gas = Map.empty, printed = []\<rparr>"

section \<open>The comparison is complete and exclusive\<close>

lemma set_common_keys: "set (common_keys current previous) = set (map fst current) \<inter> set (map fst previous)"
  by (auto simp: common_keys_def)

lemma distinct_common_keys [simp]: "distinct (common_keys current previous)"
  by (simp add: common_keys_def)

lemma compare_keys_spec:
  assumes "\<forall>k \<in> set ks. gas_of previous k \<noteq> 0"
  shows "compare_keys w current previous ks (is, ws) =
    Inr (is @ map (\<lambda>k. projr (log_line w k (gas_of previous k) (gas_of current k)))
           (filter (\<lambda>k. gas_of current k < gas_of previous k) ks),
         ws @ map (\<lambda>k. projr (log_line w k (gas_of previous k) (gas_of current k)))
           (filter (\<lambda>k. gas_of previous k < gas_of current k) ks))"
  using assms
proof (induction ks arbitrary: "is" ws)
  case (Cons k ks)
  then obtain line where line: "log_line w k (gas_of previous k) (gas_of current k) = Inr line"
    by (simp add: log_line_def ratio_def)
  with Cons show ?case by (simp add: Let_def)
qed simp

text \<open>C36. Every test of both snapshots whose gas changed is reported exactly once, in the order of the
  names: as an improvement when it got cheaper, as worsened when it got dearer; tests of one
  snapshot only and tests that did not change are not reported.  (A previous gas of zero would
  end the comparison with a division by zero.)\<close>

theorem compare_snapshots_partition:
  assumes "compare_snapshots current previous = Inr (improvements, worsened)"
  shows "\<exists>w. let line = \<lambda>k. projr (log_line w k (gas_of previous k) (gas_of current k));
                 ks = common_keys current previous in
    improvements = map line (filter (\<lambda>k. gas_of current k < gas_of previous k) ks) \<and>
    worsened = map line (filter (\<lambda>k. gas_of previous k < gas_of current k) ks) \<and>
    0 \<notin> gas_of previous ` set ks \<and> ks \<noteq> [] \<and> sorted ks \<and> distinct ks \<and>
    set ks = set (map fst current) \<inter> set (map fst previous)"
proof -
  let ?ks = "common_keys current previous"
  let ?w = "Max (set (map length ?ks))"
  have ne: "?ks \<noteq> []" and run: "compare_keys ?w current previous ?ks ([], []) = Inr (improvements, worsened)"
    using assms by (auto simp: compare_snapshots_def Let_def split: if_splits)
  have nz: "\<forall>k \<in> set ks. gas_of previous k \<noteq> 0"
    if "compare_keys w current previous ks acc = Inr r" for w ks acc r
    using that
  proof (induction w current previous ks acc rule: compare_keys.induct)
    case (2 w current previous k ks i wo)
    from "2.prems" obtain line where "log_line w k (gas_of previous k) (gas_of current k) = Inr line"
      by (auto simp: Let_def elim: bind_sum_InrE)
    then have "gas_of previous k \<noteq> 0" by (auto simp: log_line_def ratio_def)
    with 2 show ?case by (auto simp: Let_def elim!: bind_sum_InrE)
  qed simp
  from nz [OF run] compare_keys_spec [OF nz [OF run]] run ne
  show ?thesis
    by (intro exI [of _ ?w]) (auto simp: Let_def set_common_keys common_keys_def [of current previous])
qed

lemma compare_snapshots_partition_witness:
  "\<exists>improvements worsened.
     compare_snapshots [(''b'', 5), (''a'', 7)] [(''a'', 8), (''b'', 4), (''c'', 1)] = Inr (improvements, worsened) \<and>
     length improvements = 1 \<and> length worsened = 1"
proof -
  let ?c = "[(''b'', 5), (''a'', 7)] :: (string \<times> int) list"
  let ?p = "[(''a'', 8), (''b'', 4), (''c'', 1)] :: (string \<times> int) list"
  have ks: "common_keys ?c ?p = [''a'', ''b'']" by code_simp
  have "\<exists>r. compare_snapshots ?c ?p = Inr r"
    by (simp add: compare_snapshots_def ks log_line_def ratio_def gas_of_def Let_def)
  then obtain i w where run: "compare_snapshots ?c ?p = Inr (i, w)" by auto
  from compare_snapshots_partition [OF run] have "length i = 1 \<and> length w = 1"
    unfolding ks by (auto simp: gas_of_def Let_def)
  with run show ?thesis by blast
qed

end
