(* ===== verification/CairoTools.thy ===== *)
theory CairoTools
  imports PyRegex "HOL-Library.AList"
begin

text \<open>
  Scripts over Cairo sources: \<^verbatim>\<open>kakarot_scripts/utils/find_selector.py\<close> and
  \<^verbatim>\<open>cairo/kakarot-ssj/scripts/find_selectory.py\<close> name the function behind a selector;
  \<^verbatim>\<open>filter_tests.py\<close> removes the test functions that a filter does not name; and
  \<^verbatim>\<open>kakarot_scripts/utils/fetch_outdated_eoas.py\<close> lists the accounts of an old class.  A directory is the
  list of its files with their texts, in the order of \<^verbatim>\<open>os.walk\<close>.
\<close>

section \<open>Selectors\<close>

text \<open>\<^verbatim>\<open>r"func\s+(\w+)(?:\{|\()"\<close> for Cairo 0 and \<^verbatim>\<open>r"fn\s+(\w+)\("\<close> for Cairo 1\<close>

definition func_pattern :: rx where
  "func_pattern = cats [lit ''func'', plus (Class is_space), Group 1 (plus (Class is_word)),
     Or (lit ''{'') (lit ''('')]"

definition fn_pattern :: rx where
  "fn_pattern = cats [lit ''fn'', plus (Class is_space), Group 1 (plus (Class is_word)), lit ''('']"

definition find_cairo_functions :: "rx \<Rightarrow> (string \<times> string) list \<Rightarrow> string list" where
  "find_cairo_functions pattern files =
     concat (map (\<lambda>(name, text). if suffix ''.cairo'' name then map (\<lambda>g. g 1) (findall pattern text) else []) files)"

definition map_selectors :: "(string \<Rightarrow> int) \<Rightarrow> string list \<Rightarrow> (int \<times> string) list" where
  "map_selectors selector_of functions = fold (\<lambda>f. AList.update (selector_of f) f) functions []"

definition get_function_from_selector :: "(int \<times> string) list \<Rightarrow> string \<Rightarrow> exn + string" where
  "get_function_from_selector selectors typed =
     bind_sum (int16 typed) (\<lambda>selector.
     Inr (case map_of selectors selector of Some f \<Rightarrow> f | None \<Rightarrow> ''Not found''))"

text \<open>The two scripts, over the files below \<^verbatim>\<open>cairo_zero\<close> and below the current directory.\<close>

definition find_selector_main :: "(string \<Rightarrow> int) \<Rightarrow> (string \<times> string) list \<Rightarrow> string \<Rightarrow> exn + string" where
  "find_selector_main selector_of files typed =
     (let functions = find_cairo_functions func_pattern files;
          selectors = map_selectors selector_of functions
      in get_function_from_selector selectors typed)"

definition find_selectory_main :: "(string \<Rightarrow> int) \<Rightarrow> (string \<times> string) list \<Rightarrow> string \<Rightarrow> exn + string" where
  "find_selectory_main selector_of files typed =
     (let functions = find_cairo_functions fn_pattern files;
          selectors = map_selectors selector_of functions
      in get_function_from_selector selectors typed)"

lemma map_selectors_sound:
  "map_of (map_selectors sel fs) n = Some f \<Longrightarrow> f \<in> set fs \<and> sel f = n"
proof -
  have "map_of (fold (\<lambda>f. AList.update (sel f) f) fs acc) n = Some f \<Longrightarrow>
      f \<in> set fs \<and> sel f = n \<or> map_of acc n = Some f" for acc
    by (induction fs arbitrary: acc) (fastforce simp: update_conv' split: if_splits)+
  from this [of "[]"] show "map_of (map_selectors sel fs) n = Some f \<Longrightarrow> f \<in> set fs \<and> sel f = n"
    by (simp add: map_selectors_def)
qed

lemma map_selectors_complete: "f \<in> set fs \<Longrightarrow> \<exists>g. map_of (map_selectors sel fs) (sel f) = Some g"
proof -
  have "f \<in> set fs \<or> map_of acc (sel f) \<noteq> None \<Longrightarrow>
      map_of (fold (\<lambda>f. AList.update (sel f) f) fs acc) (sel f) \<noteq> None" for acc
    by (induction fs arbitrary: acc) (auto simp: update_conv')
  from this [of "[]"] show "f \<in> set fs \<Longrightarrow> \<exists>g. map_of (map_selectors sel fs) (sel f) = Some g"
    by (auto simp: map_selectors_def)
qed

text \<open>Asked for the selector of a function of the sources, the script names one with that selector.\<close>

lemma find_selector_main_names:
  assumes "f \<in> set (find_cairo_functions func_pattern files)" and "int16 typed = Inr (sel f)"
  shows "\<exists>g \<in> set (find_cairo_functions func_pattern files). find_selector_main sel files typed = Inr g \<and> sel g = sel f"
  using map_selectors_complete [OF assms(1), of sel] assms(2)
  by (auto simp: find_selector_main_def get_function_from_selector_def dest: map_selectors_sound)

section \<open>Filtering tests\<close>

text \<open>The pattern of a test function: its attributes, its name and a body whose braces nest at most
  three deep.\<close>

definition no_brace :: rx where
  "no_brace = Class (\<lambda>c. c \<noteq> CHR ''{'' \<and> c \<noteq> CHR ''}'')"

definition braces :: "rx \<Rightarrow> rx" where
  "braces body = cats [lit ''{'', Star body, lit ''}'']"

definition test_function :: rx where
  "test_function = cats [lit ''#[test]'', Star (Class is_space),
     opt (cats [lit ''#[available_gas('', plus (Class (\<lambda>c. c \<noteq> CHR '')'')), lit '')]'', Star (Class is_space)]),
     lit ''fn'', plus (Class is_space), Group 1 (plus (Class is_word)), Star (Class is_space),
     lit ''('', Star (Class (\<lambda>c. c \<noteq> CHR '')'')), lit '')'', Star (Class is_space),
     Group 2 (braces (Or no_brace (braces (Or no_brace (braces no_brace)))))]"

definition filter_content :: "string \<Rightarrow> string \<Rightarrow> string" where
  "filter_content filter_string content =
     re_sub test_function (\<lambda>m g. if contains (map lower filter_string) (map lower (g 1)) then m else []) content"

text \<open>The files that are written, with their new text.\<close>

definition filter_tests :: "string \<Rightarrow> (string \<times> string) list \<Rightarrow> (string \<times> string) list" where
  "filter_tests filter_string files =
     map (\<lambda>(name, text). (name, filter_content filter_string text))
       (filter (\<lambda>(name, text). suffix ''.cairo'' name \<and> filter_content filter_string text \<noteq> text) files)"

text \<open>A file is only ever shortened: what is left is the text without some of its test functions, and a
  filter that names them all leaves it as it is.\<close>

lemma filter_content_subseq: "subseq (filter_content flt s) s"
proof -
  have keep: "subseq (concat (map f ps)) (concat (map g ps))"
    if "\<And>p. p \<in> set ps \<Longrightarrow> subseq (f p) (g p)" for ps :: "piece list" and f g :: "piece \<Rightarrow> string"
    using that by (induction ps) (auto intro: list_emb_append_mono)
  have "subseq (filter_content flt s) (concat (map (\<lambda>p. case p of Plain c \<Rightarrow> [c] | Hit m g \<Rightarrow> m) (scan test_function s)))"
    unfolding filter_content_def re_sub_def by (rule keep) (auto split: piece.split)
  then show ?thesis by (simp only: scan_text)
qed

lemma filter_content_all: "filter_content [] s = s"
  unfolding filter_content_def
  by (rule re_sub_same) (metis contains_append append_Nil list.simps(8))

section \<open>Accounts of an old class\<close>

text \<open>\<^verbatim>\<open>{event.data[0]: event.data[1] for event in events}\<close>\<close>

fun evm_to_starknet :: "int list list \<Rightarrow> (int \<times> int) list \<Rightarrow> exn + (int \<times> int) list" where
  "evm_to_starknet [] acc = Inr acc"
| "evm_to_starknet (data # events) acc =
     (case data of
        evm # sn # _ \<Rightarrow> evm_to_starknet events (AList.update evm sn acc)
      | _ \<Rightarrow> Inl IndexError)"

text \<open>\<^verbatim>\<open>asyncio.gather\<close> gives the results in the order of the requests, or the first exception.\<close>

definition gather_all :: "('a \<Rightarrow> exn + 'b) \<Rightarrow> 'a list \<Rightarrow> exn + ('a \<times> 'b) list" where
  "gather_all f batch = map_sum_list (\<lambda>x. bind_sum (f x) (\<lambda>y. Inr (x, y))) batch"

fun account_classes ::
    "(int \<Rightarrow> exn + int) \<Rightarrow> int list list \<Rightarrow> (int \<times> int) list \<Rightarrow> exn + (int \<times> int) list" where
  "account_classes class_hash [] acc = Inr acc"
| "account_classes class_hash (batch # batches) acc =
     bind_sum (gather_all class_hash batch) (\<lambda>results.
     account_classes class_hash batches (fold (\<lambda>(a, c). AList.update a c) results acc))"

fun eoa_accounts :: "(int \<Rightarrow> exn + int) \<Rightarrow> int list list \<Rightarrow> int list \<Rightarrow> exn + int list" where
  "eoa_accounts bytecode_len [] acc = Inr acc"
| "eoa_accounts bytecode_len (batch # batches) acc =
     bind_sum (gather_all bytecode_len batch) (\<lambda>results.
     eoa_accounts bytecode_len batches (acc @ map fst (filter (\<lambda>(a, n). n = 0) results)))"

definition latest_class_hash :: int where
  "latest_class_hash = 0x1276D0B017701646F8646B69DE6C3B3584EDCE71879678A679F28C07A9971CF"

definition batch_size :: nat where
  "batch_size = 50"

definition outdated_evm_classes ::
    "int list list \<Rightarrow> (int \<Rightarrow> exn + int) \<Rightarrow> (int \<Rightarrow> exn + int) \<Rightarrow> exn + string list" where
  "outdated_evm_classes events class_hash bytecode_len =
     bind_sum (evm_to_starknet events []) (\<lambda>accounts.
     bind_sum (account_classes class_hash (chunks batch_size (map snd accounts)) []) (\<lambda>classes.
     let outdated = map fst (filter (\<lambda>(a, c). c \<noteq> latest_class_hash) classes)
     in bind_sum (eoa_accounts bytecode_len (chunks batch_size outdated) []) (\<lambda>eoas.
        Inr (map (\<lambda>(evm, sn). ''0x'' @ fmt_hex 40 evm) (filter (\<lambda>(evm, sn). sn \<in> set eoas) accounts)))))"

lemma gather_all_Inr: "\<forall>x \<in> set xs. f x = Inr (h x) \<Longrightarrow> gather_all f xs = Inr (map (\<lambda>x. (x, h x)) xs)"
  by (induction xs) (simp_all add: gather_all_def)

lemma account_classes_spec:
  assumes "\<forall>b \<in> set bs. \<forall>x \<in> set b. f x = Inr (h x)" and "\<forall>(a, c) \<in> set acc. c = h a"
  shows "\<exists>r. account_classes f bs acc = Inr r \<and> set r = set acc \<union> (\<lambda>x. (x, h x)) ` set (concat bs)"
  using assms
proof (induction bs arbitrary: acc)
  case (Cons b bs)
  let ?acc = "fold (\<lambda>(a, c). AList.update a c) (map (\<lambda>x. (x, h x)) b) acc"
  have upd: "set (AList.update a (h a) l) = insert (a, h a) (set l)" if "\<forall>(a, c) \<in> set l. c = h a" for a l
    using that by (induction l) auto
  have "set (fold (\<lambda>(a, c). AList.update a c) (map (\<lambda>x. (x, h x)) b) l) = set l \<union> (\<lambda>x. (x, h x)) ` set b"
    if "\<forall>(a, c) \<in> set l. c = h a" for l
    using that
  proof (induction b arbitrary: l)
    case (Cons x b)
    have "\<forall>(a, c) \<in> set (AList.update x (h x) l). c = h a" using Cons.prems upd by auto
    from Cons.IH [OF this] show ?case using upd [OF Cons.prems, of x] by auto
  qed simp
  note acc = this [OF Cons.prems(2)]
  then have "\<forall>(a, c) \<in> set ?acc. c = h a" using Cons.prems(2) by auto
  with Cons.IH [of ?acc] Cons.prems(1) obtain r where "account_classes f bs ?acc = Inr r"
    and "set r = set ?acc \<union> (\<lambda>x. (x, h x)) ` set (concat bs)" by auto
  with acc show ?case using Cons.prems(1) by (auto simp: gather_all_Inr [where h = h])
qed simp

lemma eoa_accounts_spec:
  assumes "\<forall>b \<in> set bs. \<forall>x \<in> set b. f x = Inr (h x)"
  shows "eoa_accounts f bs acc = Inr (acc @ filter (\<lambda>x. h x = 0) (concat bs))"
  using assms
proof (induction bs arbitrary: acc)
  case (Cons b bs)
  then show ?case by (simp add: gather_all_Inr [where h = h] filter_map comp_def)
qed simp

text \<open>C39. Asking in batches changes nothing: when every request is answered, the accounts written out are
  exactly those, in the order of their deployment, whose class is not the latest and whose
  bytecode is empty, each account asked about alone.\<close>

theorem outdated_accounts_spec:
  assumes "evm_to_starknet events [] = Inr accounts"
    and "\<And>a. class_hash a = Inr (cls a)" and "\<And>a. bytecode_len a = Inr (len a)"
  shows "outdated_evm_classes events class_hash bytecode_len =
    Inr (map (\<lambda>(evm, sn). ''0x'' @ fmt_hex 40 evm)
      (filter (\<lambda>(evm, sn). cls sn \<noteq> latest_class_hash \<and> len sn = 0) accounts))"
proof -
  have pos: "0 < batch_size" by (simp add: batch_size_def)
  obtain classes where classes: "account_classes class_hash (chunks batch_size (map snd accounts)) [] = Inr classes"
    and set: "set classes = (\<lambda>x. (x, cls x)) ` snd ` set accounts"
    using account_classes_spec [of "chunks batch_size (map snd accounts)" class_hash cls "[]"] assms(2)
    by (auto simp: concat_chunks [OF pos])
  let ?old = "map fst (filter (\<lambda>(a, c). c \<noteq> latest_class_hash) classes)"
  have "eoa_accounts bytecode_len (chunks batch_size ?old) [] = Inr (filter (\<lambda>x. len x = 0) ?old)"
    using eoa_accounts_spec [of "chunks batch_size ?old" bytecode_len len "[]"] assms(3)
    by (simp add: concat_chunks [OF pos])
  moreover have "filter (\<lambda>(evm, sn). sn \<in> set (filter (\<lambda>x. len x = 0) ?old)) accounts =
      filter (\<lambda>(evm, sn). cls sn \<noteq> latest_class_hash \<and> len sn = 0) accounts"
    by (rule filter_cong) (force simp: set image_iff)+
  ultimately show ?thesis
    using assms(1) classes by (simp add: outdated_evm_classes_def)
qed

lemma outdated_accounts_spec_witness:
  "outdated_evm_classes [[1, 10], [2, 20]] (\<lambda>a. Inr (if a = 10 then 5 else latest_class_hash)) (\<lambda>a. Inr 0) =
     Inr [''0x'' @ fmt_hex 40 1]"
proof -
  have "evm_to_starknet [[1, 10], [2, 20]] [] = Inr [(1, 10), (2, 20)]" by simp
  from outdated_accounts_spec [OF this, of "\<lambda>a. Inr (if a = 10 then 5 else latest_class_hash)"
      "\<lambda>a. if a = 10 then 5 else latest_class_hash" "\<lambda>a. Inr 0" "\<lambda>a. 0"]
  show ?thesis by (simp add: latest_class_hash_def)
qed

end
