(* ===== verification/Project.thy ===== *)
theory Project
  imports CairoTools
begin

text \<open>
  \<^verbatim>\<open>cairo/kakarot-ssj/scripts/run_filtered_tests.py\<close>: running the tests that a filter names on a
  temporary copy of the project, and copying back what the run produced.  A directory is the list
  of its files by their paths relative to it, with text and modification time; the state is the
  project.  What the command does to the copy, and the clock, are arguments.
\<close>

record text_file =
  fl_text :: string
  fl_mtime :: int

type_synonym tree = "(string list \<times> text_file) list"

text \<open>What \<^verbatim>\<open>select\<close> and \<^verbatim>\<open>os.read\<close> find on the terminal of the command, one after the other.\<close>

datatype terminal_read = NotReady | Chunk string | ReadError

record job =
  jb_created :: int
  jb_now :: int
  jb_reads :: "string \<Rightarrow> tree \<Rightarrow> terminal_read list"
  jb_command :: "string \<Rightarrow> tree \<Rightarrow> tree \<times> int"

definition project_files :: "string list" where
  "project_files = [''Scarb.toml'', ''Scarb.lock'', ''.tool-versions'']"

text \<open>\<^verbatim>\<open>shutil.copy2\<close> and \<^verbatim>\<open>shutil.copytree\<close> keep the modification times.\<close>

definition copied :: "string list \<Rightarrow> bool" where
  "copied path = (case path of [name] \<Rightarrow> name \<in> set project_files | d # _ # _ \<Rightarrow> d = ''crates'' | [] \<Rightarrow> False)"

definition project_copy :: "tree \<Rightarrow> tree" where
  "project_copy src = filter (\<lambda>(path, f). copied path) src"

text \<open>\<^verbatim>\<open>filter_tests\<close> on the crates of the copy; a file that is written gets the time of the clock.\<close>

definition filter_tree :: "int \<Rightarrow> string \<Rightarrow> tree \<Rightarrow> tree" where
  "filter_tree now filter_name t =
     map (\<lambda>(path, f).
       if hd path = ''crates'' \<and> suffix ''.cairo'' (last path) \<and> filter_content filter_name (fl_text f) \<noteq> fl_text f
       then (path, \<lparr>fl_text = filter_content filter_name (fl_text f), fl_mtime = now\<rparr>) else (path, f)) t"

text \<open>\<^verbatim>\<open>Path.suffix\<close> of a name that starts with its only dot is empty.\<close>

definition is_cairo :: "string list \<Rightarrow> bool" where
  "is_cairo path \<longleftrightarrow> suffix ''.cairo'' (last path) \<and> last path \<noteq> ''.cairo''"

definition in_build :: "string list \<Rightarrow> bool" where
  "in_build path \<longleftrightarrow> ''target'' \<in> set (butlast path)"

definition to_copy_back :: "int \<Rightarrow> tree \<Rightarrow> tree \<Rightarrow> tree" where
  "to_copy_back created src temp =
     filter (\<lambda>(path, f). \<not> in_build path \<and> (map_of src path = None \<or> created < fl_mtime f) \<and> \<not> is_cairo path) temp"

definition copy_back :: "int \<Rightarrow> tree \<Rightarrow> (tree, unit) py" where
  "copy_back created temp =
     modify (\<lambda>src. fold (\<lambda>(path, f). AList.update path f) (to_copy_back created src temp) src)"

text \<open>\<^verbatim>\<open>command.split()\<close>, and the name after the package of \<^verbatim>\<open>-p\<close>.\<close>

fun split_words :: "string \<Rightarrow> string \<Rightarrow> string list" where
  "split_words w [] = (if w = [] then [] else [w])"
| "split_words w (c # s) =
     (if is_space c then (if w = [] then split_words [] s else w # split_words [] s)
      else split_words (w @ [c]) s)"

definition filter_of_command :: "string \<Rightarrow> exn + string" where
  "filter_of_command command =
     (let ws = split_words [] command
      in case dropWhile (\<lambda>w. w \<noteq> ''-p'') ws of
           [] \<Rightarrow> Inl (ValueError ''is not in list'')
         | _ # args \<Rightarrow> (case args of package # name # _ \<Rightarrow> Inr name | _ \<Rightarrow> Inl IndexError))"

text \<open>The output goes on until the terminal is closed or fails; no value stands for a loop that never ends.\<close>

fun stream_output :: "terminal_read list \<Rightarrow> string option" where
  "stream_output [] = None"
| "stream_output (NotReady # reads) = stream_output reads"
| "stream_output (ReadError # reads) = Some []"
| "stream_output (Chunk data # reads) = (if data = [] then Some [] else map_option ((@) data) (stream_output reads))"

definition run_scarb_command :: "job \<Rightarrow> string \<Rightarrow> tree \<Rightarrow> (tree, tree) py" where
  "run_scarb_command J command temp =
     (case stream_output (jb_reads J command temp) of
        None \<Rightarrow> (\<lambda>_. Diverge)
      | Some output \<Rightarrow>
          (let (temp, return_code) = jb_command J command temp
           in if return_code \<noteq> 0 then raise (SystemExit return_code) else ret temp))"

definition run_filtered_tests :: "job \<Rightarrow> string \<Rightarrow> (tree, unit) py" where
  "run_filtered_tests J command =
     bnd (gets project_copy) (\<lambda>temp.
     bnd (lift_sum (filter_of_command command)) (\<lambda>filter_name.
     bnd (run_scarb_command J command (filter_tree (jb_now J) filter_name temp)) (\<lambda>temp.
     copy_back (jb_created J) temp)))"

definition filtered_main :: "job \<Rightarrow> string list \<Rightarrow> (tree, unit) py" where
  "filtered_main J argv =
     (if length argv < 2 then raise (SystemExit 1) else run_filtered_tests J (join_with (CHR '' '') (tl argv)))"

section \<open>The sources are safe\<close>

definition protected :: "string list set" where
  "protected = {path. is_cairo path \<or> in_build path}"

lemma stream_output_ends:
  "stream_output reads \<noteq> None \<longleftrightarrow> ReadError \<in> set reads \<or> Chunk [] \<in> set reads"
  by (induction reads rule: stream_output.induct) auto

lemma copy_back_map:
  "map_of (fold (\<lambda>(path, f). AList.update path f) kvs src) path =
     (case map_of (rev kvs) path of None \<Rightarrow> map_of src path | Some f \<Rightarrow> Some f)"
  by (induction kvs arbitrary: src) (auto simp: update_conv' map_add_def split: option.splits)

lemma copy_back_protected:
  "map_of (fold (\<lambda>(path, f). AList.update path f) (to_copy_back created src temp) src) |` protected = map_of src |` protected"
proof (rule ext)
  fix path
  have "map_of (rev (to_copy_back created src temp)) path = None" if "path \<in> protected"
    using that by (auto simp: map_of_eq_None_iff to_copy_back_def protected_def)
  then show "(map_of (fold (\<lambda>(path, f). AList.update path f) (to_copy_back created src temp) src) |` protected) path =
      (map_of src |` protected) path"
    by (auto simp: restrict_map_def copy_back_map)
qed


end
