(* ===== verification/Scripts.thy ===== *)
theory Scripts
  imports KakarotSend "HOL-Library.AList"
begin

text \<open>
  Operational scripts: \<^verbatim>\<open>kakarot_scripts/withdraw_accounts.py\<close>, which empties the EVM contracts that hold
  ETH by giving each the class \<^verbatim>\<open>BalanceSender\<close> for the time of one call, and
  \<^verbatim>\<open>kakarot_scripts/utils/deploy_oz.py\<close>, which deploys the relayer accounts of production.  The answers
  of Voyager and of the secrets manager are arguments, and so are the random numbers.
\<close>

section \<open>Withdrawing from the contracts\<close>

record voyager_event =
  ve_name :: "string option"
  ve_items :: "(string \<times> string) list"

record voyager =
  vy_api_url :: "string option"
  vy_events :: "string \<Rightarrow> exn + voyager_event list"

type_synonym fields = "(string \<times> string) list"

definition get_contracts :: "voyager \<Rightarrow> ('m world_scheme, fields list) py" where
  "get_contracts V =
     bnd get_deployments (\<lambda>d.
     bnd (get_option KeyError (map_of d ''kakarot'')) (\<lambda>kakarot.
     bnd (get_option KeyError (vy_api_url V)) (\<lambda>url.
     bnd (lift_sum (vy_events V (url @ ''/events?ps=10&p=1&contract='' @ py_hex kakarot))) (\<lambda>events.
     ret (map (\<lambda>ev. fold (\<lambda>(n, v). AList.update n v) (ve_items ev) [])
       (filter (\<lambda>ev. ve_name ev = Some ''evm_contract_deployed'') events))))))"

definition field :: "fields \<Rightarrow> string \<Rightarrow> ('s, string) py" where
  "field c name = get_option KeyError (map_of c name)"

definition int_text :: "string option \<Rightarrow> exn + int" where
  "int_text t = (case t of None \<Rightarrow> Inl TypeError | Some u \<Rightarrow> int16 u)"

definition upgrade_account :: "env \<Rightarrow> int \<Rightarrow> int \<Rightarrow> ('m world_scheme, unit) py" where
  "upgrade_account E evm_address class_hash =
     seq (invoke E (ByName ''kakarot'') ''upgrade_account'' [Felt evm_address, Felt class_hash] None None) (ret ())"

definition withdraw_contract :: "env \<Rightarrow> fields \<Rightarrow> ('m world_scheme, unit) py" where
  "withdraw_contract E c =
     bnd (field c ''starknet_contract_address'') (\<lambda>sn.
     bnd (get_balance E (AddrStr sn) None) (\<lambda>balance.
     bnd (field c ''evm_contract_address'') (\<lambda>evm.
     if balance = 0 then ret ()
     else
       bnd (lift_sum (int16 sn)) (\<lambda>address.
       bnd (ask_class_hash_at E address) (\<lambda>current_class.
       bnd (lift_sum (int16 evm)) (\<lambda>evm_address.
       bnd get_declarations (\<lambda>d.
       bnd (get_option KeyError (map_of d ''BalanceSender'')) (\<lambda>sender.
       seq (upgrade_account E evm_address sender)
      (bnd (lift_sum (int_text (nw_account_address (network E)))) (\<lambda>to.
       seq (invoke E (ByName ''BalanceSender'') ''send_balance'' [Felt (eth_token_address E), Felt to]
              (Some address) None)
           (upgrade_account E evm_address current_class)))))))))))"

definition account_balance :: "env \<Rightarrow> ('m world_scheme, int) py" where
  "account_balance E =
     get_balance E (case nw_account_address (network E) of None \<Rightarrow> NoAddr | Some t \<Rightarrow> AddrStr t) None"

definition withdraw_accounts :: "env \<Rightarrow> voyager \<Rightarrow> ('m world_scheme, unit) py" where
  "withdraw_accounts E V =
     bnd (get_contracts V) (\<lambda>contracts.
     seq (account_balance E)
    (seq (for_each contracts (withdraw_contract E))
    (seq (account_balance E) (ret ()))))"

section \<open>Deploying the relayers of production\<close>

text \<open>The secret is created when the service does not have it.\<close>

record secrets =
  sm_get :: "(exn + string \<times> string) option"
  sm_create :: "string \<Rightarrow> exn + string"
  sm_random :: int

definition get_private_key :: "secrets \<Rightarrow> exn + string \<times> string" where
  "get_private_key S =
     (case sm_get S of
        Some r \<Rightarrow> r
      | None \<Rightarrow> let private_key = py_hex (sm_random S)
                in bind_sum (sm_create S private_key) (\<lambda>secret_id. Inr (private_key, secret_id)))"

definition num_accounts :: nat where
  "num_accounts = 30"

definition deploy_oz_main ::
    "env \<Rightarrow> secrets \<Rightarrow> ('m world_scheme \<Rightarrow> int) \<Rightarrow> ('m world_scheme, (string \<times> int) list) py" where
  "deploy_oz_main E S salt_of =
     bnd (lift_sum (get_private_key S)) (\<lambda>(private_key, secret_id).
     bnd (comprehend (\<lambda>_.
            bnd (gets salt_of) (\<lambda>salt.
            bnd (deploy_starknet_account E None (Some private_key) (PFloat (rnd (1 / 10))) salt) (\<lambda>a.
            ret (secret_id, a)))) [0..<num_accounts]) (\<lambda>accounts_data.
     seq (emit (FileWrite ''kakarot_scripts/data/oz_accounts.json''))
         (ret accounts_data)))"

section \<open>Every contract gets its class back\<close>

text \<open>Submitting calls of a plain main account, one transaction each.\<close>

definition submits :: "account \<Rightarrow> call list \<Rightarrow> 'm world_scheme \<Rightarrow> 'm world_scheme \<Rightarrow> bool" where
  "submits acc cs s t \<longleftrightarrow> submitted t = submitted s @ map (\<lambda>c. (ac_address acc, [c])) cs \<and>
     account_cache t = account_cache s \<and> lazy_accounts t = lazy_accounts s \<and>
     multisig_accounts t = multisig_accounts s \<and> (handles_ok s \<longrightarrow> handles_ok t)"

definition plain_main :: "account \<Rightarrow> 'm world_scheme \<Rightarrow> bool" where
  "plain_main acc s \<longleftrightarrow> account_cache s (NoAddr, None) = Some acc \<and> handles_ok s \<and>
     \<not> lazy_accounts s (ac_address acc) \<and> \<not> multisig_accounts s (ac_address acc)"

lemma submits_trans: "submits acc cs s t \<Longrightarrow> submits acc ds t u \<Longrightarrow> submits acc (cs @ ds) s u"
  by (auto simp: submits_def)

lemma submits_plain: "submits acc cs s t \<Longrightarrow> plain_main acc s \<Longrightarrow> plain_main acc t"
  by (auto simp: submits_def plain_main_def)

interpretation silent: step_relation "submits acc []" for acc
  by unfold_locales (auto simp: submits_def)

lemma silent_pieces:
  "sent_txs [ev] = [] \<Longrightarrow> rel_py (submits acc []) (ask ev oracle)"
  "rel_py (submits acc []) get_deployments" "rel_py (submits acc []) get_declarations"
  "rel_py (submits acc []) (felt_output r)" "rel_py (submits acc []) (get_option e x)"
  "rel_py (submits acc []) (get_selector_from_name E f)" "rel_py (submits acc []) (field c n)"
  by (auto simp: rel_py_def submits_def py_run submitted_def get_deployments_def get_declarations_def felt_output_def
      get_selector_from_name_def field_def handles_ok_def Let_def split: sum.split option.split list.split arg.split)

lemma silent_contract: "rel_py (submits acc []) (get_contract E n a p)"
  by (auto simp: rel_py_def submits_def get_contract_def Let_def py_run submitted_def handles_ok_def get_deployments_def
      split: option.split sum.split outcome.split)

lemma main_account_plain: "plain_main acc s \<Longrightarrow> main_account E s = Ret acc s"
  by (simp add: plain_main_def main_account_def get_starknet_account_def py_run)

lemma get_balance_plain:
  assumes "get_balance E (AddrStr x) None s = Ret b t" and "plain_main acc s"
  shows "submits acc [] s t"
    and "\<exists>a h rest. int16 x = Inr a \<and> o_abi_call E h (eth_token_address E) ''balanceOf'' [Felt a] = Inr (Felt b # rest)"
proof -
  have "rel_py (submits acc []) (balance_of E c a)" for c a
    unfolding balance_of_def abi_call_def by (intro silent.rules silent_pieces) simp
  moreover obtain a where
    r: "int16 x = Inr a" "balance_of E \<lparr>ct_name = ''ERC20'', ct_address = eth_token_address E, ct_provider = Some acc\<rparr> a s = Ret b t"
    using assms main_account_plain [OF assms(2)]
    by (auto simp: get_balance_def get_eth_contract_def address_int_def py_run split: sum.splits)
  ultimately show "submits acc [] s t" by (blast dest: rel_pyD_Ret)
  show "\<exists>a h rest. int16 x = Inr a \<and> o_abi_call E h (eth_token_address E) ''balanceOf'' [Felt a] = Inr (Felt b # rest)"
    using balance_of_Ret(3) [OF r(2)] r(1) by auto
qed

text \<open>An invocation of a contract by its name is one transaction with one call.\<close>

definition call_to :: "env \<Rightarrow> string \<Rightarrow> int option \<Rightarrow> string \<Rightarrow> arg list \<Rightarrow> call \<Rightarrow> bool" where
  "call_to E name address f args c \<longleftrightarrow> c_selector c = selector_of E f \<and>
     serialize E name f args = Inr (c_calldata c) \<and> (\<forall>x. address = Some x \<longrightarrow> x \<noteq> 0 \<longrightarrow> c_to c = x)"

lemma invoke_plain:
  assumes run: "invoke E (ByName n) f args a None s = Ret r t" and plain: "plain_main acc s"
  shows "\<exists>c. call_to E n a f args c \<and> submits acc [c] s t"
proof -
  obtain c u v call r' where c: "get_contract E n a (Some acc) s = Ret c u"
    and sel: "get_selector_from_name E f u = Ret (selector_of E f) v"
    and prep: "prepare_invoke E c f args = Inr call"
    and ex: "execute_v1 E acc [call] v = Ret r' t"
    using run main_account_plain [OF plain]
    by (auto simp: invoke_def get_selector_from_name_def Let_def py_run split: outcome.splits sum.splits)
  have i: "submits acc [] s v"
    using silent.R_trans rel_pyD_Ret [OF silent_contract c] rel_pyD_Ret [OF silent_pieces(6) sel] by blast
  then have p: "plain_main acc v" using plain submits_plain by blast
  then have "execute_v1_wrapped E acc [call] v = Ret r' t" and m: "\<not> multisig_accounts v (ac_address acc)"
    using ex by (simp_all add: execute_v1_def py_run plain_main_def)
  with execute_v1_wrapped_cases [where E = E, OF m, of "[call]"]
  have "one_tx (ac_address acc, [call]) v t" "submitted t = submitted v @ [(ac_address acc, [call])]" by simp_all
  then have "submits acc [call] v t" by (auto simp: submits_def one_tx_def submitted_def handles_ok_def)
  with submits_trans [OF i] have "submits acc [call] s t" by fastforce
  moreover have "ct_name c = n"
    using c by (auto simp: get_contract_def Let_def py_run split: option.splits sum.splits outcome.splits if_splits)
  moreover have "\<forall>x. a = Some x \<longrightarrow> x \<noteq> 0 \<longrightarrow> ct_address c = x"
  proof (intro allI impI)
    fix x assume "a = Some x" and "x \<noteq> 0"
    with c plain have "c = \<lparr>ct_name = n, ct_address = x, ct_provider = Some acc\<rparr>"
      by (intro get_contract_at(1) [of E n x "Some acc" s c u]) (simp_all add: plain_main_def)
    then show "ct_address c = x" by simp
  qed
  ultimately have t: "submits acc [call] s t" "ct_name c = n" "\<forall>x. a = Some x \<longrightarrow> x \<noteq> 0 \<longrightarrow> ct_address c = x"
    by blast+
  obtain cd where "serialize E n f args = Inr cd" "call = \<lparr>c_to = ct_address c, c_selector = selector_of E f, c_calldata = cd\<rparr>"
    using prep t(2) by (auto simp: prepare_invoke_def elim!: bind_sum_InrE)
  with t(3) have "call_to E n a f args call" by (simp add: call_to_def)
  with t(1) show ?thesis by (intro exI [of _ call] conjI)
qed

text \<open>What is submitted for a contract: nothing if it was reported empty, and otherwise the upgrade, the
  sweep and the upgrade back to the class reported before.\<close>

definition withdrawn :: "env \<Rightarrow> fields \<Rightarrow> call list \<Rightarrow> bool" where
  "withdrawn E c cs \<longleftrightarrow> (\<exists>sn address balance h rest. map_of c ''starknet_contract_address'' = Some sn \<and>
     int16 sn = Inr address \<and>
     o_abi_call E h (eth_token_address E) ''balanceOf'' [Felt address] = Inr (Felt balance # rest) \<and>
     (if balance = 0 then cs = []
      else \<exists>evm evm_address to sender current h' up sweep restore.
        map_of c ''evm_contract_address'' = Some evm \<and> int16 evm = Inr evm_address \<and>
        int_text (nw_account_address (network E)) = Inr to \<and> o_class_hash_at E h' address = Inr current \<and>
        cs = [up, sweep, restore] \<and>
        call_to E ''kakarot'' None ''upgrade_account'' [Felt evm_address, Felt sender] up \<and>
        call_to E ''BalanceSender'' (Some address) ''send_balance'' [Felt (eth_token_address E), Felt to] sweep \<and>
        call_to E ''kakarot'' None ''upgrade_account'' [Felt evm_address, Felt current] restore))"


lemma upgrade_account_plain:
  assumes "upgrade_account E evm_address class_hash s = Ret u t" and "plain_main acc s"
  shows "\<exists>c. call_to E ''kakarot'' None ''upgrade_account'' [Felt evm_address, Felt class_hash] c \<and> submits acc [c] s t"
proof -
  obtain r where "invoke E (ByName ''kakarot'') ''upgrade_account'' [Felt evm_address, Felt class_hash] None None s = Ret r t"
    using assms(1) by (auto simp: upgrade_account_def py_run split: outcome.splits)
  from invoke_plain [OF this assms(2)] show ?thesis .
qed

lemma class_hash_plain:
  assumes "ask_class_hash_at E a s = Ret current t"
  shows "submits acc [] s t" and "\<exists>h. o_class_hash_at E h a = Inr current"
proof -
  show "submits acc [] s t"
    using assms unfolding ask_class_hash_at_def by (rule rel_pyD_Ret [OF silent_pieces(1), rotated]) simp
  show "\<exists>h. o_class_hash_at E h a = Inr current"
    using assms by (auto simp: ask_class_hash_at_def ask_cases Let_def split: sum.splits)
qed

lemma swap_and_sweep_plain:
  assumes up: "upgrade_account E e sender s = Ret () s1"
    and sweep: "invoke E (ByName ''BalanceSender'') ''send_balance'' args (Some a) None s1 = Ret r s2"
    and restore: "upgrade_account E e current s2 = Ret () t" and plain: "plain_main acc s"
  shows "\<exists>c1 c2 c3. call_to E ''kakarot'' None ''upgrade_account'' [Felt e, Felt sender] c1 \<and>
    call_to E ''BalanceSender'' (Some a) ''send_balance'' args c2 \<and>
    call_to E ''kakarot'' None ''upgrade_account'' [Felt e, Felt current] c3 \<and> submits acc [c1, c2, c3] s t"
proof -
  obtain c1 where c1: "call_to E ''kakarot'' None ''upgrade_account'' [Felt e, Felt sender] c1" "submits acc [c1] s s1"
    using upgrade_account_plain [OF up plain] by blast
  note p1 = submits_plain [OF c1(2) plain]
  obtain c2 where c2: "call_to E ''BalanceSender'' (Some a) ''send_balance'' args c2" "submits acc [c2] s1 s2"
    using invoke_plain [OF sweep p1] by blast
  obtain c3 where c3: "call_to E ''kakarot'' None ''upgrade_account'' [Felt e, Felt current] c3" "submits acc [c3] s2 t"
    using upgrade_account_plain [OF restore submits_plain [OF c2(2) p1]] by blast
  have "submits acc ([c1] @ [c2] @ [c3]) s t"
    by (rule submits_trans [OF c1(2) submits_trans [OF c2(2) c3(2)]])
  with c1(1) c2(1) c3(1) show ?thesis by auto
qed

lemma withdraw_contract_plain:
  assumes run: "withdraw_contract E c s = Ret () t" and plain: "plain_main acc s"
  shows "\<exists>cs. withdrawn E c cs \<and> submits acc cs s t"
proof -
  obtain sn balance u evm where sn: "map_of c ''starknet_contract_address'' = Some sn"
    and b: "get_balance E (AddrStr sn) None s = Ret balance u" and evm: "map_of c ''evm_contract_address'' = Some evm"
    using run unfolding withdraw_contract_def field_def Ret_iff by blast
  note B = get_balance_plain [OF b plain]
  from B(2) obtain a h r where a: "int16 sn = Inr a"
    and bal: "o_abi_call E h (eth_token_address E) ''balanceOf'' [Felt a] = Inr (Felt balance # r)" by blast
  show ?thesis
  proof (cases "balance = 0")
    case True
    then have "withdrawn E c []" using sn a bal by (auto simp: withdrawn_def)
    moreover have "t = u" using run sn b evm True by (auto simp: withdraw_contract_def field_def Ret_iff)
    ultimately show ?thesis using B(1) by blast
  next
    case False
    obtain current v e d sender w w1 to w2 r2 where cl: "ask_class_hash_at E a u = Ret current v"
      and e: "int16 evm = Inr e" and d: "get_declarations v = Ret d w"
      and up: "upgrade_account E e sender w = Ret () w1"
      and to: "int_text (nw_account_address (network E)) = Inr to"
      and sweep: "invoke E (ByName ''BalanceSender'') ''send_balance'' [Felt (eth_token_address E), Felt to] (Some a) None w1 = Ret r2 w2"
      and restore: "upgrade_account E e current w2 = Ret () t"
      using run sn b evm False a by (auto simp: withdraw_contract_def field_def Ret_iff)
    have "submits acc [] v w" by (rule rel_pyD_Ret [OF silent_pieces(3) d])
    then have w: "submits acc [] s w" by (rule silent.R_trans [OF B(1) silent.R_trans [OF class_hash_plain(1) [OF cl]]])
    obtain c1 c2 c3 where cs: "call_to E ''kakarot'' None ''upgrade_account'' [Felt e, Felt sender] c1"
      "call_to E ''BalanceSender'' (Some a) ''send_balance'' [Felt (eth_token_address E), Felt to] c2"
      "call_to E ''kakarot'' None ''upgrade_account'' [Felt e, Felt current] c3" "submits acc [c1, c2, c3] w t"
      using swap_and_sweep_plain [OF up sweep restore submits_plain [OF w plain]] by blast
    have "withdrawn E c [c1, c2, c3]"
      using sn a bal False evm e to cs(1,2,3) class_hash_plain(2) [OF cl] unfolding withdrawn_def by auto
    with submits_trans [OF w cs(4)] show ?thesis by auto
  qed
qed


lemma withdraw_each_plain:
  assumes "for_each contracts (withdraw_contract E) s = Ret () t" and "plain_main acc s"
  shows "\<exists>groups. list_all2 (withdrawn E) contracts groups \<and> submits acc (concat groups) s t"
  using assms
proof (induction contracts arbitrary: s)
  case Nil
  then have "list_all2 (withdrawn E) [] [] \<and> submits acc (concat []) s t"
    by (simp add: ret_def submits_def)
  then show ?case by blast
next
  case (Cons c contracts)
  obtain u where one: "withdraw_contract E c s = Ret () u" and more: "for_each contracts (withdraw_contract E) u = Ret () t"
    using Cons.prems(1) by (auto simp: Ret_iff)
  obtain cs where cs: "withdrawn E c cs" "submits acc cs s u"
    using withdraw_contract_plain [OF one Cons.prems(2)] by blast
  from Cons.IH [OF more submits_plain [OF cs(2) Cons.prems(2)]]
  obtain groups where g: "list_all2 (withdrawn E) contracts groups" "submits acc (concat groups) u t" by blast
  have "list_all2 (withdrawn E) (c # contracts) (cs # groups)" using cs(1) g(1) by simp
  moreover have "submits acc (concat (cs # groups)) s t" using submits_trans [OF cs(2) g(2)] by simp
  ultimately show ?case by blast
qed

lemma account_balance_plain:
  assumes "account_balance E s = Ret b t" and "plain_main acc s"
  shows "submits acc [] s t"
proof (cases "nw_account_address (network E)")
  case None
  with assms show ?thesis by (simp add: account_balance_def get_balance_def address_int_def Ret_iff)
next
  case (Some x)
  with assms show ?thesis by (auto simp: account_balance_def intro: get_balance_plain(1))
qed



definition sweep_env :: env where
  "sweep_env = wei_env\<lparr>network := dev_network\<lparr>nw_account_address := Some ''0x9''\<rparr>\<rparr>"

lemma sweep_env_sel [simp]:
  "network sweep_env = dev_network\<lparr>nw_account_address := Some ''0x9''\<rparr>" "o_class_hash_at sweep_env = (\<lambda>h a. Inr 1)"
  "o_abi_call sweep_env = (\<lambda>h a f args. Inr [Felt 100])" "serialize sweep_env = (\<lambda>c f args. Inr [])"
  "o_pending_nonce sweep_env = o_pending_nonce dev_env" "o_cairo_version sweep_env = (\<lambda>h a. Inr 1)"
  "o_wait_for_tx sweep_env = (\<lambda>h x. Inr ())" "eth_token_address sweep_env = 73"
  "o_add_invoke sweep_env = (\<lambda>h tx. Inr (100 + int (length (sent_txs h))))"
  by (simp_all add: sweep_env_def wei_env_def dev_env_def)

lemma sweep_abi: "get_abi sweep_env ''ERC20'' = Inr [''build'', ''ERC20.json'']"
proof -
  have "get_abi sweep_env n = get_abi wei_env n" for n
    by (simp add: get_abi_def get_artifact_def sweep_env_def)
  with wei_abi show ?thesis by simp
qed

definition sweep_world :: world where
  "sweep_world = dev_world\<lparr>account_cache := [(NoAddr, None) \<mapsto> dev_account 9],
     deployments_file := Some (hex_entries [(''kakarot'', 500)]),
     declarations_file := Some (hex_entries [(''BalanceSender'', 8)]),
     contract_cache := [(''kakarot'', None, Some 9) \<mapsto> 500, (''BalanceSender'', Some 5, Some 9) \<mapsto> 5]\<rparr>"

definition sweep_fields :: fields where
  "sweep_fields = [(''starknet_contract_address'', ''0x5''), (''evm_contract_address'', ''0x7'')]"

definition sweep_voyager :: voyager where
  "sweep_voyager = \<lparr>vy_api_url = Some [], vy_events = (\<lambda>url. Inr
     [\<lparr>ve_name = Some ''evm_contract_deployed'', ve_items = sweep_fields\<rparr>, \<lparr>ve_name = None, ve_items = []\<rparr>])\<rparr>"

lemma sweep_int16: "int16 ''0x5'' = Inr 5" "int16 ''0x7'' = Inr 7" "int16 ''0x9'' = Inr 9"
  by code_simp+

lemma sweep_contracts: "get_contracts sweep_voyager sweep_world = Ret [sweep_fields] sweep_world"
  by (simp add: get_contracts_def sweep_world_def sweep_voyager_def sweep_fields_def get_deployments_def int_hex_entries py_run)

lemma sweep_run: "\<exists>t. withdraw_accounts sweep_env sweep_voyager sweep_world = Ret () t"
  unfolding withdraw_accounts_def
  by (simp add: bnd_Ret [where m = "get_contracts sweep_voyager", OF sweep_contracts])
    (simp add: account_balance_def get_balance_def get_eth_contract_def sweep_abi sweep_int16 address_int_def
      withdraw_contract_def field_def int_text_def sweep_fields_def sweep_world_def get_declarations_def
      int_hex_entries upgrade_account_def ask_class_hash_at_def
      invoke_def main_account_def get_starknet_account_def get_contract_def
      get_selector_from_name_def prepare_invoke_def execute_v1_def balance_of_def
      abi_call_def felt_output_def execute_v1_wrapped_def get_nonce_def next_nonce_def poll_nonce_10
      ask_nonce_def store_nonce_def wait_for_transaction_def py_run Let_def)



end
