(* ===== verification/Utf8.thy ===== *)
theory Utf8
  imports Helpers
begin

text \<open>
  \<^verbatim>\<open>int_to_string\<close> of \<^verbatim>\<open>tests/utils/helpers.py\<close>: the bytes of a number decoded as UTF-8, as \<^verbatim>\<open>bytes.decode\<close>
  does it in its strict mode.  A text is the list of its code points.
\<close>

section \<open>Decoding\<close>

definition continues :: "int \<Rightarrow> bool" where
  "continues b \<longleftrightarrow> 0x80 \<le> b \<and> b < 0xC0"

text \<open>The code points of texts: no surrogates.\<close>

definition scalar :: "int \<Rightarrow> bool" where
  "scalar n \<longleftrightarrow> 0 \<le> n \<and> n < 0x110000 \<and> \<not> (0xD800 \<le> n \<and> n < 0xE000)"

text \<open>One character and the bytes after it; overlong forms and surrogates are errors.\<close>

fun utf8_char :: "int list \<Rightarrow> (int \<times> int list) option" where
  "utf8_char [] = None"
| "utf8_char (a # bs) =
     (if a < 0x80 then Some (a, bs)
      else if 0xC0 \<le> a \<and> a < 0xE0 then
        (case bs of
           b # r \<Rightarrow>
             let n = (a - 0xC0) * 64 + (b - 0x80)
             in if continues b \<and> 0x80 \<le> n then Some (n, r) else None
         | [] \<Rightarrow> None)
      else if 0xE0 \<le> a \<and> a < 0xF0 then
        (case bs of
           b # c # r \<Rightarrow>
             let n = ((a - 0xE0) * 64 + (b - 0x80)) * 64 + (c - 0x80)
             in if continues b \<and> continues c \<and> 0x800 \<le> n \<and> scalar n then Some (n, r) else None
         | _ \<Rightarrow> None)
      else if 0xF0 \<le> a \<and> a < 0xF8 then
        (case bs of
           b # c # d # r \<Rightarrow>
             let n = (((a - 0xF0) * 64 + (b - 0x80)) * 64 + (c - 0x80)) * 64 + (d - 0x80)
             in if continues b \<and> continues c \<and> continues d \<and> 0x10000 \<le> n \<and> scalar n then Some (n, r) else None
         | _ \<Rightarrow> None)
      else None)"

lemma utf8_char_shorter: "utf8_char bs = Some (n, r) \<Longrightarrow> length r < length bs"
  by (induction bs rule: utf8_char.induct) (auto simp: Let_def split: if_splits list.splits)

function utf8_decode :: "int list \<Rightarrow> exn + int list" where
  "utf8_decode [] = Inr []"
| "utf8_decode (b # bs) =
     (case utf8_char (b # bs) of
        None \<Rightarrow> Inl UnicodeDecodeError
      | Some (n, r) \<Rightarrow> bind_sum (utf8_decode r) (\<lambda>cs. Inr (n # cs)))"
  by pat_completeness auto
termination by (relation "measure length") (auto simp del: utf8_char.simps dest: utf8_char_shorter)

definition int_to_string :: "int \<Rightarrow> exn + int list" where
  "int_to_string num = bind_sum (int_to_bytes num) (\<lambda>bs. utf8_decode (map byte_val bs))"

section \<open>The encoding decoded\<close>

definition utf8_bytes :: "int \<Rightarrow> int list" where
  "utf8_bytes n =
     (if n < 0x80 then [n]
      else if n < 0x800 then [0xC0 + n div 64, 0x80 + n mod 64]
      else if n < 0x10000 then [0xE0 + n div 64 div 64, 0x80 + n div 64 mod 64, 0x80 + n mod 64]
      else [0xF0 + n div 64 div 64 div 64, 0x80 + n div 64 div 64 mod 64, 0x80 + n div 64 mod 64, 0x80 + n mod 64])"

definition utf8_encode :: "int list \<Rightarrow> int list" where
  "utf8_encode cs = concat (map utf8_bytes cs)"

lemma continues_mod [simp]: "continues (0x80 + n mod 64)"
  by (simp add: continues_def)

lemma join64: "0 \<le> y \<Longrightarrow> y < 64 \<Longrightarrow> (x * 64 + y) div 64 = x \<and> (x * 64 + y) mod 64 = (y :: int)"
  by (simp add: div_add1_eq mod_add_eq)

lemma utf8_char_bytes:
  assumes "scalar n"
  shows "utf8_char (utf8_bytes n @ r) = Some (n, r)"
proof -
  have n: "0 \<le> n" "n < 0x110000" using assms by (simp_all add: scalar_def)
  consider "n < 0x80" | "0x80 \<le> n" "n < 0x800" | "0x800 \<le> n" "n < 0x10000" | "0x10000 \<le> n" by linarith
  then show ?thesis
  proof cases
    case 1
    then show ?thesis by (simp add: utf8_bytes_def)
  next
    case 2
    have "utf8_bytes n = [0xC0 + n div 64, 0x80 + n mod 64]" using 2 by (simp add: utf8_bytes_def)
    moreover have "n div 64 * 64 + n mod 64 = n" by simp
    moreover have "0 \<le> n div 64" "n div 64 < 32" using 2 by presburger+
    ultimately show ?thesis using 2 by simp
  next
    case 3
    define p q y where "p = n div 64 div 64" and "q = n div 64 mod 64" and "y = n mod 64"
    have "p * 64 + q = n div 64" and "n div 64 * 64 + y = n" by (simp_all add: p_def q_def y_def)
    then have eq: "4096 * p + (q * 64 + y) = n" by simp
    have "utf8_bytes n = [0xE0 + p, 0x80 + q, 0x80 + y]" using 3 by (simp add: utf8_bytes_def p_def q_def y_def)
    moreover have "0 \<le> p" "p < 16" using 3 by (simp_all add: p_def)
    moreover have "continues (0x80 + q)" "continues (0x80 + y)" by (simp_all add: q_def y_def)
    ultimately show ?thesis using 3 assms by (simp add: Let_def add.assoc eq)
  next
    case 4
    define m p q y where "m = n div 64 div 64 div 64" and "p = n div 64 div 64 mod 64" and "q = n div 64 mod 64"
      and "y = n mod 64"
    have "m * 64 + p = n div 64 div 64" and "n div 64 div 64 * 64 + q = n div 64" and "n div 64 * 64 + y = n"
      by (simp_all add: m_def p_def q_def y_def)
    then have eq: "262144 * m + (4096 * p + (q * 64 + y)) = n" by simp
    have "utf8_bytes n = [0xF0 + m, 0x80 + p, 0x80 + q, 0x80 + y]"
      using 4 by (simp add: utf8_bytes_def m_def p_def q_def y_def)
    moreover have "0 \<le> m" "m < 8" using n 4 by (simp_all add: m_def)
    moreover have "continues (0x80 + p)" "continues (0x80 + q)" "continues (0x80 + y)"
      by (simp_all add: p_def q_def y_def)
    ultimately show ?thesis using 4 assms by (simp add: Let_def add.assoc eq)
  qed
qed

lemma two_bytes:
  "continues b \<Longrightarrow> 0xC0 \<le> a \<Longrightarrow> a < 0xE0 \<Longrightarrow> n = (a - 0xC0) * 64 + (b - 0x80) \<Longrightarrow> 0x80 \<le> n \<Longrightarrow>
     scalar n \<and> utf8_bytes n = [a, b]"
  using join64 [of "b - 0x80" "a - 0xC0"] by (auto simp: continues_def scalar_def utf8_bytes_def)

lemma three_bytes:
  assumes "continues b" and "continues c" and "0xE0 \<le> a" and "a < 0xF0"
    and n: "n = ((a - 0xE0) * 64 + (b - 0x80)) * 64 + (c - 0x80)" and "0x800 \<le> n"
  shows "utf8_bytes n = [a, b, c]"
proof -
  have "n < 0x10000" using assms by (simp add: continues_def)
  with assms join64 [of "c - 0x80" "(a - 0xE0) * 64 + (b - 0x80)"] join64 [of "b - 0x80" "a - 0xE0"]
  show ?thesis by (simp add: continues_def utf8_bytes_def)
qed

lemma four_bytes:
  assumes "continues b" and "continues c" and "continues d" and "0xF0 \<le> a"
    and n: "n = (((a - 0xF0) * 64 + (b - 0x80)) * 64 + (c - 0x80)) * 64 + (d - 0x80)" and "0x10000 \<le> n"
  shows "utf8_bytes n = [a, b, c, d]"
  using assms join64 [of "d - 0x80" "((a - 0xF0) * 64 + (b - 0x80)) * 64 + (c - 0x80)"]
    join64 [of "c - 0x80" "(a - 0xF0) * 64 + (b - 0x80)"] join64 [of "b - 0x80" "a - 0xF0"]
  by (simp add: continues_def utf8_bytes_def)

lemma utf8_char_sound:
  assumes "utf8_char bs = Some (n, r)" and "\<forall>b \<in> set bs. 0 \<le> b"
  shows "scalar n \<and> bs = utf8_bytes n @ r"
proof (cases bs)
  case (Cons a xs)
  have a: "0 \<le> a" using assms(2) Cons by simp
  consider "a < 0x80" | "0x80 \<le> a" "a < 0xC0" | "0xC0 \<le> a" "a < 0xE0" | "0xE0 \<le> a" "a < 0xF0" | "0xF0 \<le> a" "a < 0xF8" | "0xF8 \<le> a"
    by linarith
  then show ?thesis
  proof cases
    case 1
    with assms Cons show ?thesis by (auto simp: utf8_bytes_def scalar_def)
  next
    case 3
    with assms(1) Cons obtain b where "xs = b # r" "continues b" "n = (a - 0xC0) * 64 + (b - 0x80)" "0x80 \<le> n"
      by (auto simp: Let_def split: list.splits if_splits)
    with two_bytes [of b a n] 3 Cons show ?thesis by simp
  next
    case 4
    with assms(1) Cons obtain b c where "xs = b # c # r" "continues b" "continues c" "scalar n" "0x800 \<le> n"
        "n = ((a - 0xE0) * 64 + (b - 0x80)) * 64 + (c - 0x80)"
      by (auto simp: Let_def split: list.splits if_splits)
    with three_bytes [of b c a n] 4 Cons show ?thesis by simp
  next
    case 5
    with assms(1) Cons obtain b c d where "xs = b # c # d # r" "continues b" "continues c" "continues d" "scalar n"
        "0x10000 \<le> n" "n = (((a - 0xF0) * 64 + (b - 0x80)) * 64 + (c - 0x80)) * 64 + (d - 0x80)"
      by (auto simp: Let_def split: list.splits if_splits)
    with four_bytes [of b c d a n] 5 Cons show ?thesis by simp
  qed (use assms(1) Cons in simp_all)
qed (use assms(1) in simp)

section \<open>Decoding is the inverse of encoding\<close>

lemma utf8_bytes_nonempty: "utf8_bytes n \<noteq> []"
  by (simp add: utf8_bytes_def)

lemma utf8_decode_encode: "list_all scalar cs \<Longrightarrow> utf8_decode (utf8_encode cs) = Inr cs"
proof (induction cs)
  case Nil
  show ?case by (simp add: utf8_encode_def)
next
  case (Cons n cs)
  have e: "utf8_encode (n # cs) = utf8_bytes n @ utf8_encode cs" by (simp add: utf8_encode_def)
  obtain b bs where b: "utf8_bytes n @ utf8_encode cs = b # bs"
    using utf8_bytes_nonempty [of n] by (cases "utf8_bytes n") auto
  have "utf8_char (b # bs) = Some (n, utf8_encode cs)"
    using Cons.prems utf8_char_bytes [of n "utf8_encode cs"] unfolding b by simp
  with Cons show ?case unfolding e b by simp
qed

lemma utf8_decode_sound:
  "utf8_decode bs = Inr cs \<Longrightarrow> \<forall>b \<in> set bs. 0 \<le> b \<Longrightarrow> list_all scalar cs \<and> bs = utf8_encode cs"
proof (induction bs arbitrary: cs rule: utf8_decode.induct)
  case 1
  then show ?case by (simp add: utf8_encode_def)
next
  case (2 b bs)
  from "2.prems"(1) obtain n r ds where c: "utf8_char (b # bs) = Some (n, r)" and d: "utf8_decode r = Inr ds" and cs: "cs = n # ds"
    by (auto simp del: utf8_char.simps split: option.splits elim!: bind_sum_InrE)
  have s: "scalar n" "b # bs = utf8_bytes n @ r" using utf8_char_sound [OF c "2.prems"(2)] by simp_all
  have "\<forall>b \<in> set r. 0 \<le> b" using s(2) "2.prems"(2) by (metis Un_iff set_append)
  with "2.IH" [OF c refl d] have "list_all scalar ds \<and> r = utf8_encode ds" by blast
  with s cs show ?case by (simp add: utf8_encode_def)
qed

text \<open>C21. \<^verbatim>\<open>int_to_string\<close> is the inverse of the encoding of texts: it gives a text exactly when the big-endian
  bytes of the number are the UTF-8 encoding of that text, and raises for every other number; overlong
  forms, surrogates and code points above 0x10FFFF are among these.\<close>

theorem int_to_string_iff:
  "int_to_string num = Inr cs \<longleftrightarrow>
     list_all scalar cs \<and> (\<exists>bs. int_to_bytes num = Inr bs \<and> map byte_val bs = utf8_encode cs)"
proof
  assume "int_to_string num = Inr cs"
  then obtain bs where bs: "int_to_bytes num = Inr bs" and "utf8_decode (map byte_val bs) = Inr cs"
    by (auto simp: int_to_string_def elim!: bind_sum_InrE)
  with utf8_decode_sound show "list_all scalar cs \<and> (\<exists>bs. int_to_bytes num = Inr bs \<and> map byte_val bs = utf8_encode cs)"
    by (force simp: byte_val_range)
next
  assume "list_all scalar cs \<and> (\<exists>bs. int_to_bytes num = Inr bs \<and> map byte_val bs = utf8_encode cs)"
  then show "int_to_string num = Inr cs"
    using utf8_decode_encode by (auto simp: int_to_string_def)
qed

text \<open>Bytes below 0x80 are the characters themselves.\<close>

lemma utf8_decode_ascii: "list_all (\<lambda>b. b < 0x80) bs \<Longrightarrow> utf8_decode bs = Inr bs"
  by (induction bs) simp_all

end
