(* ===== verification/Deployment.thy ===== *)
theory Deployment
  imports ContractCalls Utf8 "HOL-Library.AList"
begin

text \<open>
  The deployment scripts \<^verbatim>\<open>kakarot_scripts/deployment/*.py\<close>: the Starknet contracts, Kakarot itself (deployed
  or upgraded), the EVM contracts, the pre-EIP-155 contracts and the DualVM tokens, and \<^verbatim>\<open>main.py\<close>
  that runs them.  A dictionary of deployments is an association list in insertion order.  Random salts,
  the ABIs of Solidity contracts, the precompiles of Ethereum and the token file are arguments.
\<close>

section \<open>Environment\<close>

text \<open>An entry of the token file; each key may be missing.\<close>

record token =
  tk_name :: "string option"
  tk_symbol :: "string option"
  tk_decimals :: "int option"
  tk_l2_address :: "string option"

text \<open>The outer option of \<open>dv_token_file\<close> is the key of the network's dictionary, the inner the file.\<close>

record 'w deploy_env =
  dv_salt :: "'w \<Rightarrow> int"
  dv_fuel :: nat
  dv_coinbase :: int
  dv_ethereum_precompiles :: "int list"
  dv_token_file :: "token list option option"
  dv_l1_balance :: "event list \<Rightarrow> int \<Rightarrow> exn + int"

definition block_gas_limit :: int where
  "block_gas_limit = 7000000"

definition default_gas_price :: int where
  "default_gas_price = 1"

text \<open>The precompiles (\<^verbatim>\<open>tests/utils/constants.py\<close>); those of Ethereum are listed by the package \<^verbatim>\<open>ethereum\<close>.\<close>

definition ALL_PRECOMPILES :: "int list \<Rightarrow> int list" where
  "ALL_PRECOMPILES ethereum_precompiles = ethereum_precompiles @ [0x100] @ [0x75001, 0x75003, 0x75004]"

definition deploy_fresh :: "env \<Rightarrow> ('m world_scheme) deploy_env \<Rightarrow> string \<Rightarrow> arg list \<Rightarrow> ('m world_scheme, int) py" where
  "deploy_fresh E D name args = bnd (gets (dv_salt D)) (\<lambda>salt. deploy E name salt args)"

definition declared_hash :: "(string \<times> int) list \<Rightarrow> string \<Rightarrow> ('s, int) py" where
  "declared_hash hashes name = get_option KeyError (map_of hashes name)"

definition invoke_kakarot :: "env \<Rightarrow> string \<Rightarrow> arg list \<Rightarrow> int option \<Rightarrow> ('m world_scheme, unit) py" where
  "invoke_kakarot E f args address = seq (invoke E (ByName ''kakarot'') f args address None) (ret ())"

text \<open>The arguments of the constructor that the EVM test contract and Kakarot share.\<close>

definition kakarot_args :: "env \<Rightarrow> (string \<times> int) list \<Rightarrow> int \<Rightarrow> ('s, arg list) py" where
  "kakarot_args E hashes owner =
     bnd (declared_hash hashes ''account_contract'') (\<lambda>account.
     bnd (declared_hash hashes ''uninitialized_account'') (\<lambda>uninitialized.
     bnd (declared_hash hashes ''Cairo1Helpers'') (\<lambda>helpers.
     ret (map Felt [owner, eth_token_address E, account, uninitialized, helpers, block_gas_limit,
       nw_chain_id (network E)]))))"

definition with_lazy :: "int \<Rightarrow> ('m world_scheme, unit) py \<Rightarrow> ('m world_scheme, unit) py" where
  "with_lazy a body = seq (register_lazy_account a) (seq body (remove_lazy_account a))"

text \<open>\<^verbatim>\<open>try: await RPC_CLIENT... except Exception: return\<close> at the head of the scripts.\<close>

definition succeeds_py :: "('s, 'a) py \<Rightarrow> ('s, bool) py" where
  "succeeds_py m = try_except (seq m (ret True)) (\<lambda>_. ret False)"

definition kakarot_declared :: "env \<Rightarrow> ('m world_scheme, bool) py" where
  "kakarot_declared E =
     succeeds_py (bnd get_declarations (\<lambda>d.
       bnd (declared_hash d ''kakarot'') (\<lambda>ch. ask (ClassByHash ch) (\<lambda>h. o_class_by_hash E h ch))))"

definition kakarot_deployed :: "env \<Rightarrow> ('m world_scheme, bool) py" where
  "kakarot_deployed E =
     succeeds_py (bnd get_deployments (\<lambda>d.
       bnd (declared_hash d ''kakarot'') (ask_class_hash_at E)))"

section \<open>Starknet contracts\<close>

definition set_evm_coinbase :: "env \<Rightarrow> int \<Rightarrow> int \<Rightarrow> ('m world_scheme, unit) py" where
  "set_evm_coinbase E evm coinbase_address =
     bnd (try_except
            (bnd (bnd (call_fn E (ByName ''EVM'') ''get_coinbase'' [] (Some evm)) felt_output) (\<lambda>c. ret (Some c)))
            (\<lambda>_. ret None)) (\<lambda>coinbase.
     py_when (coinbase \<noteq> Some coinbase_address)
       (seq (invoke E (ByName ''EVM'') ''set_coinbase'' [Felt coinbase_address] (Some evm) None) (ret ())))"

definition deploy_starknet_contracts ::
    "env \<Rightarrow> ('m world_scheme) deploy_env \<Rightarrow> account \<Rightarrow> ('m world_scheme, unit) py" where
  "deploy_starknet_contracts E D account =
     bnd get_declarations (\<lambda>class_hash.
     bnd get_deployments (\<lambda>deployments.
     if nw_type (network E) = ProdNet then ret ()
     else
       bnd (kakarot_args E class_hash (ac_address account)) (\<lambda>args.
       bnd (deploy_fresh E D ''EVM'' args) (\<lambda>evm.
       seq (set_evm_coinbase E evm (dv_coinbase D))
      (bnd (deploy_fresh E D ''Counter'' []) (\<lambda>counter.
       bnd (deploy_fresh E D ''MockPragmaOracle'' []) (\<lambda>oracle.
       bnd (deploy_fresh E D ''MockPragmaSummaryStats'' [Felt oracle]) (\<lambda>stats.
       bnd (deploy_fresh E D ''UniversalLibraryCaller'' []) (\<lambda>caller.
       bnd (deploy_fresh E D ''BenchmarkCairoCalls'' []) (\<lambda>benchmark.
       dump_deployments (fold (\<lambda>(n, a). AList.update n a)
         [(''EVM'', evm), (''Counter'', counter), (''MockPragmaOracle'', oracle),
          (''MockPragmaSummaryStats'', stats), (''UniversalLibraryCaller'', caller),
          (''BenchmarkCairoCalls'', benchmark)] deployments)))))))))))"

definition starknet_deployments_main :: "env \<Rightarrow> ('m world_scheme) deploy_env \<Rightarrow> ('m world_scheme, unit) py" where
  "starknet_deployments_main E D =
     bnd (kakarot_declared E) (\<lambda>declared.
     py_when declared
       (bnd (main_account E) (\<lambda>account.
        with_lazy (ac_address account) (seq (deploy_starknet_contracts E D account) (execute_calls E)))))"

section \<open>Kakarot\<close>

definition upgrade_kakarot :: "env \<Rightarrow> (string \<times> int) list \<Rightarrow> int \<Rightarrow> ('m world_scheme, unit) py" where
  "upgrade_kakarot E class_hash kakarot =
     bnd (ask_class_hash_at E kakarot) (\<lambda>deployed_class_hash.
     bnd (declared_hash class_hash ''kakarot'') (\<lambda>declared.
     seq (py_when (deployed_class_hash \<noteq> declared)
            (seq (invoke_kakarot E ''upgrade'' [Felt declared] None)
            (bnd (declared_hash class_hash ''account_contract'') (\<lambda>account.
             seq (invoke_kakarot E ''set_account_contract_class_hash'' [Felt account] None)
            (bnd (declared_hash class_hash ''Cairo1Helpers'') (\<lambda>helpers.
             invoke_kakarot E ''set_cairo1_helpers_class_hash'' [Felt helpers] None))))))
    (bnd (eth_chain_id E) (\<lambda>chain_id.
     py_when (chain_id = 0) (invoke_kakarot E ''initialize_chain_id'' [Felt (nw_chain_id (network E))] None)))))"

definition deploy_or_upgrade_kakarot ::
    "env \<Rightarrow> kk_env \<Rightarrow> ('m world_scheme) deploy_env \<Rightarrow> account \<Rightarrow> ('m world_scheme, unit) py" where
  "deploy_or_upgrade_kakarot E K D owner =
     bnd get_declarations (\<lambda>class_hash.
     bnd get_deployments (\<lambda>deployments.
     let known = (case map_of deployments ''kakarot'' of Some a \<Rightarrow> a | None \<Rightarrow> 0)
     in if known \<noteq> 0 \<and> nw_type (network E) \<noteq> DevNet
        then seq (upgrade_kakarot E class_hash known) (dump_deployments deployments)
        else
          bnd (kakarot_args E class_hash (ac_address owner)) (\<lambda>args.
          bnd (deploy_fresh E D ''kakarot'' args) (\<lambda>kakarot.
          seq (invoke_kakarot E ''set_base_fee'' [Felt default_gas_price] (Some kakarot))
         (seq (invoke_kakarot E ''set_coinbase'' [Felt (evm_address_of K (evm_private_key K))] (Some kakarot))
              (dump_deployments (AList.update ''kakarot'' kakarot deployments)))))))"

definition kakarot_deployment_main ::
    "env \<Rightarrow> kk_env \<Rightarrow> ('m world_scheme) deploy_env \<Rightarrow> ('m world_scheme, unit) py" where
  "kakarot_deployment_main E K D =
     bnd (kakarot_declared E) (\<lambda>declared.
     py_when declared
       (bnd (main_account E) (\<lambda>account.
        with_lazy (ac_address account) (seq (deploy_or_upgrade_kakarot E K D account) (execute_calls E)))))"

section \<open>EVM contracts\<close>

definition entry_of :: "deployed \<Rightarrow> kk_deployment" where
  "entry_of d = \<lparr>kd_address = dp_address d, kd_starknet_address = dp_starknet_address d\<rparr>"

definition deploy_evm ::
    "env \<Rightarrow> kk_env \<Rightarrow> ('m kk_world_scheme) deploy_env \<Rightarrow> string \<Rightarrow> string \<Rightarrow> arg list \<Rightarrow>
       ('m kk_world_scheme, deployed) py" where
  "deploy_evm E K D app name args = deploy_contract (dv_fuel D) E K app name args None 0"

text \<open>A token recorded with the Starknet address that Kakarot gives its EVM address is current.\<close>

definition token_current ::
    "env \<Rightarrow> (string \<times> kk_deployment) list \<Rightarrow> string \<Rightarrow> ('m world_scheme, bool) py" where
  "token_current E deployments name =
     (case map_of deployments name of
        None \<Rightarrow> ret False
      | Some d \<Rightarrow>
          bnd (bnd (call_fn E (ByName ''kakarot'') ''get_starknet_address'' [Felt (kd_address d)] None) felt_output)
            (\<lambda>a. ret (kd_starknet_address d = a)))"

definition deploy_token ::
    "env \<Rightarrow> kk_env \<Rightarrow> ('m kk_world_scheme) deploy_env \<Rightarrow> string \<times> string \<times> string \<times> arg list \<Rightarrow>
       (string \<times> kk_deployment) list \<Rightarrow> ('m kk_world_scheme, (string \<times> kk_deployment) list) py" where
  "deploy_token E K D = (\<lambda>(app, name, deployed_name, args) deployments.
     bnd (token_current E deployments deployed_name) (\<lambda>current.
     if current then ret deployments
     else bnd (deploy_evm E K D app name args) (\<lambda>d.
          ret (AList.update deployed_name (entry_of d) deployments))))"

definition deploy_coinbase ::
    "env \<Rightarrow> kk_env \<Rightarrow> ('m kk_world_scheme) deploy_env \<Rightarrow> (string \<times> kk_deployment) list \<Rightarrow>
       ('m kk_world_scheme, (string \<times> kk_deployment) list) py" where
  "deploy_coinbase E K D deployments =
     bnd (bnd (call_fn E (ByName ''kakarot'') ''get_coinbase'' [] None) felt_output) (\<lambda>coinbase.
     if map_option kd_address (map_of deployments ''Coinbase'') = Some coinbase then ret deployments
     else
       bnd (bnd (call_contract E ''kakarot'' ''get_native_token'' [] None) felt_output) (\<lambda>native.
       bnd (deploy_evm E K D ''Kakarot'' ''Coinbase'' [Felt native]) (\<lambda>d.
       seq (invoke_kakarot E ''set_coinbase'' [Felt (dp_address d)] None)
           (ret (AList.update ''Coinbase'' (entry_of d) deployments)))))"

definition deploy_evm_contracts ::
    "env \<Rightarrow> kk_env \<Rightarrow> ('m kk_world_scheme) deploy_env \<Rightarrow> ('m kk_world_scheme, unit) py" where
  "deploy_evm_contracts E K D =
     bnd kk_get_deployments (\<lambda>deployments.
     bnd (deploy_token E K D (''WETH'', ''WETH9'', ''WETH9'', []) deployments) (\<lambda>deployments.
     bnd (deploy_coinbase E K D deployments) (\<lambda>deployments.
     seq (for_each (ALL_PRECOMPILES (dv_ethereum_precompiles D)) (\<lambda>precompile.
            bnd (lift_sum (num_truediv (PInt 1) e18)) (kk_fund_address E (AddrInt precompile))))
         (kk_dump_deployments E deployments))))"

definition evm_amount :: "env \<Rightarrow> pynum" where
  "evm_amount E = (if nw_type (network E) = DevNet then PInt 100 else PFloat (rnd (1 / 100)))"

definition fund_evm_deployer :: "env \<Rightarrow> kk_env \<Rightarrow> ('m world_scheme, unit) py" where
  "fund_evm_deployer E K =
     seq (deploy_and_fund_evm_address E (evm_address_of K (evm_private_key K)) (evm_amount E)) (ret ())"

definition evm_deployments_main ::
    "env \<Rightarrow> kk_env \<Rightarrow> ('m kk_world_scheme) deploy_env \<Rightarrow> ('m kk_world_scheme, unit) py" where
  "evm_deployments_main E K D =
     bnd (kakarot_deployed E) (\<lambda>deployed.
     py_when deployed
       (seq (fund_evm_deployer E K)
       (bnd (main_account E) (\<lambda>account.
        with_lazy (ac_address account) (seq (deploy_evm_contracts E K D) (execute_calls E))))))"

section \<open>Pre-EIP-155 contracts\<close>

definition deploy_pre_eip155_senders :: "env \<Rightarrow> kk_env \<Rightarrow> ('m kk_world_scheme, unit) py" where
  "deploy_pre_eip155_senders E K = for_each (map fst (PRE_EIP155_TX (pre_rest K))) (deploy_pre_eip155_sender E K)"

definition whitelist_pre_eip155_txs :: "env \<Rightarrow> kk_env \<Rightarrow> ('m kk_world_scheme, unit) py" where
  "whitelist_pre_eip155_txs E K = for_each (map fst (PRE_EIP155_TX (pre_rest K))) (whitelist_pre_eip155_tx E K)"

fun record_pre_contracts ::
    "env \<Rightarrow> kk_env \<Rightarrow> string list \<Rightarrow> (string \<times> kk_deployment) list \<Rightarrow>
       ('m kk_world_scheme, (string \<times> kk_deployment) list) py" where
  "record_pre_contracts E K [] deployments = ret deployments"
| "record_pre_contracts E K (name # names) deployments =
     seq (send_pre_eip155_transaction E K name)
    (bnd (pre_tx_of K name) (\<lambda>tx.
     bnd (get_starknet_address E (AddrInt (pt_address tx))) (\<lambda>a.
     record_pre_contracts E K names
       (AList.update name \<lparr>kd_address = pt_address tx, kd_starknet_address = a\<rparr> deployments))))"

definition deploy_pre_eip155_contracts :: "env \<Rightarrow> kk_env \<Rightarrow> ('m kk_world_scheme, unit) py" where
  "deploy_pre_eip155_contracts E K =
     bnd kk_get_deployments (\<lambda>deployments.
     bnd (record_pre_contracts E K (map fst (PRE_EIP155_TX (pre_rest K))) deployments) (kk_dump_deployments E))"

definition pre_eip155_main :: "env \<Rightarrow> kk_env \<Rightarrow> ('m kk_world_scheme, unit) py" where
  "pre_eip155_main E K =
     bnd (kakarot_deployed E) (\<lambda>deployed.
     py_when deployed
       (bnd (main_account E) (\<lambda>account.
        seq (with_lazy (ac_address account)
               (seq (deploy_pre_eip155_senders E K)
               (seq (execute_calls E)
               (seq (whitelist_pre_eip155_txs E K)
                    (execute_calls E)))))
            (deploy_pre_eip155_contracts E K))))"

section \<open>DualVM tokens\<close>

text \<open>\<^verbatim>\<open>int_to_string\<close> of a name on Starknet; texts are ASCII, other bytes do not decode.\<close>

definition felt_text :: "int \<Rightarrow> exn + string" where
  "felt_text n =
     bind_sum (int_to_bytes n) (\<lambda>bs.
     if list_all (\<lambda>b. byte_val b < 128) bs then Inr (map (\<lambda>b. char_of (nat (byte_val b))) bs)
     else Inl UnicodeDecodeError)"

lemma felt_text_decodes: "felt_text n = Inr s \<Longrightarrow> int_to_string n = Inr (map of_char s)"
proof -
  assume "felt_text n = Inr s"
  then obtain bs where bs: "int_to_bytes n = Inr bs" "list_all (\<lambda>b. byte_val b < 128) bs"
    and s: "s = map (\<lambda>b. char_of (nat (byte_val b))) bs"
    unfolding felt_text_def by (auto elim!: bind_sum_InrE split: if_splits)
  have "of_char (char_of (nat (byte_val b)) :: char) = byte_val b" for b :: byte
  proof -
    have "(of_char (char_of (nat (byte_val b)) :: char) :: int) = int (nat (byte_val b) mod 256)"
      by (metis of_char_of of_nat_of_char)
    with byte_val_range [of b] show ?thesis by simp
  qed
  then have "map of_char s = map byte_val bs" by (simp add: s)
  with bs show ?thesis by (simp add: int_to_string_def utf8_decode_ascii list.pred_map o_def)
qed

text \<open>A handle of a deployed Solidity contract, and a call of one of its functions.\<close>

definition open_solidity ::
    "env \<Rightarrow> kk_env \<Rightarrow> ('m kk_world_scheme) deploy_env \<Rightarrow> string \<Rightarrow> string \<Rightarrow> int \<Rightarrow> ('m kk_world_scheme, kk_contract) py" where
  "open_solidity E K D app name address =
     solidity_contract E K (\<lambda>lapp lname. deploy_contract (dv_fuel D) E K lapp lname [] None 0) app name
       (AddrInt address) None"

definition call_solidity ::
    "env \<Rightarrow> kk_env \<Rightarrow> kk_contract \<Rightarrow> string \<Rightarrow> arg list \<Rightarrow> ('m kk_world_scheme, call_result) py" where
  "call_solidity E K contract f args =
     bnd (get_option AttributeError (attached (kc_abi contract) f)) (\<lambda>signature.
     bnd (lift_sum (function_by_signature (kc_abi contract) signature)) (\<lambda>g.
     wrap_kakarot E K (Some g) (kc_address contract) args (kc_caller contract) transaction_gas_limit default_gas_price 0))"

definition text_result :: "call_result \<Rightarrow> ('s, string) py" where
  "text_result r = (case r of Single (Text t) \<Rightarrow> ret t | _ \<Rightarrow> raise AttributeError)"

text \<open>\<^verbatim>\<open>.lstrip("\x00")\<close>\<close>

definition lstrip_nul :: "string \<Rightarrow> string" where
  "lstrip_nul = dropWhile (\<lambda>c. c = CHR 0x00)"

definition dualvm_current ::
    "env \<Rightarrow> kk_env \<Rightarrow> ('m kk_world_scheme) deploy_env \<Rightarrow> int \<Rightarrow> kk_deployment \<Rightarrow> ('m kk_world_scheme, bool) py" where
  "dualvm_current E K D kakarot d =
     succeeds_py
       (seq (ask_class_hash_at E (kd_starknet_address d))
       (bnd (open_solidity E K D ''CairoPrecompiles'' ''DualVmToken'' (kd_address d)) (\<lambda>token_contract.
        bnd (call_solidity E K token_contract ''kakarot'' []) (\<lambda>r.
        py_assert (r = Single (Felt kakarot))))))"

text \<open>The L2 token of an entry: the one in the file, or a new one on a development network.\<close>

definition ensure_l2_token ::
    "env \<Rightarrow> ('m world_scheme) deploy_env \<Rightarrow> token \<Rightarrow> string \<Rightarrow> int \<Rightarrow> ('m world_scheme, int \<times> bool) py" where
  "ensure_l2_token E D tk name l2 =
     try_except (seq (ask_class_hash_at E l2) (ret (l2, False)))
       (\<lambda>_. if nw_type (network E) \<noteq> DevNet
            then raise (ValueError (''Starknet token for '' @ name @ '' does not exist on L2''))
            else
              bnd (main_account E) (\<lambda>owner.
              bnd (get_option KeyError (tk_symbol tk)) (\<lambda>symbol.
              bnd (get_option KeyError (tk_decimals tk)) (\<lambda>decimals.
              bnd (deploy_fresh E D ''StarknetToken''
                     [Text name, Text symbol, Felt decimals, Felt (2 ^ 256 - 1), Felt (ac_address owner)]) (\<lambda>a.
              ret (a, True))))))"

definition check_dualvm ::
    "env \<Rightarrow> kk_env \<Rightarrow> ('m kk_world_scheme) deploy_env \<Rightarrow> token \<Rightarrow> string \<Rightarrow> int \<Rightarrow> int \<Rightarrow> ('m kk_world_scheme, unit) py" where
  "check_dualvm E K D tk name address l2 =
     bnd (open_solidity E K D ''CairoPrecompiles'' ''DualVmToken'' address) (\<lambda>token_contract.
     let view = (\<lambda>f. call_solidity E K token_contract f [])
     in (bnd (view ''starknetToken'') (\<lambda>r.
         seq (py_assert (r = Single (Felt l2)))
        (bnd (bnd (view ''name'') text_result) (\<lambda>n.
         seq (py_assert (lstrip_nul n = name))
        (bnd (bnd (view ''symbol'') text_result) (\<lambda>s.
         bnd (get_option KeyError (tk_symbol tk)) (\<lambda>symbol.
         seq (py_assert (lstrip_nul s = symbol))
        (bnd (view ''decimals'') (\<lambda>r.
         bnd (get_option KeyError (tk_decimals tk)) (\<lambda>decimals.
         py_assert (r = Single (Felt decimals)))))))))))))"

definition create_dualvm ::
    "env \<Rightarrow> kk_env \<Rightarrow> ('m kk_world_scheme) deploy_env \<Rightarrow> int \<Rightarrow> int \<Rightarrow> ('m kk_world_scheme, kk_deployment) py" where
  "create_dualvm E K D kakarot l2 =
     bnd (deploy_evm E K D ''CairoPrecompiles'' ''DualVmToken'' [Felt kakarot, Felt l2]) (\<lambda>d.
     seq (invoke_kakarot E ''set_authorized_cairo_precompile_caller'' [Felt (dp_address d), Flag True] None)
         (ret (entry_of d)))"

definition dualvm_token ::
    "env \<Rightarrow> kk_env \<Rightarrow> ('m kk_world_scheme) deploy_env \<Rightarrow> int \<Rightarrow> string \<times> string \<Rightarrow> token \<Rightarrow>
       (string \<times> kk_deployment) list \<Rightarrow> ('m kk_world_scheme, (string \<times> kk_deployment) list) py" where
  "dualvm_token E K D kakarot native tk deployments =
     (case tk_l2_address tk of
       None \<Rightarrow> seq (get_option KeyError (tk_name tk)) (ret deployments)
     | Some l2_text \<Rightarrow>
         bnd (lift_sum (int16 l2_text)) (\<lambda>l2.
         bnd (get_option KeyError (tk_name tk)) (\<lambda>name.
         bnd (if name = fst native then bnd (get_option KeyError (tk_symbol tk)) (\<lambda>s. ret (s = snd native))
              else ret False) (\<lambda>is_native.
         if is_native then ret deployments
         else
           bnd (case map_of deployments name of
                  None \<Rightarrow> ret False | Some d \<Rightarrow> dualvm_current E K D kakarot d) (\<lambda>current.
           if current then ret deployments
           else
             bnd (ensure_l2_token E D tk name l2) (\<lambda>(l2, new_l2_token).
             bnd (if map_of deployments name = None \<or> new_l2_token
                  then bnd (create_dualvm E K D kakarot l2) (\<lambda>d. ret (AList.update name d deployments))
                  else ret deployments) (\<lambda>deployments.
             bnd (get_option KeyError (map_of deployments name)) (\<lambda>d.
             seq (check_dualvm E K D tk name (kd_address d) l2) (ret deployments)))))))))"

fun dualvm_loop ::
    "env \<Rightarrow> kk_env \<Rightarrow> ('m kk_world_scheme) deploy_env \<Rightarrow> int \<Rightarrow> string \<times> string \<Rightarrow> token list \<Rightarrow>
       (string \<times> kk_deployment) list \<Rightarrow> ('m kk_world_scheme, (string \<times> kk_deployment) list) py" where
  "dualvm_loop E K D kakarot native [] deployments = ret deployments"
| "dualvm_loop E K D kakarot native (tk # tks) deployments =
     bnd (dualvm_token E K D kakarot native tk deployments) (dualvm_loop E K D kakarot native tks)"

definition native_text :: "env \<Rightarrow> int \<Rightarrow> string \<Rightarrow> ('m world_scheme, string) py" where
  "native_text E token f =
     bnd (bnd (call_contract E ''ERC20'' f [] (Some token)) felt_output) (\<lambda>n. lift_sum (felt_text n))"

definition deploy_dualvm_tokens ::
    "env \<Rightarrow> kk_env \<Rightarrow> ('m kk_world_scheme) deploy_env \<Rightarrow> ('m kk_world_scheme, unit) py" where
  "deploy_dualvm_tokens E K D =
     bnd (main_account E) (\<lambda>account.
     seq (remove_lazy_account (ac_address account))
    (bnd get_deployments (\<lambda>starknet_deployments.
     bnd (get_option KeyError (map_of starknet_deployments ''kakarot'')) (\<lambda>kakarot.
     bnd kk_get_deployments (\<lambda>deployments.
     bnd (get_option KeyError (dv_token_file D)) (\<lambda>file.
     bnd (get_option (ValueError ''Token addresses file not found for network'') file) (\<lambda>tokens.
     bnd (bnd (call_contract E ''kakarot'' ''get_native_token'' [] None) felt_output) (\<lambda>native.
     bnd (native_text E native ''name'') (\<lambda>native_name.
     bnd (native_text E native ''symbol'') (\<lambda>native_symbol.
     bnd (dualvm_loop E K D kakarot (native_name, native_symbol) tokens deployments) (\<lambda>deployments.
     seq (kk_dump_deployments E deployments)
         (register_lazy_account (ac_address account)))))))))))))"

definition dualvm_main ::
    "env \<Rightarrow> kk_env \<Rightarrow> ('m kk_world_scheme) deploy_env \<Rightarrow> ('m kk_world_scheme, unit) py" where
  "dualvm_main E K D =
     bnd (kakarot_deployed E) (\<lambda>deployed.
     py_when deployed (seq (fund_evm_deployer E K) (deploy_dualvm_tokens E K D)))"

section \<open>The whole deployment\<close>

definition withdraw_coinbase ::
    "env \<Rightarrow> kk_env \<Rightarrow> ('m kk_world_scheme) deploy_env \<Rightarrow> account \<Rightarrow> ('m kk_world_scheme, int) py" where
  "withdraw_coinbase E K D account =
     bnd (bnd (call_fn E (ByName ''kakarot'') ''get_coinbase'' [] None) felt_output) (\<lambda>coinbase.
     seq (py_when (coinbase \<noteq> 0)
            (bnd (open_solidity E K D ''Kakarot'' ''Coinbase'' coinbase) (\<lambda>contract.
             bnd (eth_balance_of E (AddrInt coinbase)) (\<lambda>balance.
             bnd (lift_sum (num_truediv (PInt balance) e18)) (\<lambda>eth.
             py_when (PFloat (rnd (1 / 1000)) < eth)
               (seq (call_solidity E K contract ''withdraw'' [Felt (ac_address account)])
                    (ret ())))))))
         (ret coinbase))"

definition report_balances ::
    "env \<Rightarrow> kk_env \<Rightarrow> ('m world_scheme) deploy_env \<Rightarrow> account \<Rightarrow> int \<Rightarrow> ('m world_scheme, unit) py" where
  "report_balances E K D account coinbase =
     (let evm = evm_address_of K (evm_private_key K)
      in seq (get_balance E (AddrInt (ac_address account)) None)
        (seq (eth_balance_of E (AddrInt coinbase))
        (seq (eth_balance_of E (AddrInt evm))
        (seq (peek (\<lambda>h. dv_l1_balance D h evm))
             (ret ())))))"

definition check_precompile :: "env \<Rightarrow> int \<Rightarrow> ('m world_scheme, unit) py" where
  "check_precompile E precompile =
     bnd (get_starknet_address E (AddrInt precompile)) (\<lambda>a.
     bnd (get_balance E (AddrInt a) None) (\<lambda>balance. py_assert (0 < balance)))"

text \<open>The part that runs with the account lazy, and the part that must be sequential.\<close>

definition deploy_batched ::
    "env \<Rightarrow> kk_env \<Rightarrow> ('m kk_world_scheme) deploy_env \<Rightarrow> account \<Rightarrow> ('m kk_world_scheme, unit) py" where
  "deploy_batched E K D account =
     seq (deploy_starknet_contracts E D account)
    (seq (deploy_or_upgrade_kakarot E K D account)
    (seq (execute_calls E)
    (seq (deploy_pre_eip155_senders E K)
    (seq (fund_evm_deployer E K)
    (seq (execute_calls E)
    (seq (deploy_evm_contracts E K D)
    (seq (deploy_dualvm_tokens E K D)
    (seq (whitelist_pre_eip155_txs E K)
         (execute_calls E)))))))))"

definition deploy_sequential ::
    "env \<Rightarrow> kk_env \<Rightarrow> ('m kk_world_scheme) deploy_env \<Rightarrow> account \<Rightarrow> ('m kk_world_scheme, unit) py" where
  "deploy_sequential E K D account =
     seq (deploy_pre_eip155_contracts E K)
    (bnd (withdraw_coinbase E K D account) (\<lambda>coinbase.
     seq (report_balances E K D account coinbase)
         (for_each (ALL_PRECOMPILES (dv_ethereum_precompiles D)) (check_precompile E))))"

definition deploy_all ::
    "env \<Rightarrow> kk_env \<Rightarrow> ('m kk_world_scheme) deploy_env \<Rightarrow> ('m kk_world_scheme, unit) py" where
  "deploy_all E K D =
     bnd (main_account E) (\<lambda>account.
     seq (register_lazy_account (ac_address account))
    (seq (get_balance E (AddrInt (ac_address account)) None)
    (seq (deploy_batched E K D account)
    (seq (remove_lazy_account (ac_address account))
         (deploy_sequential E K D account)))))"

end
