(* ===== verification/DeploymentFacts.thy ===== *)
theory DeploymentFacts
  imports Deployment
begin

text \<open>
  What the deployment leaves behind.  Two things could go wrong between the deferred calls of the main
  account and the lazy flags that defer them: a call could stay in the log for ever, or an account
  could stay lazy.  The relation \<open>steady\<close> covers the operations that set no flag, the predicate
  \<open>pooled\<close> those that may create the relayer pool on their way.
\<close>

section \<open>Operations that set no lazy flag\<close>

definition cache_ok :: "int \<Rightarrow> 'm world_scheme \<Rightarrow> bool" where
  "cache_ok A s \<longleftrightarrow> (\<forall>acc. account_cache s (NoAddr, None) = Some acc \<longrightarrow> ac_address acc = A)"

definition none_lazy :: "'m world_scheme \<Rightarrow> bool" where
  "none_lazy s \<longleftrightarrow> (\<forall>a. \<not> lazy_accounts s a)"

definition steady :: "int \<Rightarrow> 'm world_scheme \<Rightarrow> 'm world_scheme \<Rightarrow> bool" where
  "steady A s t \<longleftrightarrow> lazy_accounts t = lazy_accounts s \<and> (cache_ok A s \<longrightarrow> cache_ok A t) \<and>
     (none_lazy s \<and> logs s = [] \<longrightarrow> logs t = [])"

interpretation steady: step_relation "steady A" for A
  by unfold_locales (auto simp: steady_def none_lazy_def)

named_theorems steady_ops \<open>operations that are steady\<close>

lemma quiet_steady: "rel_py quiet m \<Longrightarrow> rel_py (steady A) m"
  by (erule rel_py_mono) (simp add: quiet_globals steady_def cache_ok_def)

lemma steady_pieces [steady_ops]:
  "rel_py (steady A) (ask ev oracle)" "rel_py (steady A) (emit ev)"
  "rel_py (steady A) (get_selector_from_name E f)" "rel_py (steady A) get_deployments"
  "rel_py (steady A) get_declarations" "rel_py (steady A) (dump_deployments ds)"
  "rel_py (steady A) (felt_output r)" "rel_py (steady A) (new_account E a k)"
  "rel_py (steady A) (register_multisig_account a)" "rel_py (steady A) (py_assert b)"
  "rel_py (steady A) (modify (\<lambda>s. s\<lparr>contract_cache := f1 s\<rparr>))"
  "rel_py (steady A) (modify (\<lambda>s. s\<lparr>next_ref := f2 s\<rparr>))"
  "rel_py (steady A) (modify (\<lambda>s. s\<lparr>relayer_pool := f3 s\<rparr>))"
  by (auto simp: rel_py_def steady_def cache_ok_def py_run get_selector_from_name_def felt_output_def
      new_account_def register_multisig_account_def get_deployments_def get_declarations_def
      dump_deployments_def py_assert_def Let_def split: option.split sum.split list.split arg.split)

lemma steady_kk [steady_ops]:
  "rel_py (steady A) (modify (\<lambda>s. s\<lparr>evm_nonces := g1 s\<rparr>))"
  "rel_py (steady A) (modify (store_evm_nonce k n))"
  "rel_py (steady A) (modify (\<lambda>s. s\<lparr>library_cache := g2 s\<rparr>))"
  "rel_py (steady A) (kk_dump_deployments E ds)" "rel_py (steady A) kk_get_deployments"
  "rel_py (steady A) (set_should_deploy name b)" "rel_py (steady A) (pre_tx_of K name)"
  by (auto simp: rel_py_def steady_def cache_ok_def none_lazy_def py_run store_evm_nonce_def kk_dump_deployments_def
      kk_get_deployments_def set_should_deploy_def pre_tx_of_def split: option.split sum.split)

lemma steady_lookups [steady_ops]: "rel_py (steady A) (lookup_key d k)" "rel_py (steady A) (get_option e x)"
  by (rule steady.lookups)+

lemma steady_try: "rel_py (steady A) m \<Longrightarrow> (\<And>e. rel_py (steady A) (h e)) \<Longrightarrow> rel_py (steady A) (try_except m h)"
  by (rule steady.try_rule)

lemma probe_steady [steady_ops]: "rel_py (steady A) (probe_signers E a sels)"
  by (induction sels) (auto intro!: steady.rules steady_ops)

lemma get_contract_steady [steady_ops]: "rel_py (steady A) (get_contract E name a p)"
  unfolding get_contract_def Let_def by (auto intro!: steady.rules steady_ops split: option.split)

lemma abi_call_steady [steady_ops]: "rel_py (steady A) (abi_call E c f args)" "rel_py (steady A) (balance_of E c a)"
  unfolding abi_call_def balance_of_def by (auto intro!: steady.rules steady_ops)

text \<open>The account of the scripts is the one at the configured address.\<close>

definition main_at :: "env \<Rightarrow> int \<Rightarrow> bool" where
  "main_at E A \<longleftrightarrow> resolve_address E NoAddr = Inr A"

lemma get_starknet_account_steady [steady_ops]:
  assumes "main_at E A"
  shows "rel_py (steady A) (get_starknet_account E a k)"
proof -
  have build: "rel_py (steady A) (build_starknet_account E a k)"
    unfolding build_starknet_account_def check_signers_def
    by (auto intro!: steady.rules steady_ops split: option.split)
  have addr: "ac_address acc = A" if run: "build_starknet_account E NoAddr None s = Ret acc t"
    for s :: "'m world_scheme" and acc t
  proof -
    obtain key u where "new_account E A key u = Ret acc t"
      using run assms [unfolded main_at_def] unfolding build_starknet_account_def
      by (auto elim!: bnd_RetE seq_RetE simp: lift_sum_def split: sum.splits)
    then show ?thesis by (auto simp: new_account_def py_run)
  qed
  show ?thesis
    unfolding get_starknet_account_def
  proof (rule rel_pyI)
    fix s :: "'m world_scheme" and x t
    assume run: "bnd (gets (\<lambda>s. account_cache s (a, k))) (\<lambda>cached. case cached of Some account \<Rightarrow> ret account
       | None \<Rightarrow> bnd (build_starknet_account E a k) (\<lambda>account.
           seq (modify (\<lambda>s. s\<lparr>account_cache := (account_cache s)((a, k) \<mapsto> account)\<rparr>)) (ret account))) s = Ret x t"
    show "steady A s t"
    proof (cases "account_cache s (a, k)")
      case None
      with run obtain u where u: "build_starknet_account E a k s = Ret x u"
        and t: "t = u\<lparr>account_cache := (account_cache u)((a, k) \<mapsto> x)\<rparr>"
        by (auto simp: py_run split: outcome.splits)
      have "steady A s u" by (rule rel_pyD_Ret [OF build u])
      moreover have "cache_ok A t" if "cache_ok A u"
      proof (cases "(a, k) = (NoAddr, None)")
        case True
        with u addr have "ac_address x = A" by blast
        with True t show ?thesis by (simp add: cache_ok_def)
      next
        case False
        with t that show ?thesis by (auto simp: cache_ok_def)
      qed
      ultimately show ?thesis by (simp add: steady_def t)
    qed (use run in \<open>simp add: py_run steady.R_refl\<close>)
  next
    fix s :: "'m world_scheme" and e t
    assume "bnd (gets (\<lambda>s. account_cache s (a, k))) (\<lambda>cached. case cached of Some account \<Rightarrow> ret account
       | None \<Rightarrow> bnd (build_starknet_account E a k) (\<lambda>account.
           seq (modify (\<lambda>s. s\<lparr>account_cache := (account_cache s)((a, k) \<mapsto> account)\<rparr>)) (ret account))) s = Exc e t"
    then have "build_starknet_account E a k s = Exc e t"
      by (auto simp: py_run split: outcome.splits option.splits)
    then show "steady A s t" by (rule rel_pyD_Exc [OF build])
  qed
qed

lemma main_account_steady [steady_ops]:
  "main_at E A \<Longrightarrow> rel_py (steady A) (main_account E)"
  unfolding main_account_def by (rule get_starknet_account_steady)

lemma execute_v1_wrapped_steady [steady_ops]: "rel_py (steady A) (execute_v1_wrapped E account calls)"
  unfolding execute_v1_wrapped_def Let_def
  by (auto intro!: steady.rules steady_ops quiet_steady [OF get_nonce_quiet] quiet_steady [OF execute_multisig_quiet]
      quiet_steady [OF wait_for_transaction_quiet])

lemma execute_v1_steady [steady_ops]: "rel_py (steady A) (execute_v1 E account calls)"
proof (rule rel_pyI)
  fix s :: "'m world_scheme" and x t
  assume run: "execute_v1 E account calls s = Ret x t"
  show "steady A s t"
  proof (cases "lazy_accounts s (ac_address account)")
    case True
    with run have "t = s\<lparr>logs := extend_log account calls (logs s)\<rparr>" by (simp add: execute_v1_def py_run)
    moreover have "\<not> none_lazy s" using True by (auto simp: none_lazy_def)
    ultimately show ?thesis by (simp add: steady_def cache_ok_def)
  next
    case False
    with run have "execute_v1_wrapped E account calls s = Ret x t" by (simp add: execute_v1_def py_run)
    then show ?thesis by (rule rel_pyD_Ret [OF execute_v1_wrapped_steady])
  qed
next
  fix s :: "'m world_scheme" and e t
  assume "execute_v1 E account calls s = Exc e t"
  then show "steady A s t"
    by (cases "lazy_accounts s (ac_address account)")
      (auto simp: execute_v1_def gets_def bnd_def modify_def ret_def seq_def
        intro: rel_pyD_Exc [OF execute_v1_wrapped_steady])
qed

lemma execute_calls_steady [steady_ops]: "rel_py (steady A) (execute_calls E)"
proof -
  have "rel_py (steady A) (modify (\<lambda>s. s\<lparr>logs := []\<rparr>))"
    by (auto simp: rel_py_def modify_def steady_def cache_ok_def)
  then show ?thesis
    unfolding execute_calls_def by (auto intro!: steady.rules steady_ops)
qed

lemma get_eth_contract_steady [steady_ops]: "main_at E A \<Longrightarrow> rel_py (steady A) (get_eth_contract E p)"
  unfolding get_eth_contract_def by (auto intro!: steady.rules steady_ops split: option.split)

lemma get_balance_steady [steady_ops]: "main_at E A \<Longrightarrow> rel_py (steady A) (get_balance E a c)"
  unfolding get_balance_def by (auto intro!: steady.rules steady_ops split: option.split)

lemma call_fn_steady [steady_ops]:
  "main_at E A \<Longrightarrow> rel_py (steady A) (call_fn E c f args a)"
  "main_at E A \<Longrightarrow> rel_py (steady A) (call_contract E n f args a)"
  unfolding call_fn_def call_address_def call_contract_def
  by (cases c; auto intro!: steady.rules steady_ops)+

lemma invoke_steady [steady_ops]: "main_at E A \<Longrightarrow> rel_py (steady A) (invoke E c f args a acc)"
  unfolding invoke_def by (auto intro!: steady.rules steady_ops split: option.split target.split)

lemma fund_address_steady [steady_ops]: "main_at E A \<Longrightarrow> rel_py (steady A) (fund_address E a amount acc c)"
  unfolding fund_address_def Let_def by (auto intro!: steady.rules steady_ops split: option.split)

lemma fund_relayers_steady [steady_ops]: "main_at E A \<Longrightarrow> rel_py (steady A) (fund_relayers E as amount)"
  by (induction "as" arbitrary: amount) (auto intro!: steady.rules steady_ops split: option.split)

lemma account_class_hash_steady [steady_ops]: "rel_py (steady A) (account_class_hash E c)"
  unfolding account_class_hash_def by (auto intro!: steady.rules steady_ops split: option.split)

lemma ask_class_hash_at_steady [steady_ops]:
  "rel_py (steady A) (ask_class_hash_at E a)" "rel_py (steady A) (get_class_hash_at E a)"
  "rel_py (steady A) (ask_deploy_account E a c n cd)"
  unfolding ask_class_hash_at_def get_class_hash_at_def ask_deploy_account_def
  by (auto intro!: steady.rules steady_ops)

lemma deploy_starknet_account_steady [steady_ops]:
  "main_at E A \<Longrightarrow> rel_py (steady A) (deploy_starknet_account E c k amount salt)"
  unfolding deploy_starknet_account_def Let_def
  by (auto intro!: steady.rules steady_ops quiet_steady [OF wait_for_transaction_quiet] split: prod.split)

lemma approve_main_steady [steady_ops]: "main_at E A \<Longrightarrow> rel_py (steady A) (approve_main E c a)"
  unfolding approve_main_def by (auto intro!: steady.rules steady_ops)

lemma compute_addresses_steady [steady_ops]: "rel_py (steady A) (compute_addresses E n)"
  unfolding compute_addresses_def Let_def by (auto intro!: steady.rules steady_ops)

lemma deploy_steady [steady_ops]: "main_at E A \<Longrightarrow> rel_py (steady A) (deploy E name salt args)"
  unfolding deploy_def already_deployed_def deployed_is_current_def
  by (auto intro!: steady.rules steady_ops split: option.split prod.split)

section \<open>Operations that may create the relayer pool\<close>

text \<open>No account but the main one is ever lazy; and nothing is deferred.\<close>

definition only_lazy :: "int \<Rightarrow> 'm world_scheme \<Rightarrow> bool" where
  "only_lazy A s \<longleftrightarrow> (\<forall>a. lazy_accounts s a \<longrightarrow> a = A) \<and> cache_ok A s"

definition settled :: "int \<Rightarrow> 'm world_scheme \<Rightarrow> bool" where
  "settled A s \<longleftrightarrow> none_lazy s \<and> logs s = [] \<and> cache_ok A s"

definition pooled :: "int \<Rightarrow> ('m world_scheme, 'a) py \<Rightarrow> bool" where
  "pooled A m \<longleftrightarrow> keeps (only_lazy A) m \<and> (\<forall>s x t. m s = Ret x t \<longrightarrow> settled A s \<longrightarrow> settled A t)"

named_theorems pooled_ops \<open>operations that may create the pool\<close>

lemma steady_only_lazy: "rel_py (steady A) m \<Longrightarrow> keeps (only_lazy A) m"
  by (erule rel_py_mono) (simp add: steady_def only_lazy_def)

lemma steady_pooled: "rel_py (steady A) m \<Longrightarrow> pooled A m"
  unfolding pooled_def
  using rel_pyD_Ret [of "steady A" m] steady_only_lazy [of A m]
  by (auto simp: steady_def settled_def none_lazy_def)

lemma pooled_bnd [pooled_ops]: "pooled A m \<Longrightarrow> (\<And>x. pooled A (f x)) \<Longrightarrow> pooled A (bnd m f)"
  unfolding pooled_def
  by (auto intro: invariant_step.bnd_rule elim!: bnd_RetE)

lemma pooled_seq [pooled_ops]: "pooled A m \<Longrightarrow> pooled A k \<Longrightarrow> pooled A (seq m k)"
  unfolding seq_def by (rule pooled_bnd)

lemma pooled_pure [pooled_ops]:
  "pooled A (ret x)" "pooled A (raise e)" "pooled A (gets f)" "pooled A (lift_sum r)"
  by (intro steady_pooled steady.rules)+

lemma pooled_when [pooled_ops]: "pooled A m \<Longrightarrow> pooled A (py_when b m)"
  by (simp add: py_when_def pooled_ops)

lemma pooled_if [pooled_ops]: "pooled A m \<Longrightarrow> pooled A k \<Longrightarrow> pooled A (if b then m else k)"
  by simp

lemma pooled_for_each [pooled_ops]: "(\<And>x. x \<in> set xs \<Longrightarrow> pooled A (b x)) \<Longrightarrow> pooled A (for_each xs b)"
  by (induction xs) (auto intro: pooled_ops)

lemma pooled_steady_ops [pooled_ops]:
  "pooled A (ask ev oracle)" "pooled A (get_contract E name a p)" "pooled A (abi_call E c f args)"
  "pooled A (felt_output r)" "pooled A (get_option e x)" "pooled A (lookup_key d k)"
  "pooled A (modify (\<lambda>s. s\<lparr>next_ref := f2 s\<rparr>))" "pooled A get_deployments"
  by (intro steady_pooled steady_ops)+

lemma main_account_at:
  assumes "main_at E A" and "main_account E s = Ret acc t" and "cache_ok A s"
  shows "ac_address acc = A" and "cache_ok A t"
proof -
  show "cache_ok A t"
    using rel_pyD_Ret [OF main_account_steady [OF assms(1)] assms(2)] assms(3) by (simp add: steady_def)
  moreover have "account_cache t (NoAddr, None) = Some acc"
    using assms(2) by (auto simp: main_account_def get_starknet_account_def py_run split: option.splits outcome.splits)
  ultimately show "ac_address acc = A" by (simp add: cache_ok_def)
qed

lemma only_lazy_cache_ok: "only_lazy A s \<Longrightarrow> cache_ok A s"
  by (simp add: only_lazy_def)

lemma keeps_main:
  fixes f :: "account \<Rightarrow> ('m world_scheme, 'b) py"
  assumes "main_at E A" and "\<And>acc. ac_address acc = A \<Longrightarrow> keeps (only_lazy A) (f acc)"
  shows "keeps (only_lazy A) (bnd (main_account E) f)"
proof -
  have m: "keeps (only_lazy A) (main_account E :: ('m world_scheme, account) py)"
    by (rule steady_only_lazy [OF main_account_steady [OF assms(1)]])
  have step: "only_lazy A t \<and> keeps (only_lazy A) (f acc)"
    if "main_account E s = Ret acc t" and "only_lazy A s" for s :: "'m world_scheme" and acc t
    using rel_pyD_Ret [OF m that(1)] that(2) main_account_at(1) [OF assms(1) that(1) only_lazy_cache_ok [OF that(2)]]
      assms(2) by blast
  show ?thesis
  proof (rule rel_pyI; rule impI)
    fix s :: "'m world_scheme" and y u
    assume "bnd (main_account E) f s = Ret y u" and I: "only_lazy A s"
    then obtain acc t where "main_account E s = Ret acc t" and "f acc t = Ret y u" by (auto elim: bnd_RetE)
    with step I show "only_lazy A u" by (blast dest: rel_pyD_Ret)
  next
    fix s :: "'m world_scheme" and e u
    assume run: "bnd (main_account E) f s = Exc e u" and I: "only_lazy A s"
    show "only_lazy A u"
    proof (cases "main_account E s")
      case (Ret acc t)
      with run have "f acc t = Exc e u" by (simp add: bnd_def)
      with step [OF Ret I] show ?thesis by (blast dest: rel_pyD_Exc)
    next
      case (Exc e' t)
      with run rel_pyD_Exc [OF m Exc] I show ?thesis by (simp add: bnd_def)
    qed (use run in \<open>simp add: bnd_def\<close>)
  qed
qed

lemma pooled_main:
  fixes f :: "account \<Rightarrow> ('m world_scheme, 'b) py"
  assumes "main_at E A" and "\<And>acc. ac_address acc = A \<Longrightarrow> pooled A (f acc)"
  shows "pooled A (bnd (main_account E) f)"
proof -
  have m: "pooled A (main_account E :: ('m world_scheme, account) py)"
    by (rule steady_pooled [OF main_account_steady [OF assms(1)]])
  have "settled A u" if run: "bnd (main_account E) f s = Ret y u" and I: "settled A s"
    for s :: "'m world_scheme" and y u
  proof -
    from run obtain acc t where a: "main_account E s = Ret acc t" and r: "f acc t = Ret y u" by (rule bnd_RetE)
    from m a I have "settled A t" unfolding pooled_def by blast
    moreover have "pooled A (f acc)"
      using assms(2) main_account_at(1) [OF assms(1) a] I by (simp add: settled_def)
    ultimately show ?thesis using r unfolding pooled_def by blast
  qed
  moreover have "keeps (only_lazy A) (bnd (main_account E) f)"
    by (rule keeps_main [OF assms(1)]) (use assms(2) in \<open>simp add: pooled_def\<close>)
  ultimately show ?thesis unfolding pooled_def by blast
qed

lemma execute_calls_empty: "execute_calls E s = Ret x t \<Longrightarrow> logs t = []"
  by (auto simp: execute_calls_def py_run split: outcome.splits)

lemma set_lazy_main: "keeps (only_lazy A) (set_lazy A b)"
  by (auto simp: rel_py_def set_lazy_def modify_def only_lazy_def cache_ok_def)

text \<open>Creating the pool defers the funding of the relayers, and sends it before it goes on: the bracket
  of the two assignments of the flag.\<close>

lemma lazy_bracket:
  fixes m :: "('m world_scheme, 'b) py" and k :: "'b \<Rightarrow> ('m world_scheme, 'c) py"
  assumes "rel_py (steady A) m" and "\<And>x. rel_py (steady A) (k x)"
  shows "pooled A (bnd (gets (\<lambda>s. lazy_accounts s A)) (\<lambda>l. seq (set_lazy A True)
    (bnd m (\<lambda>x. seq (execute_calls E) (seq (set_lazy A l) (k x))))))"
    (is "pooled A ?body")
proof -
  note K = steady_only_lazy [OF assms(1)] steady_only_lazy [OF assms(2)]
    steady_only_lazy [OF execute_calls_steady] set_lazy_main
  have "keeps (only_lazy A) ?body" by (intro invariant_step.rules K)
  moreover have "settled A u" if run: "?body s = Ret y u" and I: "settled A s" for s :: "'m world_scheme" and y u
  proof -
    let ?s1 = "s\<lparr>lazy_accounts := (lazy_accounts s)(A := True)\<rparr>"
    have l: "lazy_accounts s A = False" using I by (simp add: settled_def none_lazy_def)
    obtain x v w where m: "m ?s1 = Ret x v" and e: "execute_calls E v = Ret () w"
      and k: "k x (w\<lparr>lazy_accounts := (lazy_accounts w)(A := False)\<rparr>) = Ret y u"
      using run unfolding gets_def set_lazy_def modify_def bnd_def seq_def l
      by (simp split: outcome.splits)
    have sm: "steady A ?s1 v" by (rule rel_pyD_Ret [OF assms(1) m])
    have se: "steady A v w" by (rule rel_pyD_Ret [OF execute_calls_steady e])
    let ?w = "w\<lparr>lazy_accounts := (lazy_accounts w)(A := False)\<rparr>"
    have "cache_ok A s" using I by (simp add: settled_def)
    then have "cache_ok A ?s1" by (simp add: cache_ok_def)
    then have "cache_ok A w" using sm se unfolding steady_def by blast
    then have "cache_ok A ?w" by (simp add: cache_ok_def)
    moreover have "lazy_accounts w = lazy_accounts ?s1" using sm se unfolding steady_def by metis
    then have "none_lazy ?w" using I by (simp add: settled_def none_lazy_def)
    moreover have "logs ?w = []" using execute_calls_empty [OF e] by simp
    ultimately have "settled A ?w" by (simp add: settled_def)
    with steady_pooled [OF assms(2)] k show ?thesis unfolding pooled_def by blast
  qed
  ultimately show ?thesis unfolding pooled_def by blast
qed

lemma create_pool_pooled [pooled_ops]:
  assumes "main_at E A"
  shows "pooled A (create_pool E n amount)"
proof -
  have eq: "create_pool E n amount = bnd (main_account E) (\<lambda>account.
      bnd (gets (\<lambda>s. lazy_accounts s (ac_address account))) (\<lambda>l. seq (set_lazy (ac_address account) True)
     (bnd (bnd (lift_sum (network_key E)) (\<lambda>key. bnd (compute_addresses E n) (\<lambda>addresses.
        seq (fund_relayers E addresses amount) (ret key))))
       (\<lambda>key. seq (execute_calls E) (seq (set_lazy (ac_address account) l)
          (bnd (comprehend (\<lambda>i. deploy_starknet_account E None (nw_private_key (network E)) (PInt 0)
                (int i + stark_public_key E key)) [0..<n]) (\<lambda>addresses.
           bnd (get_eth_contract E None) (\<lambda>eth_contract.
           bnd (comprehend (approve_main E eth_contract) addresses) (\<lambda>accounts.
           ret (new_pool accounts))))))))))"
    unfolding create_pool_def Let_def by (simp add: seq_def bnd_assoc)
  show ?thesis
    unfolding eq
  proof (rule pooled_main [OF assms])
    fix acc :: account assume a: "ac_address acc = A"
    show "pooled A (bnd (gets (\<lambda>s. lazy_accounts s (ac_address acc))) (\<lambda>l. seq (set_lazy (ac_address acc) True)
     (bnd (bnd (lift_sum (network_key E)) (\<lambda>key. bnd (compute_addresses E n) (\<lambda>addresses.
        seq (fund_relayers E addresses amount) (ret key))))
       (\<lambda>key. seq (execute_calls E) (seq (set_lazy (ac_address acc) l)
          (bnd (comprehend (\<lambda>i. deploy_starknet_account E None (nw_private_key (network E)) (PInt 0)
                (int i + stark_public_key E key)) [0..<n]) (\<lambda>addresses.
           bnd (get_eth_contract E None) (\<lambda>eth_contract.
           bnd (comprehend (approve_main E eth_contract) addresses) (\<lambda>accounts.
           ret (new_pool accounts))))))))))"
      unfolding a using assms by (intro lazy_bracket) (auto intro!: steady.rules steady_ops)
  qed
qed

lemma get_relayer_pooled [pooled_ops]: "main_at E A \<Longrightarrow> pooled A (get_relayer E salt)"
  unfolding get_relayer_def default_pool_def
  by (auto intro!: pooled_ops steady_pooled [OF steady_pieces(13)] split: option.split)

section \<open>The client of Kakarot\<close>

lemma addresses_steady [steady_ops]:
  "rel_py (steady A) (get_starknet_address E a)"
  "main_at E A \<Longrightarrow> rel_py (steady A) (eth_balance_of E a)"
  "main_at E A \<Longrightarrow> rel_py (steady A) (kk_fund_address E a amount)"
  "rel_py (steady A) (contract_exists E x)"
  unfolding get_starknet_address_def eth_balance_of_def kk_fund_address_def contract_exists_def
  by (auto intro!: steady.rules steady_ops)

lemma transaction_count_steady [steady_ops]:
  "main_at E A \<Longrightarrow> rel_py (steady A) (eth_get_transaction_count E K a)"
  "main_at E A \<Longrightarrow> rel_py (steady A) (eth_get_code E b)" "main_at E A \<Longrightarrow> rel_py (steady A) (eth_chain_id E)"
  unfolding eth_get_transaction_count_def eth_get_code_def eth_chain_id_def
  by (auto intro!: steady.rules steady_ops split: option.split list.split arg.split)

lemma get_evm_nonce_steady [steady_ops]: "rel_py (steady A) (get_evm_nonce E K account)"
proof -
  have "rel_py (steady A) (ask_evm_nonce E K account)"
    unfolding ask_evm_nonce_def by (auto intro!: steady.rules steady_ops)
  then show ?thesis
    unfolding get_evm_nonce_def by (rule steady.next_nonce_rel) (intro steady_ops)+
qed

lemma poll_receipt_steady [steady_ops]: "rel_py (steady A) (poll_receipt E h ci n)"
  by (induction n) (auto intro!: steady.rules steady_ops simp: ask_receipt_def split: option.split)

lemma settle_receipt_steady [steady_ops]: "rel_py (steady A) (settle_receipt E account rc)"
  unfolding settle_receipt_def release_evm_nonce_def
  by (auto intro!: steady.rules steady_ops split: list.split)

lemma deploy_and_fund_pooled [pooled_ops]:
  "main_at E A \<Longrightarrow> pooled A (deploy_and_fund_evm_address E a amount)"
  unfolding deploy_and_fund_evm_address_def
  by (auto intro!: pooled_ops steady_pooled [OF invoke_steady] steady_pooled [OF addresses_steady(1)]
      steady_pooled [OF addresses_steady(2)] steady_pooled [OF addresses_steady(3)] steady_pooled [OF addresses_steady(4)])

lemma get_eoa_pooled [pooled_ops]: "main_at E A \<Longrightarrow> pooled A (get_eoa E K k amount)"
  unfolding get_eoa_def Let_def by (auto intro!: pooled_ops)

lemma send_starknet_transaction_pooled [pooled_ops]:
  "main_at E A \<Longrightarrow> pooled A (send_starknet_transaction E account r s v packed)"
  unfolding send_starknet_transaction_def
  by (auto intro!: pooled_ops steady_pooled [OF invoke_steady] steady_pooled [OF poll_receipt_steady]
      steady_pooled [OF settle_receipt_steady] split: prod.split)

lemma eth_send_transaction_pooled [pooled_ops]:
  "main_at E A \<Longrightarrow> pooled A (eth_send_transaction E K to data gas wei caller gas_price)"
  unfolding eth_send_transaction_def Let_def
  by (auto intro!: pooled_ops steady_pooled [OF get_evm_nonce_steady] split: option.split prod.split)

end
