(* ===== verification/DeploymentSettles.thy ===== *)
theory DeploymentSettles
  imports DeploymentFacts
begin

text \<open>
  The whole deployment leaves nothing behind: when \<^verbatim>\<open>main.py\<close> comes back, every deferred call has been
  sent and no account is lazy, whatever the parts did on the way.
\<close>

section \<open>Solidity contracts and pre-EIP-155 transactions\<close>

lemma pooled_lookups [pooled_ops]:
  "pooled A (pre_tx_of K name)" "pooled A kk_get_deployments" "pooled A (kk_dump_deployments E ds)"
  "pooled A (set_should_deploy name b)" "pooled A get_declarations" "pooled A (dump_deployments ds')"
  "pooled A (modify (\<lambda>s. s\<lparr>library_cache := g s\<rparr>))" "pooled A (get_starknet_address E a)"
  "pooled A (execute_calls E)" "pooled A (poll_receipt E h ci n)" "pooled A (ask_class_hash_at E a')"
  "pooled A (py_assert b')"
  by (intro steady_pooled steady_ops)+

lemma pooled_calls [pooled_ops]:
  assumes "main_at E A"
  shows "pooled A (main_account E)" "pooled A (invoke E t f args a acc)" "pooled A (call_fn E t f args a)"
    "pooled A (call_contract E n f args a)" "pooled A (deploy E n salt args)" "pooled A (eth_balance_of E x)"
    "pooled A (get_balance E x t')" "pooled A (eth_get_transaction_count E K x2)" "pooled A (eth_get_code E x)"
    "pooled A (eth_chain_id E)" "pooled A (kk_fund_address E x amount)"
  by (intro steady_pooled steady_ops assms)+

lemma link_code_pooled [pooled_ops]:
  "(\<And>key. pooled A (library key)) \<Longrightarrow> pooled A (link_code library code links)"
  by (induction library code links rule: link_code.induct) (auto intro!: pooled_ops)

lemma solidity_contract_pooled:
  assumes "\<And>lapp lname. pooled A (deploy_library lapp lname)"
  shows "pooled A (solidity_contract E K deploy_library app name address caller)"
  unfolding solidity_contract_def link_libraries_def get_or_deploy_library_def
  by (auto intro!: pooled_ops assms split: option.split)

lemma deployed_at_steady [steady_ops]:
  assumes "main_at E A"
  shows "rel_py (steady A) (deployed_at E runtime receipt)"
  unfolding deployed_at_def deployed_events_def locate_deployed_def
  by (auto intro!: steady.rules steady_ops assms split: any_receipt.split list.split option.split)

lemma deploy_contract_pooled [pooled_ops]:
  assumes "main_at E A"
  shows "pooled A (deploy_contract fuel E K app name args caller wei)"
proof (induction fuel arbitrary: app name args caller wei)
  case 0
  show ?case by (simp add: pooled_def rel_py_def)
next
  case (Suc fuel)
  then show ?case
    using assms
    by (auto intro!: pooled_ops solidity_contract_pooled steady_pooled [OF deployed_at_steady])
qed

lemma open_solidity_pooled [pooled_ops]: "main_at E A \<Longrightarrow> pooled A (open_solidity E K D app name address)"
  unfolding open_solidity_def by (auto intro!: pooled_ops solidity_contract_pooled)

lemma call_solidity_pooled [pooled_ops]: "main_at E A \<Longrightarrow> pooled A (call_solidity E K c f args)"
  unfolding call_solidity_def wrap_kakarot_def eth_call_def Let_def
  by (auto intro!: pooled_ops split: option.split)

lemma pre_eip155_pooled [pooled_ops]:
  assumes "main_at E A"
  shows "pooled A (deploy_pre_eip155_sender E K name)" "pooled A (whitelist_pre_eip155_tx E K name)"
    "pooled A (send_pre_eip155_transaction E K name)"
  unfolding deploy_pre_eip155_sender_def whitelist_pre_eip155_tx_def send_pre_eip155_transaction_def Let_def
  using assms
  by (auto intro!: pooled_ops steady_pooled [OF settle_receipt_steady] split: option.split list.split prod.split)


section \<open>The parts of the deployment\<close>

lemma pooled_keeps: "pooled A m \<Longrightarrow> keeps (only_lazy A) m"
  by (simp add: pooled_def)

lemma deploy_fresh_pooled [pooled_ops]: "main_at E A \<Longrightarrow> pooled A (deploy_fresh E D name args)"
  unfolding deploy_fresh_def by (auto intro!: pooled_ops)

lemma invoke_kakarot_pooled [pooled_ops]: "main_at E A \<Longrightarrow> pooled A (invoke_kakarot E f args a)"
  unfolding invoke_kakarot_def by (auto intro!: pooled_ops)

lemma kakarot_args_pooled [pooled_ops]: "pooled A (declared_hash hs n)" "pooled A (kakarot_args E hs owner)"
  unfolding kakarot_args_def declared_hash_def by (auto intro!: pooled_ops)

lemma set_evm_coinbase_pooled [pooled_ops]: "main_at E A \<Longrightarrow> pooled A (set_evm_coinbase E evm coinbase)"
  unfolding set_evm_coinbase_def
  by (auto intro!: pooled_ops steady_pooled [OF steady_try] steady.rules steady_ops)

lemma deploy_starknet_contracts_pooled [pooled_ops]:
  "main_at E A \<Longrightarrow> pooled A (deploy_starknet_contracts E D account)"
  unfolding deploy_starknet_contracts_def by (auto intro!: pooled_ops)

lemma deploy_or_upgrade_pooled [pooled_ops]:
  "main_at E A \<Longrightarrow> pooled A (deploy_or_upgrade_kakarot E K D account)"
  unfolding deploy_or_upgrade_kakarot_def upgrade_kakarot_def Let_def by (auto intro!: pooled_ops)

lemma deploy_evm_contracts_pooled [pooled_ops]:
  assumes "main_at E A"
  shows "pooled A (deploy_evm_contracts E K D)"
  unfolding deploy_evm_contracts_def deploy_token_def token_current_def deploy_coinbase_def deploy_evm_def
  by (auto intro!: pooled_ops assms split: option.split)

lemma pre_eip155_parts_pooled [pooled_ops]:
  assumes "main_at E A"
  shows "pooled A (deploy_pre_eip155_senders E K)" "pooled A (whitelist_pre_eip155_txs E K)"
    "pooled A (fund_evm_deployer E K)" "pooled A (deploy_pre_eip155_contracts E K)"
proof -
  show "pooled A (deploy_pre_eip155_senders E K)" "pooled A (whitelist_pre_eip155_txs E K)"
      "pooled A (fund_evm_deployer E K)"
    unfolding deploy_pre_eip155_senders_def whitelist_pre_eip155_txs_def fund_evm_deployer_def
    by (auto intro!: pooled_ops assms)
  have "pooled A (record_pre_contracts E K names ds)" for names ds
    by (induction names arbitrary: ds) (auto intro!: pooled_ops assms)
  then show "pooled A (deploy_pre_eip155_contracts E K)"
    unfolding deploy_pre_eip155_contracts_def by (auto intro!: pooled_ops)
qed

lemma set_flag_keeps:
  "keeps (only_lazy A) (register_lazy_account A)" "keeps (only_lazy A) (remove_lazy_account A)"
  by (auto simp: rel_py_def register_lazy_account_def remove_lazy_account_def modify_def only_lazy_def cache_ok_def)

lemma dualvm_token_keeps:
  assumes "main_at E A"
  shows "keeps (only_lazy A) (dualvm_token E K D kakarot native tk deployments)"
proof -
  note pk = pooled_keeps
  have "keeps (only_lazy A) (dualvm_current E K D kakarot d)" for d
    unfolding dualvm_current_def succeeds_py_def
    by (intro invariant_step.rules pk pooled_ops assms)
  moreover have "keeps (only_lazy A) (ensure_l2_token E D tk name l2)" for name l2
    unfolding ensure_l2_token_def
    by (auto intro!: invariant_step.rules pk [OF pooled_steady_ops(5)] pk [OF pooled_lookups(11)]
        pk [OF pooled_calls(1)] pk [OF deploy_fresh_pooled] assms)
  moreover have "keeps (only_lazy A) (check_dualvm E K D tk name address l2)" for name address l2
    unfolding check_dualvm_def text_result_def Let_def
    by (rule pk) (auto intro!: pooled_ops assms split: call_result.split arg.split)
  moreover have "keeps (only_lazy A) (create_dualvm E K D kakarot l2)" for l2
    unfolding create_dualvm_def deploy_evm_def by (rule pk) (auto intro!: pooled_ops assms)
  ultimately show ?thesis
    unfolding dualvm_token_def
    by (auto intro!: invariant_step.rules pk [OF pooled_steady_ops(5)] split: option.split prod.split)
qed

lemma dualvm_loop_keeps:
  "main_at E A \<Longrightarrow> keeps (only_lazy A) (dualvm_loop E K D kakarot native tks deployments)"
  by (induction tks arbitrary: deployments) (auto intro!: invariant_step.rules dualvm_token_keeps)

lemma deploy_dualvm_keeps:
  assumes "main_at E A"
  shows "keeps (only_lazy A) (deploy_dualvm_tokens E K D)"
proof -
  note pk = pooled_keeps
  have body: "keeps (only_lazy A) (seq (remove_lazy_account A)
    (bnd get_deployments (\<lambda>starknet_deployments.
     bnd (get_option KeyError (map_of starknet_deployments ''kakarot'')) (\<lambda>kakarot.
     bnd kk_get_deployments (\<lambda>deployments.
     bnd (get_option KeyError (dv_token_file D)) (\<lambda>file.
     bnd (get_option (ValueError ''Token addresses file not found for network'') file) (\<lambda>tokens.
     bnd (bnd (call_contract E ''kakarot'' ''get_native_token'' [] None) felt_output) (\<lambda>native.
     bnd (native_text E native ''name'') (\<lambda>native_name.
     bnd (native_text E native ''symbol'') (\<lambda>native_symbol.
     bnd (dualvm_loop E K D kakarot (native_name, native_symbol) tokens deployments) (\<lambda>deployments.
     seq (kk_dump_deployments E deployments) (register_lazy_account A))))))))))))"
    unfolding native_text_def
    by (auto intro!: invariant_step.rules set_flag_keeps dualvm_loop_keeps assms
        pk [OF pooled_steady_ops(5)] pk [OF pooled_steady_ops(8)] pk [OF pooled_lookups(2)]
        pk [OF pooled_lookups(3)] pk [OF pooled_calls(4)] pk [OF pooled_steady_ops(4)])
  show ?thesis
    unfolding deploy_dualvm_tokens_def by (rule keeps_main [OF assms]) (use body in simp)
qed


section \<open>The whole deployment\<close>

lemma seq_keeps: "keeps I m \<Longrightarrow> keeps I k \<Longrightarrow> keeps I (seq m k)"
  by (rule invariant_step.seq_rule)

text \<open>The batched part ends with the deferred calls sent.\<close>

lemma deploy_batched_sends:
  assumes "main_at E A" and "deploy_batched E K D account s = Ret x t" and "only_lazy A s"
  shows "only_lazy A t \<and> logs t = []"
proof
  note pk = pooled_keeps
  have "keeps (only_lazy A) (deploy_batched E K D account :: ('a kk_world_scheme, unit) py)"
    unfolding deploy_batched_def
    by (intro seq_keeps pk [OF deploy_starknet_contracts_pooled] pk [OF deploy_or_upgrade_pooled]
        pk [OF pooled_lookups(9)] pk [OF pre_eip155_parts_pooled(1)] pk [OF pre_eip155_parts_pooled(2)]
        pk [OF pre_eip155_parts_pooled(3)] pk [OF deploy_evm_contracts_pooled] deploy_dualvm_keeps assms(1))
  from rel_pyD_Ret [OF this assms(2)] assms(3) show "only_lazy A t" by blast
  show "logs t = []"
    using assms(2) unfolding deploy_batched_def by (auto elim!: seq_RetE dest: execute_calls_empty)
qed

lemma peek_pooled [pooled_ops]: "pooled A (peek oracle)"
  by (rule steady_pooled) (auto simp: rel_py_def peek_def lift_sum_def steady.R_refl split: sum.split)

lemma deploy_sequential_pooled:
  assumes "main_at E A"
  shows "pooled A (deploy_sequential E K D account)"
  unfolding deploy_sequential_def withdraw_coinbase_def report_balances_def check_precompile_def Let_def
  by (intro pooled_ops assms)



end
