(* ===== verification/DeploymentRun.thy ===== *)
theory DeploymentRun
  imports DeploymentSettles
begin

text \<open>
  A run of the whole deployment on a concrete network, step by step.
\<close>

section \<open>A concrete deployment\<close>

text \<open>A network where everything is deployed already, and no account is funded or called.\<close>

definition settle_env :: env where
  "settle_env = wei_env\<lparr>network := dev_network\<lparr>nw_type := ProdNet, nw_account_address := Some ''0x9''\<rparr>,
     o_abi_call := (\<lambda>h a f args. if f = ''get_coinbase'' then Inr [Felt 0] else Inr [Felt 100])\<rparr>"

lemma settle_env_sel [simp]:
  "network settle_env = dev_network\<lparr>nw_type := ProdNet, nw_account_address := Some ''0x9''\<rparr>"
  "o_abi_call settle_env = (\<lambda>h a f args. if f = ''get_coinbase'' then Inr [Felt 0] else Inr [Felt 100])"
  "o_class_hash_at settle_env = (\<lambda>h a. Inr 1)" "eth_token_address settle_env = 73"
  "serialize settle_env = (\<lambda>c f args. Inr [])" "o_pending_nonce settle_env = o_pending_nonce dev_env"
  "o_cairo_version settle_env = (\<lambda>h a. Inr 1)" "o_wait_for_tx settle_env = (\<lambda>h x. Inr ())"
  "o_add_invoke settle_env = (\<lambda>h tx. Inr (100 + int (length (sent_txs h))))"
  by (simp_all add: settle_env_def wei_env_def dev_env_def)

lemma settle_abi: "get_abi settle_env ''ERC20'' = Inr [''build'', ''ERC20.json'']"
proof -
  have "get_abi settle_env n = get_abi wei_env n" for n
    by (simp add: get_abi_def get_artifact_def settle_env_def)
  with wei_abi show ?thesis by simp
qed

definition entries :: "(string \<times> kk_deployment) list" where
  "entries = [(''WETH9'', \<lparr>kd_address = 7, kd_starknet_address = 100\<rparr>),
     (''Coinbase'', \<lparr>kd_address = 0, kd_starknet_address = 100\<rparr>),
     (''Multicall3'', \<lparr>kd_address = 0xcA11bde05977b3631167028862bE2a173976CA11, kd_starknet_address = 100\<rparr>),
     (''ArachnidProxy'', \<lparr>kd_address = 0x4e59b44847b379578588920ca78fbf26c0b4956c, kd_starknet_address = 100\<rparr>),
     (''CreateX'', \<lparr>kd_address = 0xba5Ed099633D3B313e4D5F7bdc1305d3c28ba5Ed, kd_starknet_address = 100\<rparr>)]"

definition entries_file :: "(string \<times> kk_entry) list" where
  "entries_file = map (\<lambda>(name, d). (name, \<lparr>ke_address = py_hex (kd_address d),
     ke_starknet_address = py_hex (kd_starknet_address d)\<rparr>)) entries"

definition settle_world :: kk_world where
  "settle_world = world.extend
     (dev_world\<lparr>deployments_file := Some (hex_entries [(''kakarot'', 500)]),
        declarations_file := Some (hex_entries [(''kakarot'', 1)]),
        account_cache := [(NoAddr, None) \<mapsto> dev_account 9],
        contract_cache := [(''kakarot'', None, None) \<mapsto> 500, (''kakarot'', None, Some 9) \<mapsto> 500,
          (''ERC20'', Some 100, None) \<mapsto> 100]\<rparr>)
     \<lparr>evm_nonces = Map.empty, library_cache = Map.empty,
      kakarot_file = Some entries_file,
      should_deploy = Map.empty\<rparr>"

definition settle_dv :: "('m kk_world_scheme) deploy_env" where
  "settle_dv = \<lparr>dv_salt = (\<lambda>s. 1), dv_fuel = 1, dv_coinbase = 0, dv_ethereum_precompiles = [1, 2],
     dv_token_file = Some (Some []), dv_l1_balance = (\<lambda>h a. Inr 0)\<rparr>"


definition runs :: "('s \<Rightarrow> bool) \<Rightarrow> ('s, 'a) py \<Rightarrow> ('a \<Rightarrow> bool) \<Rightarrow> bool" where
  "runs I m P \<longleftrightarrow> (\<forall>s. I s \<longrightarrow> (\<exists>x t. m s = Ret x t \<and> P x \<and> I t))"

lemma runs_bnd: "runs I m P \<Longrightarrow> (\<And>x. P x \<Longrightarrow> runs I (f x) Q) \<Longrightarrow> runs I (bnd m f) Q"
  unfolding runs_def bnd_def by fastforce

lemma runs_seq: "runs I m (\<lambda>_. True) \<Longrightarrow> runs I k Q \<Longrightarrow> runs I (seq m k) Q"
  unfolding seq_def by (erule runs_bnd) simp

lemma runs_ret: "P x \<Longrightarrow> runs I (ret x) P"
  by (simp add: runs_def ret_def)

lemma runs_weaken: "runs I m P \<Longrightarrow> (\<And>x. P x \<Longrightarrow> Q x) \<Longrightarrow> runs I m Q"
  unfolding runs_def by blast

definition ready :: "kk_world \<Rightarrow> bool" where
  "ready s \<longleftrightarrow> logs s = [] \<and> deployments_file s = Some (hex_entries [(''kakarot'', 500)]) \<and>
     declarations_file s = Some (hex_entries [(''kakarot'', 1)]) \<and>
     account_cache s (NoAddr, None) = Some (dev_account 9) \<and>
     contract_cache s (''kakarot'', None, None) = Some 500 \<and> contract_cache s (''ERC20'', Some 100, None) = Some 100 \<and>
     kakarot_file s = Some entries_file \<and> (\<forall>name. \<not> wants_deploy name s)"

lemma ready_settle_world: "ready settle_world"
  by (simp add: ready_def settle_world_def world.defs dev_world_def wants_deploy_def)

lemma runs_ask: "(\<And>h. oracle h = Inr x) \<Longrightarrow> P x \<Longrightarrow> runs ready (ask ev oracle) P"
  by (simp add: runs_def ready_def py_run wants_deploy_def)

lemma ready_parts:
  "runs ready (main_account settle_env) (\<lambda>a. a = dev_account 9)"
  "runs ready get_deployments (\<lambda>d. d = [(''kakarot'', 500)])"
  "runs ready get_declarations (\<lambda>d. d = [(''kakarot'', 1)])"
  "runs ready (register_lazy_account a) (\<lambda>_. True)" "runs ready (remove_lazy_account a) (\<lambda>_. True)"
  "runs ready (execute_calls settle_env) (\<lambda>_. True)"
  "runs ready (get_contract settle_env ''kakarot'' None None) (\<lambda>c. ct_address c = 500)"
  "runs ready (get_contract settle_env ''ERC20'' (Some 100) None) (\<lambda>c. ct_address c = 100)"
  "runs ready (dump_deployments [(''kakarot'', 500)]) (\<lambda>_. True)"
  by (auto simp: runs_def ready_def py_run main_account_def get_starknet_account_def get_deployments_def
      get_declarations_def int_hex_entries register_lazy_account_def remove_lazy_account_def execute_calls_def
      get_contract_def dump_deployments_def wants_deploy_def Let_def)

lemma ready_kk: "runs ready kk_get_deployments (\<lambda>d. d = entries)"
proof -
  have "map_sum_list (\<lambda>(name, t). bind_sum (read_entry t) (\<lambda>d. Inr (name, d)))
      (map (\<lambda>(name, d). (name, \<lparr>ke_address = py_hex (kd_address d), ke_starknet_address = py_hex (kd_starknet_address d)\<rparr>)) ds) = Inr ds" for ds
    by (induction ds) (auto simp: read_entry_def int16_py_hex)
  then have read: "map_sum_list (\<lambda>(name, t). bind_sum (read_entry t) (\<lambda>d. Inr (name, d))) entries_file = Inr entries"
    unfolding entries_file_def by blast
  show ?thesis by (simp add: runs_def ready_def py_run kk_get_deployments_def read)
qed

lemma runs_lift: "P x \<Longrightarrow> runs I (lift_sum (Inr x)) P"
  by (simp add: runs_def lift_sum_def)

abbreviation answer :: "string \<Rightarrow> int" where
  "answer f \<equiv> (if f = ''get_coinbase'' then 0 else 100)"

lemma ready_calls:
  "runs ready (abi_call settle_env c f args) (\<lambda>r. r = [Felt (answer f)])"
  "runs ready (felt_output [Felt n]) (\<lambda>m. m = n)"
  "runs ready (ask_class_hash_at settle_env a) (\<lambda>h. h = 1)"
  by (auto simp: runs_def ready_def py_run abi_call_def felt_output_def ask_class_hash_at_def wants_deploy_def)

lemma ready_call_fn:
  "runs ready (call_contract settle_env ''kakarot'' f args None) (\<lambda>r. r = [Felt (answer f)])"
  "runs ready (call_contract settle_env ''ERC20'' f args (Some 100)) (\<lambda>r. r = [Felt (answer f)])"
  "runs ready (call_fn settle_env (ByName ''kakarot'') f args None) (\<lambda>r. r = [Felt (answer f)])"
  unfolding call_fn_def call_contract_def target.case
  by (rule runs_bnd [OF ready_parts(7)] runs_bnd [OF ready_parts(8)], rule ready_calls)+

lemma ready_output: "runs ready m (\<lambda>r. r = [Felt n]) \<Longrightarrow> runs ready (bnd m felt_output) (\<lambda>x. x = n)"
  by (erule runs_bnd) (simp add: ready_calls)

lemma ready_balance_of: "runs ready (balance_of settle_env c a) (\<lambda>b. b = 100)"
  unfolding balance_of_def
  using ready_output [OF ready_calls(1) [of c "''balanceOf''" "[Felt a]"]] by simp

lemma ready_balance: "runs ready (get_balance settle_env (AddrInt a) None) (\<lambda>b. b = 100)"
proof -
  show ?thesis
    unfolding get_balance_def get_eth_contract_def address_int_def addr_arg.case option.case settle_abi
    by (rule runs_bnd [OF runs_lift [where P = "\<lambda>x. x = a"]], rule refl,
        rule runs_bnd [OF runs_seq [OF runs_lift runs_bnd [OF ready_parts(1) runs_ret]]])
      (simp_all add: ready_balance_of)
qed

lemma ready_address: "runs ready (get_starknet_address settle_env (AddrInt a)) (\<lambda>x. x = 100)"
  unfolding get_starknet_address_def address_int_def addr_arg.case
  by (rule runs_bnd [OF runs_lift], rule refl, rule runs_bnd [OF ready_parts(7)])
    (use ready_output [OF ready_calls(1), of _ "''get_starknet_address''"] in simp)

lemma ready_eth_balance: "runs ready (eth_balance_of settle_env (AddrInt a)) (\<lambda>b. b = 100)"
  unfolding eth_balance_of_def by (rule runs_bnd [OF ready_address ready_balance])

lemma ready_exists: "runs ready (contract_exists settle_env a) (\<lambda>b. b = True)"
  by (auto simp: runs_def ready_def py_run contract_exists_def ask_class_hash_at_def wants_deploy_def)

lemma small_amount: "\<not> PInt 100 < PFloat (rnd (1 / 100))"
  by code_simp

lemma ready_fund: "runs ready (fund_evm_deployer settle_env node_kk) (\<lambda>_. True)"
  unfolding fund_evm_deployer_def deploy_and_fund_evm_address_def
  by (rule runs_seq)
    (auto intro!: runs_bnd [OF ready_address] runs_bnd [OF ready_eth_balance] runs_seq runs_ret runs_bnd [OF ready_exists]
      simp: evm_amount_def small_amount py_when_def)


lemma ready_dump: "runs ready (kk_dump_deployments settle_env entries) (\<lambda>_. True)"
proof -
  have "checksum settle_env = py_hex" by (simp add: settle_env_def wei_env_def dev_env_def fun_eq_iff)
  then show ?thesis
    by (simp add: runs_def ready_def py_run kk_dump_deployments_def checksum_address_def entries_def entries_file_def
        wants_deploy_def)
qed

lemma ready_starknet:
  "runs ready (deploy_starknet_contracts settle_env settle_dv account) (\<lambda>_. True)"
  "runs ready (deploy_or_upgrade_kakarot settle_env node_kk settle_dv account) (\<lambda>_. True)"
proof -
  show "runs ready (deploy_starknet_contracts settle_env settle_dv account) (\<lambda>_. True)"
    unfolding deploy_starknet_contracts_def
    by (rule runs_bnd [OF ready_parts(3)], rule runs_bnd [OF ready_parts(2)]) (simp add: runs_ret)
  have "runs ready (declared_hash [(''kakarot'', 1)] ''kakarot'') (\<lambda>h. h = 1)"
    by (simp add: declared_hash_def get_option_def runs_ret)
  moreover have "runs ready (eth_chain_id settle_env) (\<lambda>n. n = 100)"
    unfolding eth_chain_id_def using ready_output [OF ready_call_fn(3), of "''eth_chain_id''"] by simp
  ultimately have "runs ready (upgrade_kakarot settle_env [(''kakarot'', 1)] 500) (\<lambda>_. True)"
    unfolding upgrade_kakarot_def
    by (auto intro!: runs_bnd [OF ready_calls(3)] runs_ret simp: py_when_def seq_def elim!: runs_bnd)
  then show "runs ready (deploy_or_upgrade_kakarot settle_env node_kk settle_dv account) (\<lambda>_. True)"
    unfolding deploy_or_upgrade_kakarot_def
    by (intro runs_bnd [OF ready_parts(3)] runs_bnd [OF ready_parts(2)])
      (simp add: runs_seq ready_parts(9))
qed

text \<open>The amount that funds a precompile is one wei.\<close>

lemma one_wei: "num_truediv (PInt 1) e18 = Inr (PFloat (rnd (1 / 10 ^ 18)))"
  using rnd_int [of 1] by (simp add: e18_def)

lemma wei_one: "wei_of_eth (PFloat (rnd (1 / 10 ^ 18))) = 1"
proof -
  have eth: "rnd (1 / 10 ^ 18) = 5192296858534828 / 2 ^ 112"
    by (subst rnd_eq [where k = "- 60" and n = 5192296858534828]) (simp_all add: pow2_def)
  have "rnd (5192296858534828 / 2 ^ 112 * 10 ^ 18) = of_int 1"
    by (subst rnd_eq [where k = 0 and n = 4503599627370496]) (simp_all add: pow2_def)
  then show ?thesis
    unfolding wei_of_eth_def e18_def num_mul.simps to_float.simps eth by (simp only: int_of_num_PFloat_of_int)
qed

lemma runs_for_each: "(\<And>x. runs I (f x) (\<lambda>_. True)) \<Longrightarrow> runs I (for_each xs f) (\<lambda>_. True)"
  by (induction xs) (auto intro: runs_ret runs_seq)

lemma ready_fund_precompile:
  "runs ready (kk_fund_address settle_env (AddrInt a) (PFloat (rnd (1 / 10 ^ 18)))) (\<lambda>_. True)"
proof -
  have eth: "runs ready (get_eth_contract settle_env (Some account)) (\<lambda>c. ct_address c = 73)" for account
    unfolding get_eth_contract_def settle_abi option.case
    by (rule runs_seq [OF runs_lift], simp, rule runs_bnd [OF runs_ret [where P = "\<lambda>x. x = account"]]) (simp_all add: runs_ret)
  have balance: "runs ready (get_balance settle_env (AddrInt b) (Some c)) (\<lambda>b. b = 100)" for b c
    unfolding get_balance_def address_int_def addr_arg.case option.case
    by (rule runs_bnd [OF runs_lift [where P = "\<lambda>x. x = b"]], rule refl,
        rule runs_bnd [OF runs_ret [where P = "\<lambda>x. x = c"]]) (simp_all add: ready_balance_of)
  have net: "nw_name (network settle_env) \<noteq> ''starknet-devnet''" by (simp add: dev_network_def)
  have "runs ready (fund_address settle_env (AddrInt b) (PFloat (rnd (1 / 10 ^ 18))) None None) (\<lambda>_. True)" for b
    unfolding fund_address_def wei_one address_int_def addr_arg.case option.case Let_def if_not_P [OF net]
    by (rule runs_bnd [OF runs_lift [where P = "\<lambda>x. x = b"]], rule refl, rule runs_bnd [OF ready_parts(1)],
        rule runs_bnd [OF eth], rule runs_bnd [OF balance], rule runs_bnd [OF balance]) (simp add: runs_ret)
  then show ?thesis
    unfolding kk_fund_address_def by (intro runs_bnd [OF ready_address]) simp
qed

lemma ready_precompile: "runs ready (check_precompile settle_env a) (\<lambda>_. True)"
  unfolding check_precompile_def
  by (rule runs_bnd [OF ready_address], rule runs_bnd [OF ready_balance]) (simp add: py_assert_def runs_ret)

lemma ready_evm: "runs ready (deploy_evm_contracts settle_env node_kk settle_dv) (\<lambda>_. True)"
proof -
  have "runs ready (token_current settle_env entries ''WETH9'') (\<lambda>b. b = True)"
    by (simp add: token_current_def entries_def)
      (rule runs_bnd [OF ready_output [OF ready_call_fn(3)]], simp add: runs_ret)
  then have "runs ready (deploy_token settle_env node_kk settle_dv (''WETH'', ''WETH9'', ''WETH9'', []) entries) (\<lambda>d. d = entries)"
    unfolding deploy_token_def by (auto elim!: runs_bnd intro!: runs_ret)
  moreover have "runs ready (deploy_coinbase settle_env node_kk settle_dv entries) (\<lambda>d. d = entries)"
    unfolding deploy_coinbase_def
    by (rule runs_bnd [OF ready_output [OF ready_call_fn(3)]]) (simp add: entries_def runs_ret)
  moreover have "runs ready (for_each xs (\<lambda>x. bnd (lift_sum (num_truediv (PInt 1) e18))
      (kk_fund_address settle_env (AddrInt x)))) (\<lambda>_. True)" for xs
    unfolding one_wei
    by (rule runs_for_each, rule runs_bnd [OF runs_lift [where P = "\<lambda>x. x = PFloat (rnd (1 / 10 ^ 18))"]], rule refl)
      (simp only: ready_fund_precompile)
  ultimately show ?thesis
    unfolding deploy_evm_contracts_def
    by (intro runs_bnd [OF ready_kk]) (auto elim!: runs_bnd intro!: runs_seq simp: ready_dump)
qed


lemma felt_text_100: "felt_text 100 = Inr ''d''"
  by code_simp

lemma ready_native: "runs ready (native_text settle_env 100 f) (\<lambda>_. True)" if "f \<noteq> ''get_coinbase''"
  unfolding native_text_def
  by (rule runs_bnd [OF ready_output [OF ready_call_fn(2)]]) (use that in \<open>simp add: felt_text_100 runs_lift\<close>)

lemma ready_dualvm: "runs ready (deploy_dualvm_tokens settle_env node_kk settle_dv) (\<lambda>_. True)"
  unfolding deploy_dualvm_tokens_def
  by (rule runs_bnd [OF ready_parts(1)], rule runs_seq [OF ready_parts(5)],
      rule runs_bnd [OF ready_parts(2)], rule runs_bnd [where P = "\<lambda>k. k = 500"], simp add: get_option_def runs_ret,
      rule runs_bnd [OF ready_kk], simp add: settle_dv_def get_option_def,
      rule runs_bnd [OF ready_output [OF ready_call_fn(1)]], simp,
      rule runs_bnd [OF ready_native], simp, rule runs_bnd [OF ready_native], simp,
      rule runs_seq [OF ready_dump ready_parts(4)])

text \<open>The deployers of the pre-EIP-155 transactions have used their nonces, so nothing is to be deployed.\<close>

lemma runs_try: "runs I m P \<Longrightarrow> runs I (try_except m h) P"
  unfolding runs_def try_except_def by fastforce

lemma ready_pre_tx:
  "name \<in> {''Multicall3'', ''ArachnidProxy'', ''CreateX''} \<Longrightarrow>
     runs ready (pre_tx_of node_kk name) (\<lambda>tx. map_of (PRE_EIP155_TX (\<lambda>_. [])) name = Some tx)"
  by (auto simp: pre_tx_of_def node_kk_def PRE_EIP155_TX_def get_option_def runs_ret)

lemma ready_not_wanted: "runs ready (gets (wants_deploy name)) (\<lambda>wanted. \<not> wanted)"
  by (auto simp: runs_def ready_def gets_def)

lemma ready_pre_sender:
  assumes "name \<in> {''Multicall3'', ''ArachnidProxy'', ''CreateX''}"
  shows "runs ready (deploy_pre_eip155_sender settle_env node_kk name) (\<lambda>_. True)"
proof -
  have count: "runs ready (eth_get_transaction_count settle_env node_kk a) (\<lambda>n. n = 100)" for a
    unfolding eth_get_transaction_count_def
    by (rule runs_bnd [OF ready_output [OF ready_call_fn(3)]], rule runs_try)
      (use ready_output [OF ready_call_fn(3), of "''eth_get_transaction_count''"] in simp)
  have "runs ready (set_should_deploy name False) (\<lambda>_. True)"
    by (simp add: runs_def ready_def set_should_deploy_def modify_def wants_deploy_def)
  moreover have "rlp_items node_kk bs = Inr [[], [], [], []]" for bs by (simp add: node_kk_def)
  ultimately show ?thesis
    unfolding deploy_pre_eip155_sender_def
    by (intro runs_bnd [OF ready_pre_tx [OF assms]])
      (auto simp: unsigned_items_def get_option_def from_bytes_big_def intro!: runs_bnd [OF count]
        runs_bnd [OF runs_lift [where P = "\<lambda>x. x = [[], [], [], []]"]] runs_bnd [OF runs_ret [where P = "\<lambda>x. x = []"]])
qed

lemma ready_pre_whitelist:
  assumes "name \<in> {''Multicall3'', ''ArachnidProxy'', ''CreateX''}"
  shows "runs ready (whitelist_pre_eip155_tx settle_env node_kk name) (\<lambda>_. True)"
  unfolding whitelist_pre_eip155_tx_def
  by (rule runs_bnd [OF ready_pre_tx [OF assms]], rule runs_bnd [OF ready_not_wanted]) (simp add: runs_ret)

lemma ready_pre_send:
  assumes "name \<in> {''Multicall3'', ''ArachnidProxy'', ''CreateX''}"
  shows "runs ready (send_pre_eip155_transaction settle_env node_kk name) (\<lambda>_. True)"
  unfolding send_pre_eip155_transaction_def
  by (rule runs_bnd [OF ready_pre_tx [OF assms]], rule runs_bnd [OF ready_address], rule runs_bnd [OF ready_not_wanted])
    (simp add: runs_ret)

lemma ready_record:
  "set names \<subseteq> {''Multicall3'', ''ArachnidProxy'', ''CreateX''} \<Longrightarrow>
     runs ready (record_pre_contracts settle_env node_kk names entries) (\<lambda>ds. ds = entries)"
proof (induction names)
  case (Cons name names)
  then have name: "name \<in> {''Multicall3'', ''ArachnidProxy'', ''CreateX''}" by simp
  have same: "AList.update name \<lparr>kd_address = pt_address tx, kd_starknet_address = 100\<rparr> entries = entries"
    if "map_of (PRE_EIP155_TX (\<lambda>_. [])) name = Some tx" for tx
    using name that by (elim insertE emptyE; hypsubst) (simp_all add: PRE_EIP155_TX_def entries_def, auto)
  have IH: "runs ready (record_pre_contracts settle_env node_kk names entries) (\<lambda>ds. ds = entries)"
    using Cons by simp
  show ?case
    unfolding record_pre_contracts.simps
  proof (rule runs_seq [OF ready_pre_send [OF name]], rule runs_bnd [OF ready_pre_tx [OF name]], rule runs_bnd [OF ready_address])
    fix tx and a :: int
    assume "map_of (PRE_EIP155_TX (\<lambda>_. [])) name = Some tx" and "a = 100"
    then show "runs ready (record_pre_contracts settle_env node_kk names
        (AList.update name \<lparr>kd_address = pt_address tx, kd_starknet_address = a\<rparr> entries)) (\<lambda>ds. ds = entries)"
      using IH by (simp only: same)
  qed
qed (simp add: runs_ret)

lemma pre_names: "map fst (PRE_EIP155_TX rest) = [''Multicall3'', ''ArachnidProxy'', ''CreateX'']"
  by (simp add: PRE_EIP155_TX_def)

lemma ready_pre:
  "runs ready (deploy_pre_eip155_contracts settle_env node_kk) (\<lambda>_. True)"
  "runs ready (deploy_pre_eip155_senders settle_env node_kk) (\<lambda>_. True)"
  "runs ready (whitelist_pre_eip155_txs settle_env node_kk) (\<lambda>_. True)"
proof -
  have "runs ready (record_pre_contracts settle_env node_kk [''Multicall3'', ''ArachnidProxy'', ''CreateX''] entries)
      (\<lambda>ds. ds = entries)"
    by (rule ready_record) simp
  then show "runs ready (deploy_pre_eip155_contracts settle_env node_kk) (\<lambda>_. True)"
    unfolding deploy_pre_eip155_contracts_def pre_names
    by (intro runs_bnd [OF ready_kk]) (auto elim!: runs_bnd simp: ready_dump)
  show "runs ready (deploy_pre_eip155_senders settle_env node_kk) (\<lambda>_. True)"
    "runs ready (whitelist_pre_eip155_txs settle_env node_kk) (\<lambda>_. True)"
    unfolding deploy_pre_eip155_senders_def whitelist_pre_eip155_txs_def pre_names for_each.simps
    by (intro runs_seq runs_ret ready_pre_sender ready_pre_whitelist; simp)+
qed

lemma ready_sequential: "runs ready (deploy_sequential settle_env node_kk settle_dv (dev_account 9)) (\<lambda>_. True)"
  unfolding deploy_sequential_def
proof (rule runs_seq [OF ready_pre(1)], rule runs_bnd)
  show "runs ready (withdraw_coinbase settle_env node_kk settle_dv (dev_account 9)) (\<lambda>c. c = 0)"
    unfolding withdraw_coinbase_def
    by (rule runs_bnd [OF ready_output [OF ready_call_fn(3)]]) (simp add: py_when_def seq_def runs_ret)
  have "runs ready (peek (\<lambda>h. dv_l1_balance settle_dv h x)) (\<lambda>_. True)" for x
    by (simp add: runs_def peek_def lift_sum_def settle_dv_def)
  then have "runs ready (report_balances settle_env node_kk settle_dv (dev_account 9) c) (\<lambda>_. True)" for c
    unfolding report_balances_def Let_def
    by (intro runs_seq runs_ret runs_weaken [OF ready_balance] runs_weaken [OF ready_eth_balance]) simp_all
  then show "runs ready (seq (report_balances settle_env node_kk settle_dv (dev_account 9) c)
      (for_each (ALL_PRECOMPILES (dv_ethereum_precompiles settle_dv)) (check_precompile settle_env))) (\<lambda>_. True)" for c
    by (rule runs_seq) (intro runs_for_each ready_precompile)
qed

lemma ready_all: "runs ready (deploy_all settle_env node_kk settle_dv) (\<lambda>_. True)"
proof -
  have "runs ready (deploy_batched settle_env node_kk settle_dv a) (\<lambda>_. True)" for a
    unfolding deploy_batched_def
    by (intro runs_seq runs_ret ready_pre ready_starknet ready_parts(6) ready_fund ready_evm ready_dualvm)
  then show ?thesis
    unfolding deploy_all_def
    by (rule_tac runs_bnd [OF ready_parts(1)])
      (auto intro!: runs_seq ready_parts(4,5) runs_weaken [OF ready_balance] ready_sequential)
qed


end
