(* ===== verification/DeploymentOrder.thy ===== *)
theory DeploymentOrder
  imports DeploymentRun
begin

text \<open>
  What single steps of the deployment submit: the upgrade of Kakarot is one transaction, and a DualVM
  token whose recorded contract is gone is not replaced.
\<close>

section \<open>Deferring calls of the main account\<close>

definition defers :: "account \<Rightarrow> call list \<Rightarrow> 'm world_scheme \<Rightarrow> 'm world_scheme \<Rightarrow> bool" where
  "defers acc cs s t \<longleftrightarrow> submitted t = submitted s \<and> account_cache t = account_cache s \<and>
     lazy_accounts t = lazy_accounts s \<and> multisig_accounts t = multisig_accounts s \<and>
     logs t = foldl (\<lambda>l c. extend_log acc [c] l) (logs s) cs"

lemma defers_trans: "defers acc cs s t \<Longrightarrow> defers acc ds t u \<Longrightarrow> defers acc (cs @ ds) s u"
  by (simp add: defers_def)

interpretation idle: step_relation "defers acc []" for acc
  by unfold_locales (auto simp: defers_def)

lemma idle_pieces:
  "sent_txs [ev] = [] \<Longrightarrow> rel_py (defers acc []) (ask ev oracle)"
  "rel_py (defers acc []) get_deployments" "rel_py (defers acc []) (felt_output r)"
  "rel_py (defers acc []) (get_option e x)" "rel_py (defers acc []) (get_selector_from_name E f)"
  "rel_py (defers acc []) (modify (\<lambda>s. s\<lparr>contract_cache := g s\<rparr>))"
  by (auto simp: rel_py_def defers_def py_run submitted_def get_deployments_def felt_output_def
      get_selector_from_name_def Let_def split: sum.split option.split list.split arg.split)

lemma idle_get_contract: "rel_py (defers acc []) (get_contract E n a p)"
  unfolding get_contract_def Let_def by (auto intro!: idle.rules idle_pieces split: option.split)

lemma idle_queries:
  "rel_py (defers acc []) (ask_class_hash_at E a)" "rel_py (defers acc []) (abi_call E c f args)"
  "rel_py (defers acc []) (declared_hash hs n)"
  unfolding ask_class_hash_at_def abi_call_def declared_hash_def by (auto intro: idle_pieces)

lemma idle_then: "rel_py (defers acc []) m \<Longrightarrow> m s = Ret x u \<Longrightarrow> defers acc cs u t \<Longrightarrow> defers acc cs s t"
  using defers_trans [of acc "[]" s u cs t] by (auto dest: rel_pyD_Ret)

lemma fold_extend_log: "foldl (\<lambda>l c. extend_log acc [c] l) [] cs = (if cs = [] then [] else [(acc, cs)])"
proof -
  have "foldl (\<lambda>l c. extend_log acc [c] l) [(acc, ds)] cs = [(acc, ds @ cs)]" for ds
    by (induction cs arbitrary: ds) simp_all
  from this [of "[]"] have "foldl (\<lambda>l c. extend_log acc [c] l) [(acc, [])] cs = [(acc, cs)]" by simp
  then show ?thesis by (cases cs) simp_all
qed

text \<open>The call that an invocation of Kakarot makes.\<close>

definition kakarot_call :: "env \<Rightarrow> string \<times> int \<Rightarrow> call \<Rightarrow> bool" where
  "kakarot_call E = (\<lambda>(f, x) c. c_selector c = selector_of E f \<and>
     serialize E ''kakarot'' f [Felt x] = Inr (c_calldata c))"

lemma invoke_kakarot_defers:
  assumes run: "invoke_kakarot E f [Felt x] a s = Ret r t"
    and acc: "account_cache s (NoAddr, None) = Some acc" and lazy: "lazy_accounts s (ac_address acc)"
  shows "\<exists>c. kakarot_call E (f, x) c \<and> defers acc [c] s t"
proof -
  have main: "main_account E s = Ret acc s"
    using acc by (simp add: main_account_def get_starknet_account_def py_run)
  obtain c u v call r' where c: "get_contract E ''kakarot'' a (Some acc) s = Ret c u"
    and sel: "get_selector_from_name E f u = Ret (selector_of E f) v"
    and prep: "prepare_invoke E c f [Felt x] = Inr call"
    and ex: "execute_v1 E acc [call] v = Ret r' t"
    using run main
    by (auto simp: invoke_kakarot_def invoke_def get_selector_from_name_def Let_def py_run
        split: outcome.splits sum.splits)
  have i: "defers acc [] s v"
    using idle.R_trans rel_pyD_Ret [OF idle_get_contract c] rel_pyD_Ret [OF idle_pieces(5) sel] by blast
  then have "lazy_accounts v (ac_address acc)" using lazy by (simp add: defers_def)
  then have "defers acc [call] v t"
    using ex by (auto simp: execute_v1_def py_run defers_def submitted_def)
  with defers_trans [OF i] have "defers acc [call] s t" by fastforce
  moreover have "ct_name c = ''kakarot''" by (rule get_contract_name [OF c])
  then have "kakarot_call E (f, x) call"
    using prep by (auto simp: prepare_invoke_def kakarot_call_def elim!: bind_sum_InrE)
  ultimately show ?thesis by blast
qed


section \<open>Upgrading Kakarot\<close>

text \<open>The calls an upgrade has to make, with their arguments.\<close>

definition upgrade_calls :: "env \<Rightarrow> (string \<times> int) list \<Rightarrow> int \<Rightarrow> int \<Rightarrow> (string \<times> int) list" where
  "upgrade_calls E hashes deployed chain =
     (if map_of hashes ''kakarot'' = Some deployed then []
      else [(''upgrade'', the (map_of hashes ''kakarot'')),
            (''set_account_contract_class_hash'', the (map_of hashes ''account_contract'')),
            (''set_cairo1_helpers_class_hash'', the (map_of hashes ''Cairo1Helpers''))]) @
     (if chain = 0 then [(''initialize_chain_id'', nw_chain_id (network E))] else [])"

lemma declared_hash_Ret: "declared_hash hs n s = Ret h t \<Longrightarrow> map_of hs n = Some h \<and> t = s"
  by (auto simp: declared_hash_def py_run split: option.splits)

lemma three_invokes:
  assumes "invoke_kakarot E f1 [Felt x1] None s = Ret () t1" and "invoke_kakarot E f2 [Felt x2] None t1 = Ret () t2"
    and "invoke_kakarot E f3 [Felt x3] None t2 = Ret () t"
    and "account_cache s (NoAddr, None) = Some acc" and "lazy_accounts s (ac_address acc)"
  shows "\<exists>cs. list_all2 (kakarot_call E) [(f1, x1), (f2, x2), (f3, x3)] cs \<and> defers acc cs s t"
proof -
  obtain c1 where c1: "kakarot_call E (f1, x1) c1" "defers acc [c1] s t1"
    using invoke_kakarot_defers [OF assms(1,4,5)] by blast
  obtain c2 where c2: "kakarot_call E (f2, x2) c2" "defers acc [c2] t1 t2"
    using invoke_kakarot_defers [OF assms(2)] assms(4,5) c1(2) by (auto simp: defers_def)
  obtain c3 where c3: "kakarot_call E (f3, x3) c3" "defers acc [c3] t2 t"
    using invoke_kakarot_defers [OF assms(3)] assms(4,5) c1(2) c2(2) by (auto simp: defers_def)
  have "defers acc ([c1] @ [c2] @ [c3]) s t"
    by (rule defers_trans [OF c1(2) defers_trans [OF c2(2) c3(2)]])
  with c1(1) c2(1) c3(1) show ?thesis by (intro exI [of _ "[c1] @ [c2] @ [c3]"]) simp
qed

lemma defers_ready:
  assumes "defers acc cs s t" and "account_cache s (NoAddr, None) = Some acc" and "lazy_accounts s (ac_address acc)"
  shows "account_cache t (NoAddr, None) = Some acc" and "lazy_accounts t (ac_address acc)"
  using assms by (simp_all add: defers_def)

lemma upgrade_classes_defers:
  assumes run: "py_when (deployed \<noteq> declared)
            (seq (invoke_kakarot E ''upgrade'' [Felt declared] None)
            (bnd (declared_hash hashes ''account_contract'') (\<lambda>account.
             seq (invoke_kakarot E ''set_account_contract_class_hash'' [Felt account] None)
            (bnd (declared_hash hashes ''Cairo1Helpers'') (\<lambda>helpers.
             invoke_kakarot E ''set_cairo1_helpers_class_hash'' [Felt helpers] None))))) s = Ret () t"
    and h: "map_of hashes ''kakarot'' = Some declared"
    and ready: "account_cache s (NoAddr, None) = Some acc" "lazy_accounts s (ac_address acc)"
  shows "\<exists>cs. list_all2 (kakarot_call E) (upgrade_calls E hashes deployed 1) cs \<and> defers acc cs s t"
proof (cases "declared = deployed")
  case True
  with run h idle.R_refl show ?thesis by (auto simp: py_when_def ret_def upgrade_calls_def)
next
  case False
  then show ?thesis using run h
    by (auto simp: py_when_def Ret_iff upgrade_calls_def dest!: declared_hash_Ret intro!: three_invokes ready)
qed

lemma eth_chain_id_defers:
  assumes ch: "eth_chain_id E s = Ret chain t"
  shows "defers acc [] s t" and "\<exists>h a out. o_abi_call E h a ''eth_chain_id'' [] = Inr (Felt chain # out)"
proof -
  have "rel_py (defers acc []) (eth_chain_id E :: ('a world_scheme, int) py)"
    unfolding eth_chain_id_def call_fn_def call_contract_def target.case
    by (intro idle.bnd_rule idle_get_contract idle_queries(2) idle_pieces(3))
  then show "defers acc [] s t" using ch by (rule rel_pyD_Ret)
  obtain c u r v where r: "abi_call E c ''eth_chain_id'' [] u = Ret r v" and f: "felt_output r v = Ret chain t"
    using ch unfolding eth_chain_id_def call_fn_def call_contract_def target.case Ret_iff by blast
  have "\<exists>out. r = Felt chain # out"
    using f by (auto simp: felt_output_def ret_def raise_def split: list.splits arg.splits)
  then show "\<exists>h a out. o_abi_call E h a ''eth_chain_id'' [] = Inr (Felt chain # out)"
    using r unfolding abi_call_def ask_Ret by blast
qed

lemma initialize_chain_defers:
  assumes run: "py_when (chain = 0) (invoke_kakarot E ''initialize_chain_id'' [Felt (nw_chain_id (network E))] None) s = Ret () t"
    and deployed: "map_of hashes ''kakarot'' = Some declared"
    and ready: "account_cache s (NoAddr, None) = Some acc" "lazy_accounts s (ac_address acc)"
  shows "\<exists>cs. list_all2 (kakarot_call E) (upgrade_calls E hashes declared chain) cs \<and> defers acc cs s t"
proof (cases "chain = 0")
  case True
  with run deployed invoke_kakarot_defers [OF _ ready] show ?thesis
    by (fastforce simp: py_when_def upgrade_calls_def)
next
  case False
  with run deployed idle.R_refl show ?thesis by (auto simp: py_when_def ret_def upgrade_calls_def)
qed

lemma upgrade_calls_split:
  "map_of hashes ''kakarot'' = Some declared \<Longrightarrow>
   upgrade_calls E hashes deployed chain = upgrade_calls E hashes deployed 1 @ upgrade_calls E hashes declared chain"
  by (simp add: upgrade_calls_def)

lemma upgrade_kakarot_defers:
  assumes run: "upgrade_kakarot E hashes kakarot s = Ret () t"
    and ready: "account_cache s (NoAddr, None) = Some acc" "lazy_accounts s (ac_address acc)"
  shows "\<exists>deployed chain h1 h2 a out cs. o_class_hash_at E h1 kakarot = Inr deployed \<and>
    o_abi_call E h2 a ''eth_chain_id'' [] = Inr (Felt chain # out) \<and>
    list_all2 (kakarot_call E) (upgrade_calls E hashes deployed chain) cs \<and> defers acc cs s t"
proof -
  let ?up = "\<lambda>deployed declared. py_when (deployed \<noteq> declared)
            (seq (invoke_kakarot E ''upgrade'' [Felt declared] None)
            (bnd (declared_hash hashes ''account_contract'') (\<lambda>account.
             seq (invoke_kakarot E ''set_account_contract_class_hash'' [Felt account] None)
            (bnd (declared_hash hashes ''Cairo1Helpers'') (\<lambda>helpers.
             invoke_kakarot E ''set_cairo1_helpers_class_hash'' [Felt helpers] None)))))"
  let ?init = "\<lambda>chain. py_when (chain = 0) (invoke_kakarot E ''initialize_chain_id'' [Felt (nw_chain_id (network E))] None)"
  obtain deployed u declared where d: "ask_class_hash_at E kakarot s = Ret deployed u"
    and h: "map_of hashes ''kakarot'' = Some declared"
    and rest: "seq (?up deployed declared) (bnd (eth_chain_id E) ?init) u = Ret () t"
    using run unfolding upgrade_kakarot_def by (auto simp: Ret_iff dest!: declared_hash_Ret)
  obtain v w chain where up: "?up deployed declared u = Ret () v" and ch: "eth_chain_id E v = Ret chain w"
    and init: "?init chain w = Ret () t"
    using rest by (auto simp: Ret_iff)
  have u: "defers acc [] s u" by (rule rel_pyD_Ret [OF idle_queries(1) d])
  obtain cs where cs: "list_all2 (kakarot_call E) (upgrade_calls E hashes deployed 1) cs" "defers acc cs u v"
    using upgrade_classes_defers [OF up h defers_ready [OF u ready]] by blast
  have w: "defers acc cs s w"
    using defers_trans [OF u defers_trans [OF cs(2) eth_chain_id_defers(1) [OF ch]]] by simp
  obtain ds where ds: "list_all2 (kakarot_call E) (upgrade_calls E hashes declared chain) ds" "defers acc ds w t"
    using initialize_chain_defers [OF init h defers_ready [OF w ready]] by blast
  have "list_all2 (kakarot_call E) (upgrade_calls E hashes deployed chain) (cs @ ds)"
    by (subst upgrade_calls_split [OF h]) (rule list_all2_appendI [OF cs(1) ds(1)])
  moreover have "\<exists>h1. o_class_hash_at E h1 kakarot = Inr deployed"
    using d by (auto simp: ask_class_hash_at_def ask_cases Let_def split: sum.splits)
  ultimately show ?thesis
    using eth_chain_id_defers(2) [OF ch] defers_trans [OF w ds(2)] by blast
qed


text \<open>C10. An upgrade is one transaction.  With the main account lazy and nothing deferred before, the
  upgrade and the execution of the deferred calls submit a single transaction of that account:
  the new class, the class of the account contracts and of the helpers, in this order and as
  declared, when the class on the network is another one, then the chain identifier when it is
  not set; and no transaction when there is nothing to do.\<close>

theorem upgrade_is_one_transaction:
  fixes s t :: "'m world_scheme"
  assumes "seq (upgrade_kakarot E hashes kakarot) (execute_calls E) s = Ret () t"
    and "account_cache s (NoAddr, None) = Some acc"
    and "lazy_accounts s (ac_address acc)" and "\<not> multisig_accounts s (ac_address acc)"
    and "logs s = []"
  shows "\<exists>deployed chain h1 h2 a out cs. o_class_hash_at E h1 kakarot = Inr deployed \<and>
    o_abi_call E h2 a ''eth_chain_id'' [] = Inr (Felt chain # out) \<and>
    list_all2 (kakarot_call E) (upgrade_calls E hashes deployed chain) cs \<and>
    submitted t = submitted s @ (if cs = [] then [] else [(ac_address acc, cs)])"
proof -
  obtain u where up: "upgrade_kakarot E hashes kakarot s = Ret () u" and ex: "execute_calls E u = Ret () t"
    using assms(1) by (auto simp: Ret_iff)
  obtain deployed chain h1 h2 a out cs where o: "o_class_hash_at E h1 kakarot = Inr deployed"
      "o_abi_call E h2 a ''eth_chain_id'' [] = Inr (Felt chain # out)"
      "list_all2 (kakarot_call E) (upgrade_calls E hashes deployed chain) cs" and d: "defers acc cs s u"
    using upgrade_kakarot_defers [OF up assms(2,3)] by blast
  have l: "logs u = (if cs = [] then [] else [(acc, cs)])"
    using d assms(5) fold_extend_log by (simp add: defers_def)
  have u: "multisig_accounts u = multisig_accounts s" "submitted u = submitted s" using d by (simp_all add: defers_def)
  have "\<forall>(b, ds) \<in> set (logs u). \<not> multisig_accounts u (ac_address b)"
    using l u(1) assms(4) by simp
  from execute_calls_Ret(1) [OF ex this]
  have "submitted t = submitted s @ (if cs = [] then [] else [(ac_address acc, cs)])" by (simp add: l u(2))
  with o show ?thesis by blast
qed


definition upgrade_env :: env where
  "upgrade_env = dev_env\<lparr>o_class_hash_at := (\<lambda>h a. Inr 1), o_abi_call := (\<lambda>h a f args. Inr [Felt 0])\<rparr>"

lemma upgrade_env_sel [simp]:
  "network upgrade_env = dev_network" "o_class_hash_at upgrade_env = (\<lambda>h a. Inr 1)"
  "o_abi_call upgrade_env = (\<lambda>h a f args. Inr [Felt 0])" "serialize upgrade_env = (\<lambda>c f args. Inr [])"
  "o_pending_nonce upgrade_env = o_pending_nonce dev_env" "o_cairo_version upgrade_env = (\<lambda>h a. Inr 1)"
  "o_wait_for_tx upgrade_env = (\<lambda>h x. Inr ())"
  "o_add_invoke upgrade_env = (\<lambda>h tx. Inr (100 + int (length (sent_txs h))))"
  by (simp_all add: upgrade_env_def dev_env_def)

definition upgrade_world :: world where
  "upgrade_world = dev_world\<lparr>account_cache := [(NoAddr, None) \<mapsto> dev_account 9], lazy_accounts := (\<lambda>a. a = 9),
     contract_cache := [(''kakarot'', None, None) \<mapsto> 500, (''kakarot'', None, Some 9) \<mapsto> 500]\<rparr>"

definition upgrade_hashes :: "(string \<times> int) list" where
  "upgrade_hashes = [(''kakarot'', 5), (''account_contract'', 6), (''Cairo1Helpers'', 7)]"

lemma upgrade_run:
  "\<exists>t. seq (upgrade_kakarot upgrade_env upgrade_hashes 500) (execute_calls upgrade_env) upgrade_world = Ret () t"
  by (simp add: upgrade_kakarot_def upgrade_world_def upgrade_hashes_def ask_class_hash_at_def declared_hash_def
      invoke_kakarot_def invoke_def main_account_def get_starknet_account_def get_contract_def
      get_selector_from_name_def prepare_invoke_def execute_v1_def eth_chain_id_def call_fn_def call_contract_def
      abi_call_def felt_output_def execute_calls_def execute_v1_wrapped_def get_nonce_def next_nonce_def poll_nonce_10
      ask_nonce_def store_nonce_def wait_for_transaction_def py_run Let_def)

lemma upgrade_is_one_transaction_witness:
  "\<exists>t cs. seq (upgrade_kakarot upgrade_env upgrade_hashes 500) (execute_calls upgrade_env) upgrade_world = Ret () t \<and>
     submitted t = [(9, cs)] \<and> map c_selector cs = map (selector_of upgrade_env)
       [''upgrade'', ''set_account_contract_class_hash'', ''set_cairo1_helpers_class_hash'', ''initialize_chain_id'']"
proof -
  obtain t where run: "seq (upgrade_kakarot upgrade_env upgrade_hashes 500) (execute_calls upgrade_env) upgrade_world = Ret () t"
    using upgrade_run by blast
  have w: "account_cache upgrade_world (NoAddr, None) = Some (dev_account 9)"
    "lazy_accounts upgrade_world (ac_address (dev_account 9))" "\<not> multisig_accounts upgrade_world (ac_address (dev_account 9))"
    "logs upgrade_world = []" "submitted upgrade_world = []"
    by (simp_all add: upgrade_world_def submitted_def)
  from upgrade_is_one_transaction [OF run w(1-4)]
  show ?thesis
    using run by (auto simp: upgrade_calls_def upgrade_hashes_def list_all2_Cons1 kakarot_call_def w(5))
qed


section \<open>A DualVM token whose contract is gone\<close>

text \<open>The script announces that it deploys a token that is not deployed, but for a recorded token whose
  contract is gone and whose L2 token exists it goes straight to the checks: nothing is deployed and
  the record stays.\<close>

theorem dualvm_dead_entry:
  assumes "tk_l2_address tk = Some l2_text" and "int16 l2_text = Inr l2"
    and "tk_name tk = Some name" and "name \<noteq> fst native" and "map_of deployments name = Some d"
    and "dualvm_current E K D kakarot d s = Ret False u"
    and "o_class_hash_at E (trace u @ [ClassHashAt l2]) l2 = Inr ch"
  shows "dualvm_token E K D kakarot native tk deployments s =
    seq (check_dualvm E K D tk name (kd_address d) l2) (ret deployments) (u\<lparr>trace := trace u @ [ClassHashAt l2]\<rparr>)"
proof -
  have "ensure_l2_token E D tk name l2 u = Ret (l2, False) (u\<lparr>trace := trace u @ [ClassHashAt l2]\<rparr>)"
    using assms(7) by (simp add: ensure_l2_token_def ask_class_hash_at_def py_run)
  with assms(1-6) show ?thesis
    by (simp add: dualvm_token_def) (simp add: bnd_def ret_def seq_def lift_sum_def get_option_def)
qed

end
