(* ===== verification/DeploymentNonces.thy ===== *)
theory DeploymentNonces
  imports DeploymentRun ClientFrame
begin

text \<open>
  What holds all through the deployment.  Everything the deployment does to the history and to the nonce
  dictionary is asking questions and executing calls, so a property of these two that questions and
  executions keep is kept by \<^verbatim>\<open>main.py\<close> as a whole; the locale proves it once for all such properties.  Its
  instances are the numbering of the requests on a network that is late, and the signatures and
  fees of the transactions.
\<close>

section \<open>The whole deployment\<close>

context client_relation
begin

lemma peek_kept [kept_ops]: "rel_py R (peek p)"
  by (auto simp: rel_py_def peek_def lift_sum_def R_refl split: sum.split)

lemma deploy_kept [kept_ops]: "rel_py R (deploy E name salt args)"
  unfolding deploy_def already_deployed_def deployed_is_current_def
  by (auto intro!: rules kept_ops split: option.split prod.split)

lemma solidity_kept [kept_ops]:
  "rel_py R (open_solidity E K D app name address)" "rel_py R (call_solidity E K c f args)"
proof -
  show "rel_py R (open_solidity E K D app name address)"
    unfolding open_solidity_def by (auto intro!: rules kept_ops solidity_contract_kept)
  show "rel_py R (call_solidity E K c f args)"
    unfolding call_solidity_def wrap_kakarot_def eth_call_def Let_def
    by (auto intro!: rules kept_ops split: option.split)
qed

lemma pre_eip155_kept [kept_ops]:
  "rel_py R (deploy_pre_eip155_sender E K name)" "rel_py R (whitelist_pre_eip155_tx E K name)"
  "rel_py R (send_pre_eip155_transaction E K name)"
  unfolding deploy_pre_eip155_sender_def whitelist_pre_eip155_tx_def send_pre_eip155_transaction_def Let_def
  by (auto intro!: rules kept_ops split: option.split list.split prod.split)

section \<open>The parts of the deployment\<close>

lemma starknet_part_kept [kept_ops]:
  "rel_py R (invoke_kakarot E f args a)" "rel_py R (deploy_fresh E D name args')"
  "rel_py R (deploy_starknet_contracts E D account)" "rel_py R (deploy_or_upgrade_kakarot E K D account)"
  unfolding invoke_kakarot_def deploy_fresh_def deploy_starknet_contracts_def deploy_or_upgrade_kakarot_def
    kakarot_args_def declared_hash_def set_evm_coinbase_def upgrade_kakarot_def Let_def
  by (auto intro!: rules kept_ops)

lemma evm_part_kept [kept_ops]:
  "rel_py R (fund_evm_deployer E K)" "rel_py R (deploy_evm_contracts E K D)"
  unfolding fund_evm_deployer_def deploy_evm_contracts_def deploy_token_def token_current_def deploy_coinbase_def
    deploy_evm_def
  by (auto intro!: rules kept_ops split: option.split)

lemma pre_part_kept [kept_ops]:
  "rel_py R (deploy_pre_eip155_senders E K)" "rel_py R (whitelist_pre_eip155_txs E K)"
  "rel_py R (deploy_pre_eip155_contracts E K)"
proof -
  have recorded: "rel_py R (record_pre_contracts E K names ds)" for names ds
    by (induction names arbitrary: ds) (auto intro!: rules kept_ops)
  show "rel_py R (deploy_pre_eip155_contracts E K)"
    unfolding deploy_pre_eip155_contracts_def by (auto intro!: rules kept_ops recorded)
qed (auto intro!: rules kept_ops
    simp: deploy_pre_eip155_senders_def whitelist_pre_eip155_txs_def)

lemma dualvm_steps_kept:
  "rel_py R (dualvm_current E K D kakarot d)" "rel_py R (ensure_l2_token E D' tk name l2)"
  "rel_py R (check_dualvm E K D tk name address l2)" "rel_py R (create_dualvm E K D kakarot l2)"
  unfolding dualvm_current_def succeeds_py_def ensure_l2_token_def check_dualvm_def text_result_def Let_def
    create_dualvm_def deploy_evm_def
  by (auto intro!: rules kept_ops split: call_result.split arg.split)

lemma dualvm_token_kept [kept_ops]: "rel_py R (dualvm_token E K D kakarot native tk ds)"
  unfolding dualvm_token_def
  by (auto intro!: rules kept_ops dualvm_steps_kept split: option.split prod.split)

lemma dualvm_loop_kept [kept_ops]: "rel_py R (dualvm_loop E K D kakarot native tks ds)"
  by (induction tks arbitrary: ds) (auto intro!: rules kept_ops)

lemma dualvm_part_kept [kept_ops]: "rel_py R (deploy_dualvm_tokens E K D)"
  unfolding deploy_dualvm_tokens_def native_text_def by (auto intro!: rules kept_ops)

lemma end_part_kept [kept_ops]:
  "rel_py R (withdraw_coinbase E K D account)" "rel_py R (report_balances E K D' account coinbase)"
  "rel_py R (check_precompile E precompile)"
  unfolding withdraw_coinbase_def report_balances_def check_precompile_def Let_def
  by (auto intro!: rules kept_ops)

lemma before_declaring [kept_ops]:
  "rel_py R get_class_hashes" "rel_py R (class_declared E ch)" "rel_py R (declarer E)" "rel_py R (dump_declarations hs)"
  unfolding get_class_hashes_def class_declared_def declarer_def dump_declarations_def
  by (auto intro!: rules kept_ops modifies split: option.split)

lemma deploy_all_kept: "rel_py R (deploy_all E K D)"
  unfolding deploy_all_def deploy_batched_def deploy_sequential_def
  by (auto intro!: rules kept_ops)

end

section \<open>The interface\<close>

locale deployment_invariant =
  fixes I :: "'m kk_world_scheme \<Rightarrow> bool"
    and E :: env
  assumes question_invariant: "nonce_use ev = None \<Longrightarrow> I s \<Longrightarrow> I (s\<lparr>trace := trace s @ [ev]\<rparr>)"
    and rest_invariant: "trace t = trace s \<Longrightarrow> nonces t = nonces s \<Longrightarrow> I s \<Longrightarrow> I t"
    and execution_invariant: "keeps I (execute_v1_wrapped E account calls)"

sublocale deployment_invariant \<subseteq> client_relation "\<lambda>s t. I s \<longrightarrow> I t" E
proof
  fix s t and key and a :: int
  assume "I s \<longrightarrow> I t"
  then show "I s \<longrightarrow> I (t\<lparr>library_cache := (library_cache t)(key \<mapsto> a)\<rparr>)"
    using rest_invariant [of "t\<lparr>library_cache := (library_cache t)(key \<mapsto> a)\<rparr>" t] by simp
qed (use question_invariant rest_invariant execution_invariant in blast)+

section \<open>Nonces and signatures\<close>

interpretation nonces_kept: deployment_invariant "\<lambda>s. lagging_network E base acc a \<longrightarrow> on_track base acc a s" E
  for E base acc a
proof
  fix ev and s :: "'m kk_world_scheme"
  assume "nonce_use ev = None" and I: "lagging_network E base acc a \<longrightarrow> on_track base acc a s"
  then have "untouched a s (s\<lparr>trace := trace s @ [ev]\<rparr>)" by (simp add: untouched_def uses_nonce_of_def)
  with I show "lagging_network E base acc a \<longrightarrow> on_track base acc a (s\<lparr>trace := trace s @ [ev]\<rparr>)"
    by (blast intro: untouched_on_track)
next
  fix t s :: "'m kk_world_scheme"
  assume "trace t = trace s" and "nonces t = nonces s" and "lagging_network E base acc a \<longrightarrow> on_track base acc a s"
  then show "lagging_network E base acc a \<longrightarrow> on_track base acc a t" by (blast intro: same_trace_on_track)
next
  fix account calls
  show "keeps (\<lambda>s :: 'm kk_world_scheme. lagging_network E base acc a \<longrightarrow> on_track base acc a s)
      (execute_v1_wrapped E account calls)"
    using execute_v1_wrapped_on_track [of E base acc a account calls]
    by (cases "lagging_network E base acc a") (auto simp: rel_py_def split: outcome.split)
qed

text \<open>A declaration uses a nonce of the account that declares.\<close>

lemma declaration_releasable:
  assumes "lagging_network E base acc a" and "ev = DeclareV2 a name n \<or> ev = DeclareV1 a name n"
  shows "triple (in_hand base acc a n) (ask ev (\<lambda>h. o_declare E h name n))
    (\<lambda>x. releasable E base acc a (snd x)) (on_track base acc a)"
proof -
  have "\<not> acc (h @ [ev])"
    if "o_declare E (h @ [ev]) name n = Inr x" and "o_wait_for_tx E h' (snd x) = Inl e" and "is_rejected e"
    for h x h' e
    using assms that unfolding lagging_network_def by (cases x) fastforce
  with assms(2) show ?thesis by (intro submit_releasable [where hash_of = snd]) auto
qed

definition send_declaration ::
    "env \<Rightarrow> string \<Rightarrow> artifact \<Rightarrow> int \<Rightarrow> account \<Rightarrow> int \<Rightarrow> ('m world_scheme, int) py" where
  "send_declaration E name artifact ch account nonce =
     bnd (if ar_sierra artifact \<noteq> None
          then bnd (ask (DeclareV2 (ac_address account) name nonce) (\<lambda>h. o_declare E h name nonce))
                 (\<lambda>(class_hash, tx_hash). ret (ch, tx_hash))
          else bnd (ask (DeclareV1 (ac_address account) name nonce) (\<lambda>h. o_declare E h name nonce))
                 (\<lambda>(class_hash, tx_hash). ret (class_hash, tx_hash))) (\<lambda>(class_hash, tx_hash).
     seq (wait_for_transaction E tx_hash (Some account)) (ret class_hash))"

lemma declaration_on_track:
  assumes "lagging_network E base acc (ac_address account)"
  shows "triple (in_hand base acc (ac_address account) n) (send_declaration E name artifact ch account n)
    (\<lambda>_. on_track base acc (ac_address account)) (on_track base acc (ac_address account))"
proof -
  let ?a = "ac_address account"
  have wait: "triple (releasable E base acc ?a (snd x)) (case x of (ch, h) \<Rightarrow>
      seq (wait_for_transaction E h (Some account)) (ret ch)) (\<lambda>_. on_track base acc ?a) (on_track base acc ?a)"
    for x :: "int \<times> int"
    using wait_on_track [of E base acc account]
    by (cases x) (auto simp: seq_def intro!: triple_bnd triple_ret)
  have send: "triple (in_hand base acc ?a n) (bnd (ask ev (\<lambda>h. o_declare E h name n)) (\<lambda>(c, h). ret (f c, h)))
      (\<lambda>x. releasable E base acc ?a (snd x)) (on_track base acc ?a)"
    if "ev = DeclareV2 ?a name n \<or> ev = DeclareV1 ?a name n" for ev and f :: "int \<Rightarrow> int"
  proof (rule triple_bnd [OF declaration_releasable [OF assms that]])
    fix x :: "int \<times> int"
    show "triple (releasable E base acc ?a (snd x)) (case x of (c, h) \<Rightarrow> ret (f c, h))
        (\<lambda>x. releasable E base acc ?a (snd x)) (on_track base acc ?a)"
      by (cases x) (simp add: triple_def ret_def)
  qed
  show ?thesis
    unfolding send_declaration_def
    by (rule triple_bnd [OF _ wait])
      (use send [of "DeclareV2 ?a name n" "\<lambda>_. ch"] send [of "DeclareV1 ?a name n" "\<lambda>c. c"] in auto)
qed

lemma declaration_untouched:
  "ac_address account \<noteq> a \<Longrightarrow> rel_py (untouched a) (send_declaration E name artifact ch account n)"
  unfolding send_declaration_def
  by (auto intro!: untouched.rules ask_untouched wait_untouched simp: uses_nonce_of_def split: prod.split)

lemma declare_contracts_on_track:
  assumes "lagging_network E base acc a"
  shows "keeps (on_track base acc a) (declare_contracts E contracts :: ('m kk_world_scheme, unit) py)"
proof -
  note kept = nonces_kept.before_declaring [of E base acc a, simplified assms simp_thms]
  have nonce: "keeps (on_track base acc a) (bnd (get_nonce E account) (send_declaration E name artifact ch account))"
    for account name artifact ch
    using keeps_nonce_then [OF _ declaration_on_track] assms declaration_untouched
      rel_untouched_keeps [OF untouched.bnd_rule [OF get_nonce_other declaration_untouched]]
    by (cases "ac_address account = a") auto
  have "keeps (on_track base acc a) (declare_class E name :: ('m kk_world_scheme, int) py)" for name
    unfolding declare_class_def send_declaration_def [symmetric]
    by (intro invariant_step.rules kept invariant_step.lookups nonce)
  then show ?thesis
    unfolding declare_contracts_def by (auto intro!: invariant_step.rules kept)
qed

text \<open>A transaction as the executor makes it: signed, for the chain, by a key for what it holds, and
  with the fee of the network.\<close>

definition well_signed :: "env \<Rightarrow> invoke_tx \<Rightarrow> bool" where
  "well_signed E tx \<longleftrightarrow> tx_max_fee tx = max_fee_default E \<and>
     (\<exists>key. tx_signature tx = sign_invoke E key (tx_sender tx) (tx_calls tx) (tx_cairo_version tx)
        (tx_max_fee tx) (nw_chain_id (network E)) (tx_nonce tx))"

lemma quiet_signed: "rel_py quiet m \<Longrightarrow> keeps (\<lambda>s. list_all (well_signed E) (sent_txs (trace s))) m"
  by (erule rel_py_mono) (simp add: quiet_sent)

lemma ask_signed:
  "list_all (well_signed E) (sent_txs [ev]) \<Longrightarrow> keeps (\<lambda>s. list_all (well_signed E) (sent_txs (trace s))) (ask ev reply)"
  by (auto simp: rel_py_def ask_cases Let_def split: sum.split)

lemma execute_v1_wrapped_signed:
  "keeps (\<lambda>s. list_all (well_signed E) (sent_txs (trace s))) (execute_v1_wrapped E account calls)"
  unfolding execute_v1_wrapped_def Let_def
  by (intro invariant_step.rules ask_signed quiet_signed [OF get_nonce_quiet]
      quiet_signed [OF execute_multisig_quiet] quiet_signed [OF wait_for_transaction_quiet])
    (auto simp: well_signed_def)

interpretation signatures_kept: deployment_invariant "\<lambda>s. list_all (well_signed E) (sent_txs (trace s))" E for E
proof
  fix ev and s :: "'m kk_world_scheme"
  assume "nonce_use ev = None" and "list_all (well_signed E) (sent_txs (trace s))"
  then show "list_all (well_signed E) (sent_txs (trace (s\<lparr>trace := trace s @ [ev]\<rparr>)))"
    by (cases ev) simp_all
next
  fix t s :: "'m kk_world_scheme"
  assume "trace t = trace s" and "list_all (well_signed E) (sent_txs (trace s))"
  then show "list_all (well_signed E) (sent_txs (trace t))" by simp
qed (rule execute_v1_wrapped_signed)


lemma settle_lags:
  "lagging_network settle_env 0 (\<lambda>h. \<exists>g tx. h = g @ [AddInvoke tx]) 9"
proof -
  let ?acc = "\<lambda>h. \<exists>g tx. h = g @ [AddInvoke tx]"
  have "accepted_count ?acc a h = length (filter (\<lambda>tx. tx_sender tx = a) (sent_txs h))" for a h
  proof (induction h rule: rev_induct)
    case (snoc ev h)
    then show ?case by (cases ev) (auto simp: accepted_count_snoc uses_nonce_of_def)
  qed simp
  then show ?thesis unfolding lagging_network_def by simp
qed


text \<open>Every transaction the deployment submits to a node is signed for exactly what it holds, its
  sender, calls, fee and nonce, for the chain of the network, and carries the fee of the network.\<close>

theorem deployment_signed:
  "keeps (\<lambda>s. list_all (well_signed E) (sent_txs (trace s))) (deploy_all E K D)"
  by (rule signatures_kept.deploy_all_kept)

end
