(* ===== verification/Outbox.thy ===== *)
theory Outbox
  imports Batch "HOL-Library.Multiset"
begin

text \<open>
  The executor as an outbox.  A client of \<^verbatim>\<open>starknet.py\<close> turns the lazy mode of accounts on and off,
  invokes calls and flushes, in any order.  The abstract machine below says what it may rely on: a call of
  a lazy account is appended to what is pending for that account, a call of another account is sent
  at once, and a flush sends what is pending, one transaction for each account, in an order of its own.
  The executor simulates this machine, and the machine neither loses nor repeats a call.
\<close>

section \<open>The abstract machine\<close>

datatype command = Invoke account "call list" | SetLazy int bool | Flush

record outbox =
  ob_lazy :: "int \<Rightarrow> bool"
  ob_pending :: "account \<rightharpoonup> call list"
  ob_sent :: "(int \<times> call list) list"

definition waiting :: "outbox \<Rightarrow> account \<Rightarrow> call list" where
  "waiting b a = (case ob_pending b a of None \<Rightarrow> [] | Some cs \<Rightarrow> cs)"

inductive outbox_step :: "outbox \<Rightarrow> command \<Rightarrow> outbox \<Rightarrow> bool" where
  sent: "\<not> ob_lazy b (ac_address a) \<Longrightarrow>
     outbox_step b (Invoke a cs) (b\<lparr>ob_sent := ob_sent b @ [(ac_address a, cs)]\<rparr>)"
| deferred: "ob_lazy b (ac_address a) \<Longrightarrow>
     outbox_step b (Invoke a cs) (b\<lparr>ob_pending := (ob_pending b)(a \<mapsto> waiting b a @ cs)\<rparr>)"
| flag: "outbox_step b (SetLazy x v) (b\<lparr>ob_lazy := (ob_lazy b)(x := v)\<rparr>)"
| flushed: "distinct (map fst batch) \<Longrightarrow> map_of batch = ob_pending b \<Longrightarrow>
     outbox_step b Flush (b\<lparr>ob_pending := Map.empty, ob_sent := ob_sent b @ map key_of batch\<rparr>)"

inductive outbox_run :: "outbox \<Rightarrow> command list \<Rightarrow> outbox \<Rightarrow> bool" where
  finished: "outbox_run b [] b"
| more: "outbox_step b c b' \<Longrightarrow> outbox_run b' cs b'' \<Longrightarrow> outbox_run b (c # cs) b''"

inductive_cases outbox_stepE: "outbox_step b c b'"
inductive_simps outbox_run_simps: "outbox_run b [] b'" "outbox_run b (c # cs) b''"

section \<open>Nothing is lost and nothing repeated\<close>

definition calls_from :: "int \<Rightarrow> (int \<times> call list) list \<Rightarrow> call list" where
  "calls_from x l = concat (map snd (filter (\<lambda>p. fst p = x) l))"

lemma calls_from_simps [simp]:
  "calls_from x [] = []"
  "calls_from x ((y, cs) # l) = (if y = x then cs else []) @ calls_from x l"
  "calls_from x (l @ m) = calls_from x l @ calls_from x m"
  by (simp_all add: calls_from_def)

fun invoked :: "int \<Rightarrow> command list \<Rightarrow> call list" where
  "invoked x [] = []"
| "invoked x (Invoke a cs # cmds) = (if ac_address a = x then cs else []) @ invoked x cmds"
| "invoked x (_ # cmds) = invoked x cmds"

definition pending_from :: "int \<Rightarrow> outbox \<Rightarrow> call multiset" where
  "pending_from x b = (\<Sum>a \<in> {a \<in> dom (ob_pending b). ac_address a = x}. mset (waiting b a))"

definition holds :: "int \<Rightarrow> outbox \<Rightarrow> call multiset" where
  "holds x b = mset (calls_from x (ob_sent b)) + pending_from x b"

lemma pending_of_batch:
  assumes "distinct (map fst batch)"
  shows "(\<Sum>a \<in> {a \<in> dom (map_of batch). ac_address a = x}. mset (case map_of batch a of None \<Rightarrow> [] | Some cs \<Rightarrow> cs)) =
     mset (calls_from x (map key_of batch))"
  using assms
proof (induction batch)
  case (Cons p batch)
  obtain a cs where p: "p = (a, cs)" by (cases p)
  let ?w = "\<lambda>m a. mset (case m a of None \<Rightarrow> [] | Some cs \<Rightarrow> cs)"
  let ?D = "{a' \<in> dom (map_of batch). ac_address a' = x}"
  have new: "a \<notin> dom (map_of batch)" using Cons.prems p by (simp add: dom_map_of_conv_image_fst)
  have same: "sum (?w (map_of (p # batch))) ?D = sum (?w (map_of batch)) ?D"
    using new p by (intro sum.cong) auto
  have dom: "{a' \<in> dom (map_of (p # batch)). ac_address a' = x} = (if ac_address a = x then insert a ?D else ?D)"
    using p by auto
  have split: "sum (?w (map_of (p # batch))) (if ac_address a = x then insert a ?D else ?D) =
      mset (if ac_address a = x then cs else []) + sum (?w (map_of (p # batch))) ?D"
    using new p by (simp add: finite_dom_map_of)
  have IH: "sum (?w (map_of batch)) ?D = mset (calls_from x (map key_of batch))"
    using Cons by simp
  show ?case unfolding dom split same IH using p by simp
qed simp

lemma pending_deferred:
  assumes "finite (dom (ob_pending b))"
  shows "pending_from x (b\<lparr>ob_pending := (ob_pending b)(a \<mapsto> waiting b a @ cs)\<rparr>) =
    pending_from x b + mset (if ac_address a = x then cs else [])"
proof -
  let ?b = "b\<lparr>ob_pending := (ob_pending b)(a \<mapsto> waiting b a @ cs)\<rparr>"
  let ?D = "{a' \<in> dom (ob_pending b). ac_address a' = x}"
  have rest: "sum (\<lambda>a'. mset (waiting ?b a')) (?D - {a}) = sum (\<lambda>a'. mset (waiting b a')) (?D - {a})"
    by (intro sum.cong) (auto simp: waiting_def)
  have dom: "{a' \<in> dom (ob_pending ?b). ac_address a' = x} = (if ac_address a = x then insert a ?D else ?D)"
    by auto
  have old: "sum (\<lambda>a'. mset (waiting b a')) (insert a ?D) = sum (\<lambda>a'. mset (waiting b a')) ?D"
    if "ac_address a = x"
    using assms that by (cases "a \<in> ?D") (auto simp: insert_absorb waiting_def dom_def split: option.split)
  show ?thesis
  proof (cases "ac_address a = x")
    case True
    have "sum (\<lambda>a'. mset (waiting ?b a')) (insert a ?D) =
        mset (waiting b a) + mset cs + sum (\<lambda>a'. mset (waiting b a')) (?D - {a})"
      using assms rest by (simp add: sum.insert_remove) (simp add: waiting_def)
    also have "\<dots> = sum (\<lambda>a'. mset (waiting b a')) (insert a ?D) + mset cs"
      using assms by (simp add: sum.insert_remove)
    finally show ?thesis unfolding pending_from_def dom using old True by simp
  next
    case False
    then have "a \<notin> ?D" by simp
    then show ?thesis unfolding pending_from_def dom using rest False by simp
  qed
qed

lemma outbox_step_holds:
  "outbox_step b c b' \<Longrightarrow> finite (dom (ob_pending b)) \<Longrightarrow>
     finite (dom (ob_pending b')) \<and> holds x b' = holds x b + mset (invoked x [c])"
proof (induction rule: outbox_step.induct)
  case (flushed batch b)
  have "pending_from x b = mset (calls_from x (map key_of batch))"
    using pending_of_batch [OF flushed.hyps(1), of x] by (simp add: pending_from_def waiting_def flushed.hyps(2))
  then show ?case by (simp add: holds_def pending_from_def)
qed (simp_all add: holds_def pending_deferred, simp_all add: pending_from_def waiting_def)

lemma outbox_run_holds:
  "outbox_run b cs b' \<Longrightarrow> finite (dom (ob_pending b)) \<Longrightarrow> holds x b' = holds x b + mset (invoked x cs)"
proof (induction rule: outbox_run.induct)
  case (more b c b' cs b'')
  have "invoked x (c # cs) = invoked x [c] @ invoked x cs" by (cases c) simp_all
  with more outbox_step_holds [OF more.hyps(1) more.prems] show ?case by simp
qed simp

section \<open>The executor\<close>

text \<open>A command as a client of \<^verbatim>\<open>starknet.py\<close> gives it, and a sequence of commands.\<close>

fun perform :: "env \<Rightarrow> command \<Rightarrow> ('m world_scheme, unit) py" where
  "perform E (Invoke a cs) = seq (execute_v1 E a cs) (ret ())"
| "perform E (SetLazy x v) = (if v then register_lazy_account x else remove_lazy_account x)"
| "perform E Flush = execute_calls E"

definition run_commands :: "env \<Rightarrow> command list \<Rightarrow> ('m world_scheme, unit) py" where
  "run_commands E cmds = for_each cmds (perform E)"

definition outbox_of :: "'m world_scheme \<Rightarrow> outbox" where
  "outbox_of s = \<lparr>ob_lazy = lazy_accounts s, ob_pending = map_of (logs s), ob_sent = submitted s\<rparr>"

text \<open>No multisig account, and one entry for each account in the log, as \<^verbatim>\<open>execute_v1\<close> keeps it.\<close>

definition plain_world :: "'m world_scheme \<Rightarrow> bool" where
  "plain_world s \<longleftrightarrow> (\<forall>a. \<not> multisig_accounts s a) \<and> distinct (map fst (logs s))"

definition same_flags :: "'m world_scheme \<Rightarrow> 'm world_scheme \<Rightarrow> bool" where
  "same_flags s t \<longleftrightarrow> lazy_accounts t = lazy_accounts s \<and> multisig_accounts t = multisig_accounts s"

interpretation flags: step_relation same_flags
  by unfold_locales (auto simp: same_flags_def)

lemma quiet_flags: "rel_py quiet m \<Longrightarrow> rel_py same_flags m"
  by (erule rel_py_mono) (simp add: quiet_globals same_flags_def)

lemma execute_v1_wrapped_flags: "rel_py same_flags (execute_v1_wrapped E account calls)"
proof -
  have "rel_py same_flags (ask ev reply)" for ev and reply :: "event list \<Rightarrow> exn + int"
    by (auto simp: rel_py_def ask_cases Let_def same_flags_def split: sum.split)
  then show ?thesis
    unfolding execute_v1_wrapped_def Let_def
    by (intro flags.rules quiet_flags [OF get_nonce_quiet] quiet_flags [OF execute_multisig_quiet]
        quiet_flags [OF wait_for_transaction_quiet])
qed

lemma execute_calls_flags: "rel_py same_flags (execute_calls E)"
proof -
  have "rel_py same_flags (modify (\<lambda>s. s\<lparr>logs := []\<rparr>))"
    by (simp add: rel_py_def modify_def same_flags_def)
  then show ?thesis
    unfolding execute_calls_def by (auto intro!: flags.rules execute_v1_wrapped_flags)
qed

lemma extend_log_lookup:
  "map_of (extend_log a cs l) = (map_of l)(a \<mapsto> (case map_of l a of None \<Rightarrow> [] | Some ds \<Rightarrow> ds) @ cs)"
  by (induction a cs l rule: extend_log.induct) auto

lemma deferred_step:
  assumes "execute_v1 E a cs s = Ret r t" and "lazy_accounts s (ac_address a)" and "plain_world s"
  shows "outbox_step (outbox_of s) (Invoke a cs) (outbox_of t) \<and> plain_world t"
proof -
  have t: "t = s\<lparr>logs := extend_log a cs (logs s)\<rparr>" using assms(1,2) by (simp add: execute_v1_def py_run)
  have "outbox_of t = (outbox_of s)\<lparr>ob_pending := (ob_pending (outbox_of s))(a \<mapsto> waiting (outbox_of s) a @ cs)\<rparr>"
    by (simp add: t outbox_of_def submitted_def waiting_def extend_log_lookup)
  moreover have "outbox_step (outbox_of s) (Invoke a cs)
      ((outbox_of s)\<lparr>ob_pending := (ob_pending (outbox_of s))(a \<mapsto> waiting (outbox_of s) a @ cs)\<rparr>)"
    by (rule deferred) (simp add: outbox_of_def assms(2))
  ultimately show ?thesis using assms(3) by (auto simp: t plain_world_def extend_log_keys)
qed

lemma sent_step:
  assumes "execute_v1 E a cs s = Ret r t" and "\<not> lazy_accounts s (ac_address a)" and "plain_world s"
  shows "outbox_step (outbox_of s) (Invoke a cs) (outbox_of t) \<and> plain_world t"
proof -
  have m: "\<not> multisig_accounts s (ac_address a)" using assms(3) by (simp add: plain_world_def)
  have "execute_v1_wrapped E a cs s = Ret r t" using assms(1,2) by (simp add: execute_v1_def py_run)
  with execute_v1_wrapped_cases [where E = E, OF m, of cs]
  have one: "one_tx (ac_address a, cs) s t" and sub: "submitted t = submitted s @ [(ac_address a, cs)]" by simp_all
  have "outbox_of t = (outbox_of s)\<lparr>ob_sent := ob_sent (outbox_of s) @ [(ac_address a, cs)]\<rparr>"
    using one_tx_globals [OF one] sub by (simp add: outbox_of_def)
  moreover have "outbox_step (outbox_of s) (Invoke a cs) ((outbox_of s)\<lparr>ob_sent := ob_sent (outbox_of s) @ [(ac_address a, cs)]\<rparr>)"
    by (rule sent) (simp add: outbox_of_def assms(2))
  ultimately show ?thesis using one_tx_globals [OF one] assms(3) by (simp add: plain_world_def)
qed

lemma flush_step:
  assumes run: "execute_calls E s = Ret () t" and "plain_world s"
  shows "outbox_step (outbox_of s) Flush (outbox_of t) \<and> plain_world t"
proof -
  have m: "\<forall>(a, cs) \<in> set (logs s). \<not> multisig_accounts s (ac_address a)"
    using assms(2) by (auto simp: plain_world_def)
  have "same_flags s t" by (rule rel_pyD_Ret [OF execute_calls_flags run])
  with execute_calls_Ret [OF run m]
  have "outbox_of t = (outbox_of s)\<lparr>ob_pending := Map.empty, ob_sent := ob_sent (outbox_of s) @ map key_of (logs s)\<rparr>"
    and "plain_world t"
    using assms(2) by (simp_all add: outbox_of_def same_flags_def plain_world_def)
  moreover have "distinct (map fst (logs s))" using assms(2) by (simp add: plain_world_def)
  ultimately show ?thesis using flushed [of "logs s" "outbox_of s"] by (simp add: outbox_of_def)
qed

lemma perform_step:
  assumes "perform E c s = Ret () t" and "plain_world s"
  shows "outbox_step (outbox_of s) c (outbox_of t) \<and> plain_world t"
proof (cases c)
  case (Invoke a cs)
  with assms(1) obtain r where "execute_v1 E a cs s = Ret r t" by (auto elim!: seq_RetE simp: ret_def)
  with deferred_step sent_step assms(2) Invoke show ?thesis by blast
next
  case (SetLazy x v)
  then have "t = s\<lparr>lazy_accounts := (lazy_accounts s)(x := v)\<rparr>"
    using assms(1) by (auto simp: register_lazy_account_def remove_lazy_account_def modify_def split: if_splits)
  then have "outbox_of t = (outbox_of s)\<lparr>ob_lazy := (ob_lazy (outbox_of s))(x := v)\<rparr>"
    and "plain_world t = plain_world s"
    by (simp_all add: outbox_of_def submitted_def plain_world_def)
  then show ?thesis using SetLazy assms(2) by (simp add: flag)
next
  case Flush
  with assms flush_step show ?thesis by simp
qed

lemma run_commands_refine:
  "run_commands E cmds s = Ret () t \<Longrightarrow> plain_world s \<Longrightarrow>
     outbox_run (outbox_of s) cmds (outbox_of t) \<and> plain_world t"
proof (induction cmds arbitrary: s)
  case Nil
  then show ?case by (simp add: run_commands_def ret_def finished)
next
  case (Cons c cmds)
  then obtain u where c: "perform E c s = Ret () u" and rest: "run_commands E cmds u = Ret () t"
    by (auto simp: run_commands_def elim!: seq_RetE)
  from perform_step [OF c Cons.prems(2)] Cons.IH [OF rest] show ?case
    by (auto intro: more)
qed

definition mixed_commands :: "command list" where
  "mixed_commands = [SetLazy 9 True, Invoke (dev_account 9) [dev_call 1], SetLazy 9 False,
     Invoke (dev_account 9) [dev_call 2], Flush]"

lemma mixed_run:
  "\<exists>t. run_commands dev_env mixed_commands dev_world = Ret () t \<and>
     submitted t = [(9, [dev_call 2]), (9, [dev_call 1])]"
  by (simp add: mixed_commands_def run_commands_def execute_calls_def execute_v1_def execute_v1_wrapped_def
      get_nonce_def next_nonce_def ask_nonce_def store_nonce_def wait_for_transaction_def py_run Let_def
      eval_nat_numeral register_lazy_account_def remove_lazy_account_def submitted_def)

lemma dev_plain: "plain_world dev_world"
  by (simp add: plain_world_def)

text \<open>C5. The executor implements the outbox: whatever sequence of invocations, changes of the lazy mode
  and flushes a client runs to its end, the machine that appends, sends and flushes can make the same
  steps to what the executor has then sent, still holds back, and regards as lazy.\<close>

theorem executor_refines_outbox:
  assumes "run_commands E cmds s = Ret () t" and "plain_world s"
  shows "outbox_run (outbox_of s) cmds (outbox_of t)"
  using run_commands_refine [OF assms] by blast

lemma executor_refines_outbox_witness:
  "\<exists>t :: world. submitted t = [(9, [dev_call 2]), (9, [dev_call 1])] \<and>
     outbox_run (outbox_of dev_world) mixed_commands (outbox_of t)"
proof -
  obtain t where run: "run_commands dev_env mixed_commands dev_world = Ret () t"
    and sub: "submitted t = [(9, [dev_call 2]), (9, [dev_call 1])]"
    using mixed_run by blast
  show ?thesis by (intro exI [of _ t] conjI sub executor_refines_outbox [OF run dev_plain])
qed

text \<open>C6. No call is lost or repeated, however lazy and immediate invocations, changes of the mode and
  flushes are mixed: what an address has submitted at the end and what still waits in the log are
  together what it had submitted and deferred before, and the calls it invoked.\<close>

theorem calls_conserved:
  assumes "run_commands E cmds s = Ret () t" and "plain_world s"
  shows "mset (calls_from x (submitted t)) + mset (calls_from x (map key_of (logs t))) =
    mset (calls_from x (submitted s)) + mset (calls_from x (map key_of (logs s))) + mset (invoked x cmds)"
proof -
  have holds: "holds x (outbox_of u) = mset (calls_from x (submitted u)) + mset (calls_from x (map key_of (logs u)))"
    if "plain_world u" for u :: "'a world_scheme"
    using that pending_of_batch [of "logs u" x]
    by (simp add: holds_def pending_from_def waiting_def outbox_of_def plain_world_def)
  have fin: "finite (dom (ob_pending (outbox_of s)))" by (simp add: outbox_of_def finite_dom_map_of)
  have run: "outbox_run (outbox_of s) cmds (outbox_of t)" and t: "plain_world t"
    using run_commands_refine [OF assms] by simp_all
  show ?thesis
    using outbox_run_holds [OF run fin, of x] unfolding holds [OF assms(2)] holds [OF t] by (simp add: ac_simps)
qed

lemma calls_conserved_witness:
  "\<exists>t. run_commands dev_env mixed_commands dev_world = Ret () t \<and>
     mset (calls_from 9 (submitted t)) + mset (calls_from 9 (map key_of (logs t))) = {#dev_call 1, dev_call 2#}"
proof -
  obtain t where run: "run_commands dev_env mixed_commands dev_world = Ret () t"
    using mixed_run by blast
  from calls_conserved [OF run dev_plain, of 9] run show ?thesis
    by (auto simp: mixed_commands_def submitted_def)
qed

end
