(* ===== verification/Reports.thy ===== *)
theory Reports
  imports PyRegex PyNumber Prelude "HOL-Library.List_Lexorder" "HOL-Library.Char_ord" "HOL-Library.Option_ord"
    "HOL-Library.Product_Lexorder"
begin

text \<open>
  The scripts that fetch reports from GitHub: \<^verbatim>\<open>artifacts.py\<close>, \<^verbatim>\<open>check_resources.py\<close> and
  \<^verbatim>\<open>ef_tests/resources.py\<close>.  What the sites answer, the zip archives, JSON and CSV texts, and what pandas
  does to a table are arguments; a table is a list of rows, a missing value \<open>None\<close>.  The plots are left out:
  the scripts are followed up to the table that is plotted or printed.
\<close>

section \<open>Files and requests\<close>

text \<open>A path is the list of its parts; a directory that an archive names has no content.\<close>

type_synonym files = "(string list \<times> string option) list"

record report_world =
  rw_requests :: "string list"
  rw_files :: files

definition path_exists :: "files \<Rightarrow> string list \<Rightarrow> bool" where
  "path_exists fs p \<longleftrightarrow> list_ex (\<lambda>(q, _). take (length p) q = p) fs"

record report_env =
  rp_token :: "string option"
  rp_get :: "string list \<Rightarrow> string \<Rightarrow> exn + string"
  rp_unzip :: "string \<Rightarrow> exn + (string list \<times> string option) list"

text \<open>A GET with the token of the environment, \<^verbatim>\<open>os.environ['GITHUB_TOKEN']\<close>, and the archive unpacked
  below a folder.\<close>

definition http_get :: "report_env \<Rightarrow> string \<Rightarrow> (report_world, string) py" where
  "http_get R url =
     seq (modify (\<lambda>s. s\<lparr>rw_requests := rw_requests s @ [url]\<rparr>))
         (\<lambda>s. lift_sum (rp_get R (rw_requests s) url) s)"

definition download :: "report_env \<Rightarrow> exn + string \<Rightarrow> exn + string list \<Rightarrow> (report_world, unit) py" where
  "download R url folder =
     seq (lift_sum (case rp_token R of None \<Rightarrow> Inl KeyError | Some _ \<Rightarrow> Inr ()))
    (bnd (lift_sum url) (\<lambda>url.
     bnd (http_get R url) (\<lambda>content.
     bnd (lift_sum (rp_unzip R content)) (\<lambda>entries.
     bnd (lift_sum folder) (\<lambda>folder.
     modify (\<lambda>s. s\<lparr>rw_files := map (\<lambda>(p, c). (folder @ p, c)) entries @ rw_files s\<rparr>))))))"

text \<open>\<^verbatim>\<open>open(path).read()\<close>\<close>

definition file_text :: "files \<Rightarrow> string list \<Rightarrow> exn + string" where
  "file_text fs p =
     (case map_of fs p of
        Some (Some text) \<Rightarrow> Inr text
      | _ \<Rightarrow> if path_exists fs p then Inl (OtherException ''IsADirectoryError'') else Inl FileNotFoundError)"

definition read_file :: "string list \<Rightarrow> (report_world, string) py" where
  "read_file p = bnd (gets rw_files) (\<lambda>fs. lift_sum (file_text fs p))"

section \<open>The latest artifacts\<close>

text \<open>An artifact in the answer: the dictionary of its workflow run, and its own, with the texts they hold.\<close>

record artifact_row =
  af_branch :: "string option"
  af_updated :: "string option"
  af_url :: "string option"

definition artifact_row_of :: "(string \<rightharpoonup> string) option \<times> (string \<rightharpoonup> string) \<Rightarrow> exn + artifact_row" where
  "artifact_row_of = (\<lambda>(workflow_run, artifact).
     case workflow_run of
       None \<Rightarrow> Inl TypeError
     | Some run \<Rightarrow>
         let d = run ++ artifact
         in Inr \<lparr>af_branch = d ''head_branch'', af_updated = d ''updated_at'', af_url = d ''archive_download_url''\<rparr>)"

text \<open>\<^verbatim>\<open>sort_values(["head_branch", "updated_at"], ascending=False)\<close> and \<^verbatim>\<open>drop_duplicates(["head_branch"])\<close> of
  pandas, and the decoded answer of GitHub.\<close>

record artifact_tools =
  at_answer :: "string \<Rightarrow> exn + ((string \<rightharpoonup> string) option \<times> (string \<rightharpoonup> string)) list"
  at_sort :: "artifact_row list \<Rightarrow> artifact_row list"
  at_drop :: "artifact_row list \<Rightarrow> artifact_row list"

definition artifacts_url :: "string \<Rightarrow> string" where
  "artifacts_url name =
     ''https://api.github.com/repos/kkrt-labs/kakarot/actions/artifacts?name='' @ name @ ''&per_page=50''"

text \<open>\<^verbatim>\<open>Path(name) / branch\<close>: a branch with slashes is a path.\<close>

definition parts_of :: "string \<Rightarrow> string list" where
  "parts_of text = filter (\<lambda>p. p \<noteq> [] \<and> p \<noteq> ''.'') (split_on (CHR ''/'') text)"

definition fetch_artifact :: "report_env \<Rightarrow> string list \<Rightarrow> artifact_row \<Rightarrow> (report_world, unit) py" where
  "fetch_artifact R name row =
     download R
       (case af_url row of None \<Rightarrow> Inl (OtherException ''MissingSchema'') | Some url \<Rightarrow> Inr url)
       (case af_branch row of None \<Rightarrow> Inl TypeError | Some branch \<Rightarrow> Inr (name @ parts_of branch))"

definition get_artifacts :: "report_env \<Rightarrow> artifact_tools \<Rightarrow> string \<Rightarrow> (report_world, artifact_row list) py" where
  "get_artifacts R T name =
     bnd (http_get R (artifacts_url name)) (\<lambda>text.
     bnd (lift_sum (at_answer T text)) (\<lambda>answer.
     bnd (lift_sum (map_sum_list artifact_row_of answer)) (\<lambda>rows.
     let artifacts = at_drop T (at_sort T rows)
     in seq (for_each artifacts (fetch_artifact R (parts_of name))) (ret artifacts))))"

section \<open>Checking the resources\<close>

text \<open>\<^verbatim>\<open>glob("resources*.csv")\<close> in a folder, in the order in which the system lists it.\<close>

definition is_resources_csv :: "string \<Rightarrow> bool" where
  "is_resources_csv n \<longleftrightarrow> take 9 n = ''resources'' \<and> drop (length n - 4) n = ''.csv'' \<and> 13 \<le> length n"

definition glob_resources :: "string list \<Rightarrow> files \<Rightarrow> string list list" where
  "glob_resources folder fs =
     map (\<lambda>n. folder @ [n]) (filter is_resources_csv (remdups (map (\<lambda>(p, _). p ! length folder)
       (filter (\<lambda>(p, _). take (length folder) p = folder \<and> length folder < length p) fs))))"

text \<open>A row of a CSV: the test and its measures; in the whole table, with the branch it belongs to.\<close>

type_synonym 'v measured = "string \<times> 'v"

definition read_csv :: "(string \<Rightarrow> exn + 'v measured list) \<Rightarrow> string list \<Rightarrow> (report_world, 'v measured list) py" where
  "read_csv csv p = bnd (read_file p) (\<lambda>text. lift_sum (csv text))"

definition branch_resources ::
    "(string \<Rightarrow> exn + 'v measured list) \<Rightarrow> string list \<Rightarrow> artifact_row \<Rightarrow>
       (report_world, (string \<times> 'v measured) list) py" where
  "branch_resources csv name row =
     bnd (lift_sum (case af_branch row of None \<Rightarrow> Inl TypeError | Some b \<Rightarrow> Inr b)) (\<lambda>branch.
     bnd (gets rw_files) (\<lambda>fs.
     bnd (lift_sum (case glob_resources (name @ parts_of branch) fs of
         [] \<Rightarrow> Inl (OtherException ''StopIteration'') | p # _ \<Rightarrow> Inr p)) (\<lambda>file_path.
     bnd (read_csv csv file_path) (\<lambda>rows. ret (map (Pair branch) rows)))))"

definition local_resources ::
    "(string \<Rightarrow> exn + 'v measured list) \<Rightarrow> string list \<Rightarrow> (report_world, (string \<times> 'v measured) list list) py" where
  "local_resources csv name =
     bnd (gets rw_files) (\<lambda>fs.
     case glob_resources name fs of
       [] \<Rightarrow> ret []
     | p # _ \<Rightarrow> bnd (read_csv csv p) (\<lambda>rows. ret [map (Pair ''local'') rows]))"

text \<open>The summary: \<^verbatim>\<open>concat\<close> of no table raises; \<^verbatim>\<open>drop_duplicates(..., keep=False)\<close> drops every row of a
  branch and test that occurs twice; the averages by branch are those of pandas.\<close>

record 'v summary_tools =
  st_csv :: "string \<Rightarrow> exn + 'v measured list"
  st_drop :: "(string \<times> 'v measured) list \<Rightarrow> (string \<times> 'v measured) list"
  st_mean :: "(string \<times> 'v measured) list \<Rightarrow> (string \<times> 'v) list"

definition check_resources ::
    "report_env \<Rightarrow> artifact_tools \<Rightarrow> 'v summary_tools \<Rightarrow> (report_world, (string \<times> 'v) list) py" where
  "check_resources R T S =
     bnd (get_artifacts R T ''resources'') (\<lambda>artifacts.
     bnd (comprehend (branch_resources (st_csv S) [''resources'']) artifacts) (\<lambda>resources.
     bnd (local_resources (st_csv S) [''resources'']) (\<lambda>local.
     let resources = resources @ local
     in if resources = [] then raise (ValueError ''No objects to concatenate'')
        else ret (st_mean S (st_drop S (concat resources))))))"

section \<open>The resources of the Ethereum tests\<close>

text \<open>A run of the workflow, with the number of its pull request once it is found in the title.\<close>

record workflow_log =
  wl_logs_url :: string
  wl_title :: string
  wl_updated :: string

text \<open>\<^verbatim>\<open>r".*#(\d+)"\<close>, the escape sequences of a terminal \<^verbatim>\<open>r"\x1b\[[0-9;]*[a-zA-Z]"\<close>, and the line of a
  result \<^verbatim>\<open>r"ef_testing::models::result: (.*) passed: .?ResourcesMapping\((.*)\)"\<close>.\<close>

definition pr_pattern :: rx where
  "pr_pattern = cats [Star (Class not_newline), lit ''#'', Group 1 (plus (Class is_digit))]"

definition ansi_pattern :: rx where
  "ansi_pattern = cats [Class (\<lambda>c. c = CHR 0x1B), lit ''['', Star (Class (\<lambda>c. is_digit c \<or> c = CHR '';'')),
     Class (\<lambda>c. is_lower c \<or> is_upper c)]"

definition result_pattern :: rx where
  "result_pattern = cats [lit ''ef_testing::models::result: '', Group 1 (Star (Class not_newline)),
     lit '' passed: '', opt (Class not_newline), lit ''ResourcesMapping('', Group 2 (Star (Class not_newline)),
     lit '')'']"

definition pr_of :: "string \<Rightarrow> string option" where
  "pr_of title = map_option (\<lambda>g. g 1) (re_search pr_pattern title)"

text \<open>\<^verbatim>\<open>Path(url).parent.name\<close>\<close>

definition parent_name :: "string \<Rightarrow> string list" where
  "parent_name url = (let ps = parts_of url in if length ps < 2 then [] else [last (butlast ps)])"

text \<open>The answer of GitHub decoded, the runs with a pull request in the order of their dates, and JSON.\<close>

record resource_tools =
  rt_answer :: "string \<Rightarrow> exn + workflow_log list"
  rt_sort :: "workflow_log list \<Rightarrow> exn + workflow_log list"
  rt_json :: "string \<Rightarrow> exn + (string \<rightharpoonup> int)"

definition runs_url :: string where
  "runs_url = ''https://api.github.com/repos/kkrt-labs/kakarot/actions/workflows/ci.yml/runs?branch=main''"

definition run_folder :: "string list \<Rightarrow> workflow_log \<Rightarrow> string list" where
  "run_folder folder run = folder @ parent_name (wl_logs_url run)"

definition fetch_run :: "report_env \<Rightarrow> string list \<Rightarrow> workflow_log \<Rightarrow> (report_world, unit) py" where
  "fetch_run R folder run =
     bnd (gets rw_files) (\<lambda>fs.
     py_when (\<not> path_exists fs (run_folder folder run))
       (download R (Inr (wl_logs_url run)) (Inr (run_folder folder run))))"

definition result_lines :: "string \<Rightarrow> (string \<times> string) list" where
  "result_lines text = map (\<lambda>g. (g 1, g 2)) (findall result_pattern (re_sub ansi_pattern (\<lambda>_ _. []) text))"

text \<open>A row of the table: title of the run, test, and number of steps.\<close>

type_synonym steps_row = "string \<times> string \<times> int option"

definition run_rows :: "resource_tools \<Rightarrow> string \<Rightarrow> string \<Rightarrow> exn + steps_row list" where
  "run_rows T title text =
     map_sum_list (\<lambda>(test, resources). bind_sum (rt_json T resources) (\<lambda>m. Inr (title, test, m ''n_steps'')))
       (result_lines text)"

definition run_resources ::
    "report_env \<Rightarrow> resource_tools \<Rightarrow> string list \<Rightarrow> workflow_log \<Rightarrow> (report_world, steps_row list option) py" where
  "run_resources R T folder run =
     seq (fetch_run R folder run)
    (bnd (gets rw_files) (\<lambda>fs.
     let log = run_folder folder run @ [''ef-tests'', ''7_run tests.txt'']
     in if \<not> path_exists fs log then ret None
        else bnd (read_file log) (\<lambda>text.
             bnd (lift_sum (run_rows T (wl_title run) text)) (\<lambda>rows. ret (Some rows)))))"

definition get_resources ::
    "report_env \<Rightarrow> resource_tools \<Rightarrow> string list \<Rightarrow> (report_world, steps_row list) py" where
  "get_resources R T folder =
     bnd (http_get R runs_url) (\<lambda>text.
     bnd (lift_sum (rt_answer T text)) (\<lambda>answer.
     bnd (lift_sum (rt_sort T (filter (\<lambda>r. pr_of (wl_title r) \<noteq> None) answer))) (\<lambda>runs.
     bnd (comprehend (run_resources R T folder) runs) (\<lambda>tables.
     let found = map the (filter (\<lambda>t. t \<noteq> None) tables); rows = concat found
     in if found = [] then raise (ValueError ''No objects to concatenate'')
        else if list_all (\<lambda>(_, _, n). n = None) rows then raise AttributeError
        else ret (filter (\<lambda>(_, _, n). case n of None \<Rightarrow> False | Some k \<Rightarrow> k < 5 * 10 ^ 5) rows)))))"

section \<open>The results of the Ethereum tests\<close>

text \<open>\<^verbatim>\<open>r"test result: (?P<result>\w+). (?P<passed>\d+) passed; (?P<failed>\d+) failed; (?P<ignored>\d+) ignored"\<close>\<close>

definition summary_pattern :: rx where
  "summary_pattern = cats [lit ''test result: '', Group 1 (plus (Class is_word)), Class not_newline, lit '' '',
     Group 2 (plus (Class is_digit)), lit '' passed; '', Group 3 (plus (Class is_digit)), lit '' failed; '',
     Group 4 (plus (Class is_digit)), lit '' ignored'']"

definition ef_runs_url :: string where
  "ef_runs_url = ''https://api.github.com/repos/kkrt-labs/kakarot/actions/workflows/ci.yml/runs?branch=cw/run-all&per_page=100''"

text \<open>The runs of the answer, newest first, as the text of their date and the address of their logs.\<close>

record ef_summary =
  es_created :: string
  es_passed :: int
  es_failed :: int
  es_ignored :: int

definition ef_log ::
    "report_env \<Rightarrow> string list \<Rightarrow> string \<times> string \<Rightarrow> (report_world, ef_summary list) py" where
  "ef_log R name = (\<lambda>(created, url).
     let folder = name @ [map (\<lambda>c. if c = CHR '' '' then CHR ''_'' else c) created]
     in seq (download R (Inr url) (Inr folder))
       (try_except
          (bnd (read_file (folder @ [''ef-tests'', ''11_run tests.txt''])) (\<lambda>data.
           ret (case re_search summary_pattern data of
                  None \<Rightarrow> []
                | Some g \<Rightarrow> [\<lparr>es_created = created, es_passed = dec_value (g 2), es_failed = dec_value (g 3),
                    es_ignored = dec_value (g 4)\<rparr>])))
          (\<lambda>e. if e = FileNotFoundError then ret [] else raise e)))"

definition pull_and_plot_ef_tests ::
    "report_env \<Rightarrow> (string \<Rightarrow> exn + (string \<times> string) list) \<Rightarrow> string list \<Rightarrow> (report_world, ef_summary list) py" where
  "pull_and_plot_ef_tests R newest_first name =
     bnd (http_get R ef_runs_url) (\<lambda>text.
     bnd (lift_sum (newest_first text)) (\<lambda>logs.
     bnd (comprehend (ef_log R name) logs) (\<lambda>results.
     if concat results = [] then raise KeyError else ret (concat results))))"

section \<open>The artifacts fetched are the latest\<close>

text \<open>Sorting and dropping duplicates as pandas documents them: the rows in descending order of branch and
  date, missing values last, and of each branch the first row.\<close>

definition newer :: "artifact_row \<Rightarrow> artifact_row \<Rightarrow> bool" where
  "newer x y \<longleftrightarrow> af_branch y < af_branch x \<or> af_branch y = af_branch x \<and> af_updated y \<le> af_updated x"

fun first_of_each :: "artifact_row list \<Rightarrow> artifact_row list" where
  "first_of_each [] = []"
| "first_of_each (r # rs) = r # filter (\<lambda>x. af_branch x \<noteq> af_branch r) (first_of_each rs)"

definition pandas_laws :: "artifact_tools \<Rightarrow> bool" where
  "pandas_laws T \<longleftrightarrow> (\<forall>rows. set (at_sort T rows) = set rows \<and> sorted_wrt newer (at_sort T rows)) \<and>
     (\<forall>rows. at_drop T rows = first_of_each rows)"

lemma first_of_each_set: "set (first_of_each rs) \<subseteq> set rs"
  by (induction rs) auto

lemma first_of_each_branches: "af_branch ` set (first_of_each rs) = af_branch ` set rs"
proof (induction rs)
  case (Cons r rs)
  have "af_branch ` {x \<in> set (first_of_each rs). af_branch x \<noteq> af_branch r} =
      af_branch ` set (first_of_each rs) - {af_branch r}" by auto
  with Cons show ?case by auto
qed simp

lemma first_of_each_distinct: "distinct (map af_branch (first_of_each rs))"
  by (induction rs) (auto simp: distinct_map intro: inj_on_subset)

lemma first_of_each_newest:
  "sorted_wrt newer rs \<Longrightarrow> r \<in> set (first_of_each rs) \<Longrightarrow> a \<in> set rs \<Longrightarrow> af_branch a = af_branch r \<Longrightarrow>
     af_updated a \<le> af_updated r"
proof (induction rs)
  case (Cons x rs)
  show ?case
  proof (cases "r = x")
    case True
    with Cons.prems show ?thesis by (auto simp: newer_def)
  next
    case False
    with Cons.prems have "r \<in> set (first_of_each rs)" and "af_branch r \<noteq> af_branch x" by auto
    with Cons show ?thesis by auto
  qed
qed simp

definition fetched :: "report_env \<Rightarrow> string list \<Rightarrow> artifact_row \<Rightarrow> files \<Rightarrow> bool" where
  "fetched R name row fs \<longleftrightarrow> (\<exists>branch url content entries. af_branch row = Some branch \<and> af_url row = Some url \<and>
     rp_unzip R content = Inr entries \<and> (\<forall>(p, c) \<in> set entries. path_exists fs (name @ parts_of branch @ p)))"

lemma path_exists_append: "path_exists (fs @ gs) p \<longleftrightarrow> path_exists fs p \<or> path_exists gs p"
  by (simp add: path_exists_def)

lemma download_Ret:
  assumes "download R url folder s = Ret u t"
  obtains a d content entries where "url = Inr a" and "folder = Inr d" and "rp_unzip R content = Inr entries"
    and "rp_get R (rw_requests s @ [a]) a = Inr content"
    and "t = s\<lparr>rw_requests := rw_requests s @ [a], rw_files := map (\<lambda>(p, c). (d @ p, c)) entries @ rw_files s\<rparr>"
proof -
  from assms show thesis
    unfolding download_def http_get_def
    by (auto simp: py_run split: option.splits sum.splits outcome.splits intro: that)
qed

lemma fetch_all:
  "for_each rows (fetch_artifact R name) s = Ret () t \<Longrightarrow>
     rw_requests t = rw_requests s @ map (\<lambda>r. the (af_url r)) rows \<and>
     (\<exists>fs. rw_files t = fs @ rw_files s) \<and> (\<forall>r \<in> set rows. fetched R name r (rw_files t))"
proof (induction rows arbitrary: s)
  case Nil
  then show ?case by (simp add: ret_def)
next
  case (Cons r rows)
  then obtain u where one: "fetch_artifact R name r s = Ret () u"
    and rest: "for_each rows (fetch_artifact R name) u = Ret () t" by (auto elim!: seq_RetE)
  obtain a d content entries where url: "(case af_url r of None \<Rightarrow> Inl (OtherException ''MissingSchema'') | Some url \<Rightarrow> Inr url) = Inr a"
    and d: "(case af_branch r of None \<Rightarrow> Inl TypeError | Some branch \<Rightarrow> Inr (name @ parts_of branch)) = Inr d"
    and unzip: "rp_unzip R content = Inr entries"
    and u: "u = s\<lparr>rw_requests := rw_requests s @ [a], rw_files := map (\<lambda>(p, c). (d @ p, c)) entries @ rw_files s\<rparr>"
    using one unfolding fetch_artifact_def by (rule download_Ret)
  from Cons.IH [OF rest] u obtain fs where t: "rw_files t = fs @ rw_files u"
    and req: "rw_requests t = rw_requests s @ a # map (\<lambda>r. the (af_url r)) rows"
    and others: "\<forall>r \<in> set rows. fetched R name r (rw_files t)" by auto
  obtain branch where b: "af_branch r = Some branch" and db: "d = name @ parts_of branch"
    using d by (cases "af_branch r") auto
  have a: "af_url r = Some a" using url by (cases "af_url r") auto
  have "path_exists (rw_files t) (d @ p)" if "(p, c) \<in> set entries" for p c
    using that unfolding t u path_exists_append by (force simp: path_exists_def list_ex_iff)
  then have "fetched R name r (rw_files t)"
    unfolding fetched_def using a b unzip db by (intro exI) auto
  with others req a t u show ?case by auto
qed


text \<open>Two artifacts of \<^verbatim>\<open>main\<close> and one of another branch, on a site where every archive holds one file.\<close>

definition demo_env :: report_env where
  "demo_env = \<lparr>rp_token = Some ''t'', rp_get = (\<lambda>h url. Inr url),
     rp_unzip = (\<lambda>content. Inr [([''ef-tests'', ''7_run tests.txt''], Some content)])\<rparr>"

definition demo_tools :: artifact_tools where
  "demo_tools = \<lparr>at_answer = (\<lambda>_. Inr (map (\<lambda>(b, d, u). (Some [''head_branch'' \<mapsto> b],
        [''updated_at'' \<mapsto> d, ''archive_download_url'' \<mapsto> u]))
        [(''main'', ''2024-01'', ''u1''), (''main'', ''2024-02'', ''u2''), (''fix'', ''2024-03'', ''u3'')])),
     at_sort = (\<lambda>rows. rev (sort_key (\<lambda>r. (af_branch r, af_updated r)) rows)), at_drop = first_of_each\<rparr>"

definition no_reports :: report_world where
  "no_reports = \<lparr>rw_requests = [], rw_files = []\<rparr>"

lemma demo_laws: "pandas_laws demo_tools"
proof -
  have "sorted_wrt newer (rev xs)" if "sorted (map (\<lambda>r. (af_branch r, af_updated r)) xs)" for xs
    using that by (induction xs) (auto simp: sorted_wrt_append newer_def less_eq_prod_def)
  then show ?thesis by (simp add: pandas_laws_def demo_tools_def)
qed

lemma demo_artifacts:
  "case get_artifacts demo_env demo_tools ''resources'' no_reports of
     Ret rows t \<Rightarrow> map af_url rows = [Some ''u2'', Some ''u3''] | _ \<Rightarrow> False"
  by code_simp


section \<open>Logs are downloaded once\<close>

text \<open>The table of a run whose logs are there, from the files alone.\<close>

definition run_table :: "resource_tools \<Rightarrow> string list \<Rightarrow> files \<Rightarrow> workflow_log \<Rightarrow> exn + steps_row list option" where
  "run_table T folder fs run =
     (let log = run_folder folder run @ [''ef-tests'', ''7_run tests.txt'']
      in if \<not> path_exists fs log then Inr None
         else bind_sum (file_text fs log) (\<lambda>text. bind_sum (run_rows T (wl_title run) text) (\<lambda>rows. Inr (Some rows))))"

lemma run_resources_present:
  assumes "path_exists (rw_files s) (run_folder folder run)"
  shows "run_resources R T folder run s = lift_sum (run_table T folder (rw_files s) run) s"
  using assms
  by (auto simp: run_resources_def fetch_run_def run_table_def read_file_def py_run bind_sum_def Let_def
      split: sum.splits)

lemma take_prefix: "take (length (p @ q)) x = p @ q \<Longrightarrow> take (length p) x = p"
  by (drule arg_cong [where f = "take (length p)"]) simp

lemma path_exists_prefix: "path_exists fs (p @ q) \<Longrightarrow> path_exists fs p"
  unfolding path_exists_def list_ex_iff using take_prefix by blast

definition sibling_files :: "string list \<Rightarrow> files \<Rightarrow> bool" where
  "sibling_files p fs \<longleftrightarrow> (\<forall>(q, c) \<in> set fs. take (length p) q \<noteq> p)"

lemma path_exists_siblings: "sibling_files p fs \<Longrightarrow> path_exists (fs @ gs) (p @ q) \<longleftrightarrow> path_exists gs (p @ q)"
  using path_exists_prefix [of fs p q] by (auto simp: path_exists_append) (auto simp: path_exists_def list_ex_iff sibling_files_def)

lemma file_text_siblings: "sibling_files p fs \<Longrightarrow> file_text (fs @ gs) (p @ q) = file_text gs (p @ q)"
proof -
  assume s: "sibling_files p fs"
  then have "map_of fs (p @ q) = None"
    by (force simp: map_of_eq_None_iff sibling_files_def)
  with path_exists_siblings [OF s] show ?thesis
    by (simp add: file_text_def map_add_def split: option.split)
qed

lemma run_table_siblings:
  "sibling_files (run_folder folder run) fs \<Longrightarrow> run_table T folder (fs @ gs) run = run_table T folder gs run"
  unfolding run_table_def Let_def by (simp only: path_exists_siblings file_text_siblings)

text \<open>The address of the logs of a run ends with the number of the run and a word, and an archive
  holds something.\<close>

definition usual_runs :: "report_env \<Rightarrow> workflow_log list \<Rightarrow> bool" where
  "usual_runs R runs \<longleftrightarrow> list_all (\<lambda>r. 2 \<le> length (parts_of (wl_logs_url r))) runs \<and>
     (\<forall>content. rp_unzip R content \<noteq> Inr [])"

lemma run_resources_Ret:
  assumes "run_resources R T folder run s = Ret tb t" and "usual_runs R [run]"
  shows "path_exists (rw_files t) (run_folder folder run) \<and> run_table T folder (rw_files t) run = Inr tb \<and>
    (\<exists>fs. rw_files t = fs @ rw_files s \<and> (fs \<noteq> [] \<longrightarrow> \<not> path_exists (rw_files s) (run_folder folder run)) \<and>
      (\<forall>(q, c) \<in> set fs. take (length (run_folder folder run)) q = run_folder folder run))"
proof (cases "path_exists (rw_files s) (run_folder folder run)")
  case True
  with assms(1) have "run_table T folder (rw_files s) run = Inr tb \<and> t = s"
    by (simp add: run_resources_present lift_sum_def split: sum.splits)
  with True show ?thesis by (intro conjI exI [of _ "[]"]) auto
next
  case False
  let ?F = "run_folder folder run"
  obtain u where dl: "download R (Inr (wl_logs_url run)) (Inr ?F) s = Ret () u"
    and rest: "run_resources R T folder run s = Ret tb t \<Longrightarrow> path_exists (rw_files u) ?F \<Longrightarrow> run_resources R T folder run u = Ret tb t"
    using assms(1) False
    by (auto simp: run_resources_def fetch_run_def gets_def bnd_def seq_def py_when_def ret_def split: outcome.splits)
  obtain a d content entries where d: "Inr ?F = (Inr d :: exn + string list)" and e: "rp_unzip R content = Inr entries"
    and u: "u = s\<lparr>rw_requests := rw_requests s @ [a], rw_files := map (\<lambda>(p, c). (d @ p, c)) entries @ rw_files s\<rparr>"
    using dl by (rule download_Ret)
  have "entries \<noteq> []" using assms(2) e by (auto simp: usual_runs_def)
  then have there: "path_exists (rw_files u) ?F"
    using u d by (cases entries) (auto simp: path_exists_def)
  from rest [OF assms(1) there] there have "run_table T folder (rw_files u) run = Inr tb \<and> t = u"
    by (simp add: run_resources_present lift_sum_def split: sum.splits)
  with there False u d show ?thesis
    by (intro conjI exI [of _ "map (\<lambda>(p, c). (?F @ p, c)) entries"]) auto
qed

lemma usual_folder: "usual_runs R [r] \<Longrightarrow> length (run_folder folder r) = Suc (length folder)"
  by (simp add: usual_runs_def run_folder_def parent_name_def Let_def)

lemma run_resources_others:
  assumes "run_resources R T folder r s = Ret tb t" and "usual_runs R [r]" and "usual_runs R [q]"
    and "path_exists (rw_files s) (run_folder folder q)"
  shows "path_exists (rw_files t) (run_folder folder q) \<and>
    run_table T folder (rw_files t) q = run_table T folder (rw_files s) q"
proof -
  obtain fs where t: "rw_files t = fs @ rw_files s"
    and new: "fs \<noteq> [] \<Longrightarrow> \<not> path_exists (rw_files s) (run_folder folder r)"
    and below: "\<forall>(p, c) \<in> set fs. take (length (run_folder folder r)) p = run_folder folder r"
    using run_resources_Ret [OF assms(1,2)] by blast
  have "run_table T folder (rw_files t) q = run_table T folder (rw_files s) q"
  proof (cases "run_folder folder q = run_folder folder r")
    case True
    with new assms(4) have "fs = []" by auto
    with t show ?thesis by simp
  next
    case False
    with below have "sibling_files (run_folder folder q) fs"
      using usual_folder [OF assms(2)] usual_folder [OF assms(3)] by (fastforce simp: sibling_files_def)
    then show ?thesis unfolding t by (rule run_table_siblings)
  qed
  with assms(4) t show ?thesis by (simp add: path_exists_append)
qed

lemma usual_Cons: "usual_runs R (r # rs) \<longleftrightarrow> usual_runs R [r] \<and> usual_runs R rs"
  by (auto simp: usual_runs_def)

lemma all_runs_there:
  "comprehend (run_resources R T folder) rs s = Ret tbs t \<Longrightarrow> usual_runs R rs \<Longrightarrow>
     (\<forall>q. usual_runs R [q] \<longrightarrow> path_exists (rw_files s) (run_folder folder q) \<longrightarrow>
        path_exists (rw_files t) (run_folder folder q) \<and>
        run_table T folder (rw_files t) q = run_table T folder (rw_files s) q) \<and>
     list_all2 (\<lambda>r tb. path_exists (rw_files t) (run_folder folder r) \<and> run_table T folder (rw_files t) r = Inr tb) rs tbs"
proof (induction rs arbitrary: s tbs)
  case Nil
  then show ?case by (simp add: ret_def)
next
  case (Cons r rs)
  from Cons.prems(1) obtain tb u tbs' where one: "run_resources R T folder r s = Ret tb u"
    and rest: "comprehend (run_resources R T folder) rs u = Ret tbs' t" and tbs: "tbs = tb # tbs'"
    by (auto elim!: bnd_RetE simp: ret_def)
  have usual: "usual_runs R [r]" "usual_runs R rs" using Cons.prems(2) usual_Cons by blast+
  note IH = Cons.IH [OF rest usual(2)]
  note r = run_resources_Ret [OF one usual(1)]
  show ?case
    unfolding tbs using IH r usual(1) run_resources_others [OF one usual(1)] by simp
qed

lemma all_runs_again:
  "list_all2 (\<lambda>r tb. path_exists (rw_files s) (run_folder folder r) \<and> run_table T folder (rw_files s) r = Inr tb) rs tbs \<Longrightarrow>
     comprehend (run_resources R T folder) rs s = Ret tbs s"
  by (induction rule: list_all2_induct) (simp_all add: ret_def bnd_def run_resources_present lift_sum_def)


definition demo_resources :: resource_tools where
  "demo_resources = \<lparr>rt_answer = (\<lambda>_. Inr [\<lparr>wl_logs_url = ''https://github.com/runs/123/logs'', wl_title = ''fix (#7)'', wl_updated = ''2024''\<rparr>]),
     rt_sort = Inr, rt_json = (\<lambda>_. Inr [''n_steps'' \<mapsto> 42])\<rparr>"

definition demo_logs :: report_env where
  "demo_logs = demo_env\<lparr>rp_unzip := (\<lambda>_. Inr [([''ef-tests'', ''7_run tests.txt''],
     Some ''ef_testing::models::result: add passed: ResourcesMapping({})'')])\<rparr>"

lemma demo_resources_run:
  "case get_resources demo_logs demo_resources [''resources''] no_reports of
     Ret rows t \<Rightarrow> rows = [(''fix (#7)'', ''add'', Some 42)] | _ \<Rightarrow> False"
  by code_simp


end
