(* ===== verification/Benchmark.thy ===== *)
theory Benchmark
  imports Deployment
begin

text \<open>
  \<^verbatim>\<open>benchmark_cairo_calls.py\<close>: two functions of a Solidity contract that call a Cairo contract are called with
  growing inputs, and what they cost is put in a table.  The inputs come from numpy and the resources of
  a receipt from starknet_py; the plot is left out.
\<close>

definition benchmark_functions :: "string list" where
  "benchmark_functions = [''callCairoWithFeltInputs'', ''callCairoWithBytesOutput'']"

definition benchmark_call ::
    "env \<Rightarrow> kk_env \<Rightarrow> kk_contract \<Rightarrow> string \<Rightarrow> int \<Rightarrow> ('m kk_world_scheme, call_result) py" where
  "benchmark_call E K caller f n = call_solidity E K caller f [Felt n]"

text \<open>The gas used, and the resources that the receipt reports.\<close>

definition benchmark_receipt :: "(any_receipt \<Rightarrow> exn + 'v) \<Rightarrow> call_result \<Rightarrow> exn + int \<times> 'v" where
  "benchmark_receipt resources_of result =
     (case result of
        Executed (receipt, response, success, gas_used) \<Rightarrow>
          bind_sum (resources_of receipt) (\<lambda>v. Inr (gas_used, v))
      | _ \<Rightarrow> Inl TypeError)"

definition benchmark_cairo_calls ::
    "env \<Rightarrow> kk_env \<Rightarrow> ('m kk_world_scheme) deploy_env \<Rightarrow> (any_receipt \<Rightarrow> exn + 'v) \<Rightarrow> int list \<Rightarrow>
       ('m kk_world_scheme, (string \<times> int \<times> int \<times> 'v) list) py" where
  "benchmark_cairo_calls E K D resources_of n_felts =
     bnd (deploy_fresh E D ''BenchmarkCairoCalls'' []) (\<lambda>cairo_contract.
     bnd (deploy_evm E K D ''CairoPrecompiles'' ''BenchmarkCairoCalls'' [Felt cairo_contract]) (\<lambda>caller.
     seq (invoke_kakarot E ''set_authorized_cairo_precompile_caller'' [Felt (dp_address caller), Flag True] None)
    (bnd (comprehend (benchmark_call E K (dp_contract caller) ''callCairoWithFeltInputs'') n_felts) (\<lambda>inputs.
     bnd (comprehend (benchmark_call E K (dp_contract caller) ''callCairoWithBytesOutput'') n_felts) (\<lambda>outputs.
     bnd (lift_sum (map_sum_list (benchmark_receipt resources_of) (inputs @ outputs))) (\<lambda>receipts.
     ret (zip (replicate (length n_felts) ''callCairoWithFeltInputs'' @
               replicate (length n_felts) ''callCairoWithBytesOutput'')
              (zip (n_felts @ n_felts) receipts))))))))"

lemma comprehend_length: "comprehend f xs s = Ret ys t \<Longrightarrow> length ys = length xs"
  by (induction xs arbitrary: ys s) (auto simp: ret_def elim!: bnd_RetE)

lemma zip_first_two:
  "length xs = length ys \<Longrightarrow> length ys = length zs \<Longrightarrow> map (\<lambda>(x, y, z). (x, y)) (zip xs (zip ys zs)) = zip xs ys"
  by (induction xs ys zs rule: list_induct3) simp_all

text \<open>No row is lost when the columns are put together: the table has every function with every input,
  in order.\<close>

lemma benchmark_rows:
  assumes "benchmark_cairo_calls E K D resources_of n_felts s = Ret rows t"
  shows "map (\<lambda>(f, n, r). (f, n)) rows = concat (map (\<lambda>f. map (Pair f) n_felts) benchmark_functions)"
proof -
  obtain receipts :: "(int \<times> 'a) list" where l: "length receipts = length n_felts + length n_felts"
    and rows: "rows = zip (replicate (length n_felts) ''callCairoWithFeltInputs'' @
      replicate (length n_felts) ''callCairoWithBytesOutput'') (zip (n_felts @ n_felts) receipts)"
    using assms unfolding benchmark_cairo_calls_def
    by (auto elim!: bnd_RetE seq_RetE simp: lift_sum_def ret_def split: sum.splits
        dest!: comprehend_length map_sum_list_length)
  have "map (\<lambda>(f, n, r). (f, n)) rows = zip (replicate (length n_felts) ''callCairoWithFeltInputs'' @
      replicate (length n_felts) ''callCairoWithBytesOutput'') (n_felts @ n_felts)"
    using l unfolding rows by (intro zip_first_two) simp_all
  then show ?thesis by (simp add: benchmark_functions_def zip_replicate1)
qed

end
