(* ===== verification/LambdaStack.thy ===== *)
theory LambdaStack
  imports Prelude
begin

text \<open>
  \<^verbatim>\<open>aws_lambda/fee_balancer/fee_balancer_lambda_stack.py\<close>: what the stack of the fee balancer asks of AWS.  The
  environment variables and the copying of files are arguments; the resources of the CDK are a record.
\<close>

record lambda_function =
  lf_id :: string
  lf_name :: string
  lf_directory :: string
  lf_environment :: "(string \<times> string) list"
  lf_timeout_minutes :: nat

record lambda_stack =
  ls_function :: lambda_function
  ls_actions :: "string list"
  ls_secrets :: "string list"
  ls_minute :: string

definition required :: "(string \<rightharpoonup> string) \<Rightarrow> string \<Rightarrow> exn + string" where
  "required os name =
     (case os name of
        Some v \<Rightarrow> Inr v | None \<Rightarrow> Inl (ValueError (name @ '' environment variable is not set'')))"

text \<open>The files put beside the image, in order: two sources, the \<^verbatim>\<open>.env\<close> file and three directories.\<close>

definition image_files :: "(string \<times> string) list" where
  "image_files =
     [(''../../kakarot_scripts/constants.py'', ''./constants.py''),
      (''../../kakarot_scripts/utils/starknet.py'', ''./starknet.py''),
      (''../../.env'', ''./.env''), (''../../build'', ''./build''), (''../../deployments'', ''./deployments''),
      (''../../kakarot_scripts/data'', ''./data'')]"

definition secret_arns :: "(string \<rightharpoonup> string) \<Rightarrow> string list" where
  "secret_arns os =
     map the (filter (\<lambda>arn. arn \<noteq> None)
       [os ''RELAYERS_FUND_ACCOUNT_SECRET_ARN'', os ''ETH_COINBASE_OWNER_SECRET_ARN''])"

definition build_lambda_func ::
    "(string \<rightharpoonup> string) \<Rightarrow> (string \<Rightarrow> string \<Rightarrow> exn + unit) \<Rightarrow> exn + lambda_stack" where
  "build_lambda_func os copy =
     bind_sum (required os ''NODE_URL'') (\<lambda>node_url.
     bind_sum (required os ''COINBASE_CONTRACT_ADDRESS'') (\<lambda>coinbase_contract_address.
     bind_sum (required os ''PREV_TOTAL_BALANCE'') (\<lambda>prev_total_balance.
     bind_sum (required os ''EARNING_PERCENTAGE'') (\<lambda>earning_percentage.
     bind_sum (map_sum_list (\<lambda>(from, to). copy from to) image_files) (\<lambda>_.
     Inr \<lparr>ls_function = \<lparr>lf_id = ''fee_balancer_lambda'', lf_name = ''fee_balancer'', lf_directory = ''.'',
            lf_environment = [(''NODE_URL'', node_url),
              (''COINBASE_CONTRACT_ADDRESS'', coinbase_contract_address),
              (''PREV_TOTAL_BALANCE'', prev_total_balance), (''EARNING_PERCENTAGE'', earning_percentage)],
            lf_timeout_minutes = 1\<rparr>,
          ls_actions = [''secretsmanager:GetSecretValue''], ls_secrets = secret_arns os, ls_minute = ''0/20''\<rparr>)))))"

text \<open>The function runs with the variables of the deployment, and may read no secret but the two it is
  configured for.\<close>

lemma set_secret_arns:
  "set (secret_arns os) = {arn. os ''RELAYERS_FUND_ACCOUNT_SECRET_ARN'' = Some arn \<or>
     os ''ETH_COINBASE_OWNER_SECRET_ARN'' = Some arn}"
  by (cases "os ''RELAYERS_FUND_ACCOUNT_SECRET_ARN''"; cases "os ''ETH_COINBASE_OWNER_SECRET_ARN''")
    (auto simp: secret_arns_def)

lemma build_lambda_func_spec:
  assumes "build_lambda_func os copy = Inr stack"
  shows "\<forall>(name, v) \<in> set (lf_environment (ls_function stack)). os name = Some v"
    and "set (ls_secrets stack) = {arn. os ''RELAYERS_FUND_ACCOUNT_SECRET_ARN'' = Some arn \<or>
      os ''ETH_COINBASE_OWNER_SECRET_ARN'' = Some arn}"
  using assms unfolding build_lambda_func_def required_def
  by (auto elim!: bind_sum_InrE split: option.splits simp: set_secret_arns)

text \<open>The first variable that is missing is named, before any file is copied.\<close>

lemma build_lambda_func_missing:
  assumes "\<exists>n \<in> set [''NODE_URL'', ''COINBASE_CONTRACT_ADDRESS'', ''PREV_TOTAL_BALANCE'', ''EARNING_PERCENTAGE'']. os n = None"
  shows "\<exists>n. os n = None \<and> build_lambda_func os copy = Inl (ValueError (n @ '' environment variable is not set''))"
  using assms unfolding build_lambda_func_def required_def
  by (auto simp: bind_sum_def split: option.splits sum.splits)

end
