(* ===== verification/Spec2Isabelle.thy ===== *)
theory Spec2Isabelle
  imports Linking PreEip155 Sequencing Compile RelayerFacts Deploying KakarotSend KakarotLogs KakarotLink L1Client
    AccountFacts StarknetFiles Signing Config Setup EfTests Snapshot CairoTools Project Scripts DeploymentOrder
    DeploymentNonces Outbox Reports Benchmark LambdaStack
begin

text \<open>
  \<^bold>\<open>The Python side of Kakarot.\<close>  Kakarot is an EVM written in Cairo that runs as a Starknet contract.  The
  Python code of the repository compiles, declares, deploys and upgrades it, and is the client
  through which EVM transactions reach it.  This development models that code.

  \<^bold>\<open>How the parts interact.\<close>  Every transaction of the scripts goes through \<^verbatim>\<open>execute_v1\<close> in
  \<^verbatim>\<open>utils/starknet.py\<close>: it takes a nonce from a dictionary that runs ahead of the network, signs,
  submits and waits, or, for an account in the lazy mode, puts the calls in a log that
  \<^verbatim>\<open>execute_calls\<close> sends later, one transaction for each account.  \<^verbatim>\<open>invoke\<close>, \<^verbatim>\<open>deploy\<close>, \<^verbatim>\<open>declare\<close>,
  \<^verbatim>\<open>fund_address\<close> and the relayer pool are built on it; \<^verbatim>\<open>utils/kakarot.py\<close> wraps an EVM transaction
  in a call that a relayer sends; the deployment scripts compose all of these.

  \<^bold>\<open>The model.\<close>  A computation is a function from a state to an outcome (\<open>Prelude\<close>): a value, an
  exception with the state it left, or not coming back.  The state \<open>world\<close> (\<open>World\<close>) has the module
  globals, the caches, the JSON files and the history of requests; \<open>kk_world\<close> (\<open>KakarotWorld\<close>) adds
  those of \<^verbatim>\<open>kakarot.py\<close>.  An environment \<open>env\<close> has the pure functions of the packages (selectors,
  hashes, signatures, serialization) and one oracle for each kind of request, which sees the whole
  history, so that a node may answer differently each time.  Properties hold for all
  environments, or name what they need of them; \<open>Devnet\<close> is a concrete environment in which every
  such need is met.

  \<^bold>\<open>Theories and sources\<close> (paths under \<^verbatim>\<open>src/kakarot_scripts\<close> unless said otherwise).

  \<^item> \<open>Prelude\<close>: exceptions, computations, step relations, bounded and total computations, codecs.
  \<^item> \<open>PyNumber\<close>, \<open>PyBytes\<close>, \<open>PyHex\<close>, \<open>PyText\<close>, \<open>PyRegex\<close>: what the code uses of Python: integers and
    floats (rounded rationals), bytes, hexadecimal text, strings, regular expressions run by a
    backtracking matcher.
  \<^item> \<open>Uint256\<close> (\<^verbatim>\<open>utils/uint256.py\<close>) and \<open>Helpers\<close> (\<^verbatim>\<open>tests/utils/helpers.py\<close>): halves of 256-bit
    integers, byte helpers, \<open>Utf8\<close> for \<^verbatim>\<open>int_to_string\<close>, \<^verbatim>\<open>pack_calldata\<close>, and \<^verbatim>\<open>load_packed_bytes\<close> of the Cairo side; \<open>Signing\<close>: what
    the helpers hash and sign.
  \<^item> \<open>Nonces\<close>, \<open>Execute\<close>, \<open>Batch\<close>, \<open>Sequencing\<close> (\<^verbatim>\<open>utils/starknet.py\<close>): the nonce dictionary as a locale
    with two providers (Starknet and EVM nonces), \<^verbatim>\<open>execute_v1\<close> with its lazy and multisig paths,
    \<^verbatim>\<open>execute_calls\<close>, and the sequence of transactions that results; \<open>Numbering\<close>: the nonces on a network
    that is late and may reject; \<open>Outbox\<close>: the executor as the implementation of an abstract outbox.
  \<^item> \<open>StarknetFiles\<close>, \<open>Compile\<close> (\<^verbatim>\<open>utils/starknet.py\<close>, \<^verbatim>\<open>compile_kakarot.py\<close>): JSON files of addresses,
    artifacts, compiler commands, the compilation.
  \<^item> \<open>Accounts\<close>, \<open>AccountFacts\<close>, \<open>Relayers\<close>, \<open>RelayerFacts\<close>, \<open>Deploying\<close> (\<^verbatim>\<open>utils/starknet.py\<close>): accounts,
    contracts, calls, funding, the relayer pool, \<^verbatim>\<open>declare\<close> and \<^verbatim>\<open>deploy\<close>.
  \<^item> \<open>KakarotWorld\<close>, \<open>KakarotTx\<close>, \<open>KakarotTxFacts\<close>, \<open>KakarotSend\<close>, \<open>KakarotLogs\<close>, \<open>SolidityArtifacts\<close>,
    \<open>KakarotLink\<close>, \<open>ContractCalls\<close> (\<^verbatim>\<open>utils/kakarot.py\<close>): EVM nonces, transactions and receipts, logs, the
    artifacts of solc, contract handles, linking and deploying Solidity contracts, and calling them through the
    functions attached to a handle; \<open>ClientFrame\<close>: what the client does to the state; \<open>Linking\<close>: the code
    a handle has; \<open>PreEip155\<close> (\<^verbatim>\<open>data/pre_eip155_txs.py\<close>): the amounts of the pre-EIP-155 transactions.
  \<^item> \<open>L1Client\<close> (\<^verbatim>\<open>utils/l1.py\<close>): the addresses on L1, contract handles and their transactions.
  \<^item> \<open>Config\<close> (\<^verbatim>\<open>constants.py\<close>): what the import computes from the environment variables.
  \<^item> \<open>Deployment\<close> (\<^verbatim>\<open>deployment/*.py\<close>) with \<open>DeploymentFacts\<close>, \<open>DeploymentSettles\<close>, \<open>DeploymentRun\<close> and
    \<open>DeploymentOrder\<close>: every deployment script, and what they leave behind; \<open>DeploymentNonces\<close>: what
    the whole deployment keeps, the nonces and signatures of all accounts in particular.
  \<^item> \<open>Scripts\<close> (\<^verbatim>\<open>withdraw_accounts.py\<close>, \<^verbatim>\<open>utils/deploy_oz.py\<close>), \<open>Setup\<close> (\<^verbatim>\<open>setup/setup.py\<close>), \<open>EfTests\<close>
    (\<^verbatim>\<open>ef_tests/fetch.py\<close>, \<^verbatim>\<open>ef_tests/debug.py\<close>), \<open>CairoTools\<close> (\<^verbatim>\<open>utils/find_selector.py\<close>,
    \<^verbatim>\<open>utils/fetch_outdated_eoas.py\<close> and, under \<^verbatim>\<open>src/cairo/kakarot-ssj/scripts\<close>, \<^verbatim>\<open>find_selectory.py\<close> and
    \<^verbatim>\<open>filter_tests.py\<close>), \<open>Snapshot\<close> and \<open>Project\<close> (the other scripts of that directory).
  \<^item> \<open>Reports\<close> (\<^verbatim>\<open>artifacts.py\<close>, \<^verbatim>\<open>check_resources.py\<close>, \<^verbatim>\<open>ef_tests/resources.py\<close>) and \<open>Benchmark\<close>
    (\<^verbatim>\<open>benchmark_cairo_calls.py\<close>): the reports up to the table that is plotted or printed; \<open>LambdaStack\<close>
    (\<^verbatim>\<open>src/aws_lambda/fee_balancer/fee_balancer_lambda_stack.py\<close>): the resources of the fee balancer.
\<close>

text \<open>
  \<^bold>\<open>What the lemmas show.\<close>  Nonces are handed out without gaps and never lost or doubled by a failure,
  by a network that counts at once or by one that lags and rejects (\<open>lagging_network\<close>: never ahead, exact
  before the first use and after the ten pauses), in one execution and throughout the deployment;
  whatever is invoked is sent or still waits, once (\<open>executor_refines_outbox\<close>, \<open>calls_conserved\<close>); a lazy account's calls are sent once, in order, in one transaction; funding sends exactly what is
  missing; an EVM transaction that is reported as executed was submitted once, by the relayer of its
  address, and its calldata is unpacked by the contract to what was packed; logs, deployments and
  addresses survive their encodings; linking puts the address of every library in its places
  and touches nothing else, for any number of libraries; code stored
  through \<^verbatim>\<open>store_bytecode\<close> is the code that init code returns on the EVM.  The deployment ends with
  nothing deferred and no account lazy; an upgrade is one transaction; a withdrawal gives every
  contract its class back.  The tools stop at the first failure, keep the sources, and report exactly
  what they compare.  Some theorems show what the code does where it probably should not: a retry of
  \<^verbatim>\<open>execute_calls\<close> sends served batches again, a failed creation of the pool leaves the main account
  lazy, ETH are compared with wei, a float \<^verbatim>\<open>max_wait\<close> ends every transaction with a \<^verbatim>\<open>TypeError\<close>.

  \<^bold>\<open>Interfaces.\<close>  \<open>step_relation\<close> (Prelude) is the contract of a relation between the state found and the
  state left, interpreted for every frame and invariant used; \<open>codec\<close> (Prelude) that of a text form
  that reads back; \<open>nonce_counter\<close> (Nonces) that of a dictionary of nonces and its query, and \<open>paced_counter\<close> extends it
  with the pauses made; \<open>client_relation\<close> (ClientFrame) extends \<open>step_relation\<close> to relations that
  questions, executions and newly remembered libraries respect, which then hold for every operation of the client
  and of the deployment; \<open>deployment_invariant\<close> (DeploymentNonces), a special case of it, is that of a property
  of the history and the nonces.  Each is interpreted on the definitions of the model.

  \<^bold>\<open>Bounds and fuel.\<close>  Loops over counters recurse on the counter: a nonce is polled ten times at most, a
  receipt as often as \<^verbatim>\<open>max_wait\<close> allows.  Waiting on the multisig service, for a signal and for the output
  of a command may never end, and is then the outcome \<open>Diverge\<close>.  \<open>deploy_contract\<close> carries fuel, the depth to
  which libraries need libraries; \<open>deploy_contract_fuel\<close> shows that one unit is enough without libraries.

  \<^bold>\<open>Not modelled.\<close>  \<^verbatim>\<open>src/aws_lambda/fee_balancer/fee_balancer.py\<close> cannot be imported (a \<^verbatim>\<open>return\<close> with a
  value in an asynchronous generator); of its neighbours only the stack is modelled.
  What the report scripts draw or print is left out, and pandas, numpy, GitHub, zip, CSV and JSON are
  parameters there.  Logging, progress output and the creation of directories have no effect the model
  could see; an exception that a log line could raise by formatting a number is left out with it.  Signing,
  hashing, RLP, ABI encoding, JSON and the nodes are parameters.  Tasks of \<^verbatim>\<open>asyncio\<close> are run in the
  order of the code, which awaits each of them except in the batches of
  \<^verbatim>\<open>fetch_outdated_eoas.py\<close>; the tests and the Cairo and Solidity sources are outside this
  development, but for \<^verbatim>\<open>load_packed_bytes\<close> of \<^verbatim>\<open>src/cairo_zero/utils/utils.cairo\<close>.
\<close>

end
